(* ===== verification/Prelude.thy ===== *)
theory Prelude
  imports Complex_Main "HOL-Library.Multiset" "HOL-Library.AList" "HOL-Library.List_Lexorder" "HOL-Library.Char_ord"
begin

text \<open>
  Shared vocabulary of the development: the errors of the library
  (\<^verbatim>\<open>errors.py\<close>) next to the exceptions the language, the database layer and the
  application's callbacks raise, fallible results as \<open>error + 'a\<close>, the Python strings,
  dictionaries and datetimes the sources use, JSON payloads, and the generic facts on
  lists and results that the component theories share.
\<close>

section \<open>Collections of facts\<close>

named_theorems res_simps \<open>equations of the result combinators\<close>
named_theorems sql_simps \<open>equations of the relational operations\<close>
named_theorems store_defs \<open>definitions of store operations, unfolded together\<close>

section \<open>Errors\<close>

text \<open>
  The three error classes of \<^verbatim>\<open>errors.py\<close>, then the exceptions that reach the library
  from Python (\<open>TypeError\<close>, \<open>ValueError\<close>, \<open>OverflowError\<close>), from SQLAlchemy and the
  database (\<open>IntegrityError\<close> for a violated unique constraint, \<open>DataError\<close> for a value a
  column cannot hold, \<open>DatabaseError\<close> for a rejected statement, \<open>NoResultFound\<close> and
  \<open>MultipleResultsFound\<close> for \<^verbatim>\<open>Result.one()\<close>), from \<^verbatim>\<open>configparser\<close> (\<open>InterpolationError\<close>), and \<open>CallbackError\<close> for any exception raised by an
  application callback or a transport client.  \<open>CancelledError\<close> is \<^verbatim>\<open>asyncio\<close>'s, a
  \<^verbatim>\<open>BaseException\<close>: the clauses \<^verbatim>\<open>except Exception\<close> of the library let it through.  \<open>OutsideModel\<close> is no
  exception of the program: it is the answer of the model's decoders for a text that the model's strings cannot
  hold, and nothing is claimed of what the program does then.
\<close>

datatype error =
    ValidationError string
  | PersistenceError string
  | RoutingError string
  | TypeError string
  | ValueError string
  | OverflowError
  | IntegrityError
  | DataError
  | DatabaseError
  | NoResultFound
  | MultipleResultsFound
  | InterpolationError string
  | CallbackError string
  | CancelledError
  | OutsideModel

text \<open>
  The subclasses of \<^verbatim>\<open>PactixError\<close>, the base class of \<^verbatim>\<open>errors.py\<close>: its message (\<^verbatim>\<open>str\<close> of the
  error) for an instance of one of them.
\<close>

fun PactixError :: "error \<Rightarrow> string option" where
  "PactixError (ValidationError s) = Some s"
| "PactixError (PersistenceError s) = Some s"
| "PactixError (RoutingError s) = Some s"
| "PactixError _ = None"

section \<open>Fallible results\<close>

definition res_bind :: "'e + 'a \<Rightarrow> ('a \<Rightarrow> 'e + 'b) \<Rightarrow> 'e + 'b" where
  "res_bind m f = (case m of Inl e \<Rightarrow> Inl e | Inr x \<Rightarrow> f x)"

lemma res_bind_Inl [simp, res_simps]: "res_bind (Inl e) f = Inl e"
  by (simp add: res_bind_def)

lemma res_bind_Inr [simp, res_simps]: "res_bind (Inr x) f = f x"
  by (simp add: res_bind_def)

lemma res_bind_eq_Inr [simp]:
  "res_bind m f = Inr y \<longleftrightarrow> (\<exists>x. m = Inr x \<and> f x = Inr y)"
  by (cases m) auto

lemma Inr_eq_res_bind [simp]:
  "Inr y = res_bind m f \<longleftrightarrow> (\<exists>x. m = Inr x \<and> f x = Inr y)"
  by (cases m) auto

lemma res_bind_eq_Inl:
  "res_bind m f = Inl e \<longleftrightarrow> m = Inl e \<or> (\<exists>x. m = Inr x \<and> f x = Inl e)"
  by (cases m) auto

lemma res_bind_cong [fundef_cong]:
  "m = m' \<Longrightarrow> (\<And>x. m' = Inr x \<Longrightarrow> f x = f' x) \<Longrightarrow> res_bind m f = res_bind m' f'"
  by (cases m') auto

text \<open>A list comprehension whose element expression may raise: the first error wins.\<close>

fun res_map :: "('a \<Rightarrow> 'e + 'b) \<Rightarrow> 'a list \<Rightarrow> 'e + 'b list" where
  "res_map f [] = Inr []"
| "res_map f (x # xs) =
     res_bind (f x) (\<lambda>y. res_bind (res_map f xs) (\<lambda>ys. Inr (y # ys)))"

lemma res_map_eq_Inr:
  "res_map f xs = Inr ys \<longleftrightarrow> list_all2 (\<lambda>x y. f x = Inr y) xs ys"
proof (induction xs arbitrary: ys)
  case Nil
  then show ?case by auto
next
  case (Cons x xs)
  then show ?case by (cases ys) (auto simp: list_all2_Cons1)
qed

lemma res_map_total:
  "(\<And>x. x \<in> set xs \<Longrightarrow> f x = Inr (g x)) \<Longrightarrow> res_map f xs = Inr (map g xs)"
  by (induction xs) auto

lemma res_map_length: "res_map f xs = Inr ys \<Longrightarrow> length ys = length xs"
  by (auto simp: res_map_eq_Inr dest: list_all2_lengthD)

lemma res_map_mem:
  assumes "res_map f xs = Inr ys" and "y \<in> set ys"
  shows "\<exists>x \<in> set xs. f x = Inr y"
proof -
  from assms(1) have "list_all2 (\<lambda>x y. f x = Inr y) xs ys" by (simp add: res_map_eq_Inr)
  with assms(2) show ?thesis by (auto simp: list_all2_conv_all_nth in_set_conv_nth Bex_def)
qed

section \<open>Python strings\<close>

text \<open>
  A Python \<^verbatim>\<open>str\<close> is a list of characters whose code points are below 256 (Latin-1);
  \<^verbatim>\<open>str.strip\<close> removes the characters that \<^verbatim>\<open>str.isspace\<close> accepts in that range, and
  \<^verbatim>\<open>str.lower\<close> maps the capital letters of that range.
\<close>

definition code_point :: "char \<Rightarrow> nat" where
  "code_point c = of_char c"

definition is_space :: "char \<Rightarrow> bool" where
  "is_space c = (code_point c \<in> {9, 10, 11, 12, 13, 28, 29, 30, 31, 32, 133, 160})"

definition strip :: "string \<Rightarrow> string" where
  "strip s = rev (dropWhile is_space (rev (dropWhile is_space s)))"

definition blank :: "string \<Rightarrow> bool" where
  "blank s = (strip s = [])"

lemma blank_iff: "blank s \<longleftrightarrow> list_all is_space s"
proof -
  have "dropWhile is_space (rev (dropWhile is_space s)) = [] \<longleftrightarrow> list_all is_space (dropWhile is_space s)"
    by (simp add: list_all_iff dropWhile_eq_Nil_conv)
  also have "\<dots> \<longleftrightarrow> list_all is_space s"
    by (induction s) (auto simp: list_all_iff)
  finally show ?thesis by (simp add: blank_def strip_def)
qed

definition lower_char :: "char \<Rightarrow> char" where
  "lower_char c =
     (if code_point c \<in> {65..90} \<union> ({192..222} - {215}) then char_of (code_point c + 32) else c)"

definition lower :: "string \<Rightarrow> string" where
  "lower s = map lower_char s"

lemma lower_char_idem: "lower_char (lower_char c) = lower_char c"
  by (auto simp: lower_char_def code_point_def)

lemma lower_idem [simp]: "lower (lower s) = lower s"
  by (simp add: lower_def lower_char_idem)

text \<open>\<^verbatim>\<open>str\<close> of an integer: its decimal digits.\<close>

fun str_nat :: "nat \<Rightarrow> string" where
  "str_nat n = (if n < 10 then [char_of (48 + n)] else str_nat (n div 10) @ [char_of (48 + n mod 10)])"

declare str_nat.simps [simp del]

definition str_int :: "int \<Rightarrow> string" where
  "str_int i = (if i < 0 then CHR ''-'' # str_nat (nat (- i)) else str_nat (nat i))"

text \<open>\<^verbatim>\<open>', '.join(items)\<close>\<close>

fun comma_separated :: "string list \<Rightarrow> string" where
  "comma_separated [] = ''''"
| "comma_separated [s] = s"
| "comma_separated (s # rest) = s @ '', '' @ comma_separated rest"

section \<open>Python dictionaries\<close>

text \<open>
  A dictionary keeps its insertion order: an association list with distinct keys.
  \<open>AList.update\<close> is item assignment: an existing key keeps its position, a new key goes
  to the end. \<open>map_of\<close> is \<^verbatim>\<open>dict.get\<close>.
\<close>

type_synonym pydict = "(string \<times> string) list"

definition dict_update :: "('k \<times> 'v) list \<Rightarrow> ('k \<times> 'v) list \<Rightarrow> ('k \<times> 'v) list" where
  "dict_update d items = fold (\<lambda>(k, v). AList.update k v) items d"

definition wf_dict :: "('k \<times> 'v) list \<Rightarrow> bool" where
  "wf_dict d = distinct (map fst d)"

lemma dict_update_Nil [simp]: "dict_update d [] = d"
  by (simp add: dict_update_def)

lemma dict_update_Cons [simp]: "dict_update d ((k, v) # xs) = dict_update (AList.update k v d) xs"
  by (simp add: dict_update_def)

lemma wf_dict_Nil [simp]: "wf_dict []"
  by (simp add: wf_dict_def)

lemma wf_dict_update [simp]: "wf_dict d \<Longrightarrow> wf_dict (AList.update k v d)"
  by (simp add: wf_dict_def distinct_update)

lemma wf_dict_dict_update [simp]: "wf_dict d \<Longrightarrow> wf_dict (dict_update d xs)"
  by (induction xs arbitrary: d) auto

lemma map_of_dict_update:
  "map_of (dict_update d xs) k = (case map_of (rev xs) k of Some v \<Rightarrow> Some v | None \<Rightarrow> map_of d k)"
proof (induction xs arbitrary: d)
  case Nil
  then show ?case by simp
next
  case (Cons x xs)
  obtain k' v' where "x = (k', v')" by (cases x)
  then show ?case
    by (auto simp: Cons.IH update_conv' map_add_def split: option.splits)
qed

lemma map_of_rev_wf: "wf_dict d \<Longrightarrow> map_of (rev d) = map_of d"
  by (metis distinct_rev map_of_inject_set rev_map set_rev wf_dict_def)

text \<open>\<^verbatim>\<open>headers[name] = value\<close> guarded by \<^verbatim>\<open>if value is not None\<close>.\<close>

definition set_present :: "string \<Rightarrow> string option \<Rightarrow> pydict \<Rightarrow> pydict" where
  "set_present name v d = (case v of None \<Rightarrow> d | Some x \<Rightarrow> AList.update name x d)"

lemma map_of_set_present:
  "map_of (set_present name v d) k = (if k = name \<and> v \<noteq> None then v else map_of d k)"
  by (auto simp: set_present_def update_conv' split: option.split)

lemma wf_set_present [simp]: "wf_dict d \<Longrightarrow> wf_dict (set_present name v d)"
  by (simp add: set_present_def split: option.split)

text \<open>\<^verbatim>\<open>dict(sorted(d.items()))\<close>: the same mapping with its keys in order.\<close>

definition dict_sorted :: "pydict \<Rightarrow> pydict" where
  "dict_sorted d = sort_key fst d"

lemma wf_dict_sorted [simp]: "wf_dict (dict_sorted d) = wf_dict d"
  unfolding wf_dict_def dict_sorted_def
  by (metis mset_eq_imp_distinct_iff mset_map mset_sort)

lemma map_of_dict_sorted:
  assumes "wf_dict d" shows "map_of (dict_sorted d) = map_of d"
proof (rule map_of_inject_set [THEN iffD2])
  show "distinct (map fst (dict_sorted d))" and "distinct (map fst d)"
    using assms wf_dict_sorted [of d] by (simp_all only: wf_dict_def)
  show "set (dict_sorted d) = set d" by (simp add: dict_sorted_def)
qed

section \<open>Datetimes\<close>

text \<open>
  A \<^verbatim>\<open>datetime\<close> is its wall-clock reading in microseconds since 1970-01-01, with the UTC
  offset (microseconds) when it is aware.  The time line is unbounded: the
  \<^verbatim>\<open>OverflowError\<close> of datetime arithmetic beyond the years 1 to 9999 is not modelled.
\<close>

datatype datetime = Aware int int | Naive int

fun dt_add :: "datetime \<Rightarrow> int \<Rightarrow> datetime" where
  "dt_add (Aware w off) us = Aware (w + us) off"
| "dt_add (Naive w) us = Naive (w + us)"

text \<open>The instant an aware datetime denotes, and the datetimes \<^verbatim>\<open>datetime.now(UTC)\<close> yields.\<close>

fun instant :: "datetime \<Rightarrow> int" where
  "instant (Aware w off) = w - off"
| "instant (Naive w) = w"

fun is_aware :: "datetime \<Rightarrow> bool" where
  "is_aware (Aware _ _) = True"
| "is_aware (Naive _) = False"

abbreviation utc :: "int \<Rightarrow> datetime" where
  "utc i \<equiv> Aware i 0"

lemma instant_dt_add [simp]: "instant (dt_add t us) = instant t + us"
  by (cases t) auto

lemma is_aware_dt_add [simp]: "is_aware (dt_add t us) = is_aware t"
  by (cases t) auto

section \<open>Floats\<close>

text \<open>
  A Python \<^verbatim>\<open>float\<close>: a finite one is the rational it denotes (the sign of a zero is not kept:
  nothing in the sources observes it).
\<close>

datatype pyfloat = Fin rat | PInf | NInf | NaN

section \<open>JSON values and row identifiers\<close>

datatype json =
    JNull
  | JBool bool
  | JInt int
  | JFloat pyfloat
  | JStr string
  | JList "json list"
  | JObj "(string \<times> json) list"

text \<open>A \<^verbatim>\<open>uuid.UUID\<close> is its 128-bit integer.\<close>

type_synonym uuid = nat

section \<open>Enumerations stored as text\<close>

text \<open>
  The interface of the string-valued enumerations (\<^verbatim>\<open>as_str\<close> and \<^verbatim>\<open>from_str\<close>): reading
  back what was written gives the member, and nothing else is read as a member.
\<close>

locale str_enum =
  fixes as_str :: "'a \<Rightarrow> string"
    and from_str :: "string \<Rightarrow> error + 'a"
  assumes from_as: "from_str (as_str x) = Inr x"
    and as_from: "from_str s = Inr x \<Longrightarrow> as_str x = s"
begin

lemma as_str_inject: "as_str x = as_str y \<longleftrightarrow> x = y"
  by (metis from_as sum.inject(2))

lemma from_str_iff: "from_str s = Inr x \<longleftrightarrow> s = as_str x"
  using as_from from_as by blast

lemma from_str_raises_iff: "(\<exists>e. from_str s = Inl e) \<longleftrightarrow> s \<notin> range as_str"
proof (cases "from_str s")
  case (Inl e)
  then show ?thesis using from_as by force
next
  case (Inr x)
  then show ?thesis using as_from by force
qed

end

definition quoted :: "string \<Rightarrow> string" where
  "quoted s = CHR 0x27 # s @ [CHR 0x27]"

end
