(* ===== verification/Message.thy ===== *)
theory Message
  imports Prelude
begin

text \<open>
  \<^verbatim>\<open>message.py\<close>: the delivery metadata with its builders and its validation, and the
  envelope, whose construction validates the metadata.
\<close>

record MessageMetadata =
  md_message_id :: string
  md_event_type :: string
  md_message_key :: "string option"
  md_ordering_key :: "string option"
  md_correlation_id :: "string option"
  md_headers :: pydict
  md_occurred_at :: datetime

text \<open>The constructor with its defaults; \<open>now\<close> is what \<^verbatim>\<open>_utcnow()\<close> returns.\<close>

definition MessageMetadata_new :: "string \<Rightarrow> string \<Rightarrow> datetime \<Rightarrow> MessageMetadata" where
  "MessageMetadata_new message_id event_type now = \<lparr>
     md_message_id = message_id,
     md_event_type = event_type,
     md_message_key = None,
     md_ordering_key = None,
     md_correlation_id = None,
     md_headers = [],
     md_occurred_at = now\<rparr>"

definition for_event_type :: "string \<Rightarrow> datetime \<Rightarrow> string \<Rightarrow> MessageMetadata" where
  "for_event_type uuid4_text now event_type = MessageMetadata_new uuid4_text event_type now"

definition with_message_key :: "string \<Rightarrow> MessageMetadata \<Rightarrow> MessageMetadata" where
  "with_message_key k m = m\<lparr>md_message_key := Some k\<rparr>"

definition with_ordering_key :: "string \<Rightarrow> MessageMetadata \<Rightarrow> MessageMetadata" where
  "with_ordering_key k m = m\<lparr>md_ordering_key := Some k\<rparr>"

definition with_correlation_id :: "string \<Rightarrow> MessageMetadata \<Rightarrow> MessageMetadata" where
  "with_correlation_id c m = m\<lparr>md_correlation_id := Some c\<rparr>"

definition with_headers :: "pydict \<Rightarrow> MessageMetadata \<Rightarrow> MessageMetadata" where
  "with_headers h m = m\<lparr>md_headers := h\<rparr>"

lemmas builder_defs =
  with_message_key_def with_ordering_key_def with_correlation_id_def with_headers_def
  MessageMetadata_new_def

definition validate :: "bool \<Rightarrow> MessageMetadata \<Rightarrow> error + unit" where
  "validate requires_ordering_key m =
     (if blank (md_message_id m) then Inl (ValidationError ''message_id must not be empty'')
      else if blank (md_event_type m) then Inl (ValidationError ''event_type must not be empty'')
      else
        let has_ordering_key =
          (case md_ordering_key m of None \<Rightarrow> False | Some k \<Rightarrow> \<not> blank k)
        in
          if requires_ordering_key \<and> \<not> has_ordering_key
          then Inl (ValidationError ''ordering_key is required for ordered event types'')
          else (case md_ordering_key m of
                  None \<Rightarrow> Inr ()
                | Some k \<Rightarrow>
                    if blank k
                    then Inl (ValidationError ''ordering_key must not be empty when provided'')
                    else Inr ()))"

record MessageEnvelope =
  env_metadata :: MessageMetadata
  env_payload :: json

text \<open>\<^verbatim>\<open>MessageEnvelope(metadata, payload)\<close>, with its \<^verbatim>\<open>__post_init__\<close>.\<close>

definition MessageEnvelope_new :: "MessageMetadata \<Rightarrow> json \<Rightarrow> error + MessageEnvelope" where
  "MessageEnvelope_new m p =
     res_bind (validate False m) (\<lambda>_. Inr \<lparr>env_metadata = m, env_payload = p\<rparr>)"

definition valid_metadata :: "MessageMetadata \<Rightarrow> bool" where
  "valid_metadata m \<longleftrightarrow> \<not> blank (md_message_id m) \<and> \<not> blank (md_event_type m) \<and>
     (\<forall>k. md_ordering_key m = Some k \<longrightarrow> \<not> blank k)"

lemma validate_Inr_iff:
  "validate req m = Inr () \<longleftrightarrow> valid_metadata m \<and> (req \<longrightarrow> md_ordering_key m \<noteq> None)"
  by (auto simp: validate_def valid_metadata_def Let_def split: option.splits if_splits)

lemma validate_Inl: "validate req m = Inl e \<Longrightarrow> \<exists>s. e = ValidationError s"
  by (auto simp: validate_def Let_def split: option.splits if_splits)

lemma MessageEnvelope_new_Inr_iff:
  "MessageEnvelope_new m p = Inr env \<longleftrightarrow>
     valid_metadata m \<and> env = \<lparr>env_metadata = m, env_payload = p\<rparr>"
  using validate_Inr_iff [of False m] by (cases "validate False m") (auto simp: MessageEnvelope_new_def)

lemma MessageEnvelope_new_Inl:
  "MessageEnvelope_new m p = Inl e \<Longrightarrow> \<exists>s. e = ValidationError s"
  by (auto simp: MessageEnvelope_new_def res_bind_eq_Inl dest: validate_Inl)

end
