(* ===== verification/Float64.thy ===== *)
theory Float64
  imports Prelude "HOL-Library.Log_Nat" Complex_Main
begin

text \<open>
  Python's \<^verbatim>\<open>float\<close> and the parts of \<^verbatim>\<open>datetime.timedelta\<close> that convert to and from it.
  A finite float is the rational it denotes; \<open>fl\<close> rounds a rational to IEEE binary64
  (53 significant bits, exponent at least -1074, ties to even, overflow to infinity), which
  is how the language rounds \<^verbatim>\<open>*\<close>, \<^verbatim>\<open>-\<close> and the true division of two integers.  The sign of a
  zero is not kept: nothing in the sources observes it.  A \<^verbatim>\<open>timedelta\<close> is its number of
  microseconds.  The theory proves that rounding is monotone, bounds its error, and that a
  time span below \<open>2 ^ 51\<close> microseconds survives \<^verbatim>\<open>total_seconds()\<close> and back unchanged.
\<close>

section \<open>Rounding\<close>

definition pow2 :: "int \<Rightarrow> rat" where
  "pow2 e = (if 0 \<le> e then 2 ^ nat e else 1 / 2 ^ nat (- e))"

text \<open>Nearest integer, ties to the even one.\<close>

definition round_even :: "rat \<Rightarrow> int" where
  "round_even r =
     (let f = \<lfloor>r\<rfloor>; d = r - of_int f
      in if d < 1/2 then f else if 1/2 < d then f + 1 else if even f then f else f + 1)"

text \<open>The exponent \<open>k\<close> with \<open>2 ^ k \<le> r < 2 ^ (k + 1)\<close>, for a positive \<open>r\<close>.\<close>

definition ilog2 :: "rat \<Rightarrow> int" where
  "ilog2 r =
     (let (p, q) = quotient_of r; k = bitlen p - bitlen q
      in if pow2 k \<le> r then k else k - 1)"

definition ulp_exp :: "rat \<Rightarrow> int" where
  "ulp_exp r = max (ilog2 \<bar>r\<bar> - 52) (- 1074)"

definition fl_rat :: "rat \<Rightarrow> rat" where
  "fl_rat r = (if r = 0 then 0 else of_int (round_even (r / pow2 (ulp_exp r))) * pow2 (ulp_exp r))"

definition fl :: "rat \<Rightarrow> pyfloat" where
  "fl r = (if pow2 1024 \<le> fl_rat r then PInf else if fl_rat r \<le> - pow2 1024 then NInf else Fin (fl_rat r))"

section \<open>Arithmetic and comparison\<close>

fun f_mul :: "pyfloat \<Rightarrow> pyfloat \<Rightarrow> pyfloat" where
  "f_mul (Fin a) (Fin b) = fl (a * b)"
| "f_mul NaN _ = NaN"
| "f_mul _ NaN = NaN"
| "f_mul (Fin a) PInf = (if a = 0 then NaN else if 0 < a then PInf else NInf)"
| "f_mul (Fin a) NInf = (if a = 0 then NaN else if 0 < a then NInf else PInf)"
| "f_mul PInf (Fin b) = (if b = 0 then NaN else if 0 < b then PInf else NInf)"
| "f_mul NInf (Fin b) = (if b = 0 then NaN else if 0 < b then NInf else PInf)"
| "f_mul PInf PInf = PInf"
| "f_mul PInf NInf = NInf"
| "f_mul NInf PInf = NInf"
| "f_mul NInf NInf = PInf"

fun f_sub :: "pyfloat \<Rightarrow> pyfloat \<Rightarrow> pyfloat" where
  "f_sub (Fin a) (Fin b) = fl (a - b)"
| "f_sub NaN _ = NaN"
| "f_sub _ NaN = NaN"
| "f_sub (Fin _) PInf = NInf"
| "f_sub (Fin _) NInf = PInf"
| "f_sub PInf PInf = NaN"
| "f_sub NInf NInf = NaN"
| "f_sub PInf _ = PInf"
| "f_sub NInf _ = NInf"

fun f_less :: "pyfloat \<Rightarrow> pyfloat \<Rightarrow> bool" where
  "f_less (Fin a) (Fin b) = (a < b)"
| "f_less NaN _ = False"
| "f_less _ NaN = False"
| "f_less PInf _ = False"
| "f_less _ PInf = True"
| "f_less _ NInf = False"
| "f_less NInf _ = True"

text \<open>\<^verbatim>\<open>min(x, y)\<close> keeps its first argument unless the second is smaller.\<close>

definition f_min :: "pyfloat \<Rightarrow> pyfloat \<Rightarrow> pyfloat" where
  "f_min x y = (if f_less y x then y else x)"

section \<open>Time spans\<close>

text \<open>\<^verbatim>\<open>timedelta.total_seconds()\<close>: the microseconds divided by \<open>10 ^ 6\<close>, rounded once.\<close>

definition total_seconds :: "int \<Rightarrow> pyfloat" where
  "total_seconds us = fl (of_int us / 1000000)"

text \<open>
  \<^verbatim>\<open>timedelta(seconds=x)\<close>: the whole seconds exactly, the fraction times \<open>10 ^ 6\<close> as a float,
  the sum rounded half to even; a span of more than 999999999 days raises.
\<close>

definition trunc :: "rat \<Rightarrow> int" where
  "trunc r = (if 0 \<le> r then \<lfloor>r\<rfloor> else \<lceil>r\<rceil>)"

definition td_micros :: "rat \<Rightarrow> int" where
  "td_micros r = round_even (of_int (trunc r * 1000000) + fl_rat ((r - of_int (trunc r)) * 1000000))"

definition max_timedelta :: int where
  "max_timedelta = 86400000000 * 1000000000 - 1"

definition min_timedelta :: int where
  "min_timedelta = - 86399999913600000000"

fun timedelta_seconds :: "pyfloat \<Rightarrow> error + int" where
  "timedelta_seconds (Fin r) =
     (if min_timedelta \<le> td_micros r \<and> td_micros r \<le> max_timedelta
      then Inr (td_micros r) else Inl OverflowError)"
| "timedelta_seconds PInf = Inl OverflowError"
| "timedelta_seconds NInf = Inl OverflowError"
| "timedelta_seconds NaN = Inl (ValueError ''cannot convert float NaN to integer'')"

section \<open>Powers of two and the binary exponent\<close>

lemma pow2_powi: "pow2 e = 2 powi e"
  by (simp add: pow2_def power_int_def field_simps)

lemma pow2_pos [simp]: "0 < pow2 e"
  by (simp add: pow2_powi)

lemma pow2_nonneg [simp]: "0 \<le> pow2 e"
  by (simp add: less_imp_le)

lemma pow2_neq_0 [simp]: "pow2 e \<noteq> 0"
  by (metis less_irrefl pow2_pos)

lemma pow2_add: "pow2 (a + b) = pow2 a * pow2 b"
  by (simp add: pow2_powi power_int_add)

lemma pow2_mono: "a \<le> b \<Longrightarrow> pow2 a \<le> pow2 b"
  by (simp add: pow2_powi power_int_increasing)

lemma pow2_less_iff: "pow2 a < pow2 b \<longleftrightarrow> a < b"
  using power_int_strict_increasing [of a b "2 :: rat"] pow2_mono [of b a]
  by (cases "a < b") (auto simp: pow2_powi not_less)

lemma pow2_of_nat: "0 \<le> e \<Longrightarrow> pow2 e = of_int (2 ^ nat e)"
  by (simp add: pow2_def)

lemma bitlen_rat_bounds:
  assumes "0 < (p :: int)"
  shows "pow2 (bitlen p - 1) \<le> of_int p" and "of_int p < pow2 (bitlen p)"
proof -
  have l: "0 < bitlen p"
    using bitlen_bounds [OF assms] assms by (cases "0 < bitlen p") auto
  have "2 ^ nat (bitlen p - 1) \<le> p" and "p < 2 ^ nat (bitlen p)"
    using bitlen_bounds [OF assms] by auto
  then have "(of_int (2 ^ nat (bitlen p - 1)) :: rat) \<le> of_int p"
    and "(of_int p :: rat) < of_int (2 ^ nat (bitlen p))"
    by (simp_all only: of_int_le_iff of_int_less_iff)
  then show "pow2 (bitlen p - 1) \<le> of_int p" and "of_int p < pow2 (bitlen p)"
    using l by (simp_all add: pow2_of_nat)
qed

lemma ilog2_bounds:
  assumes "0 < r"
  shows "pow2 (ilog2 r) \<le> r" and "r < pow2 (ilog2 r + 1)"
proof -
  obtain p q where pq: "quotient_of r = (p, q)" by (cases "quotient_of r")
  let ?k = "bitlen p - bitlen q"
  have q: "0 < q" using pq by (rule quotient_of_denom_pos)
  have r: "r = of_int p / of_int q" using pq by (rule quotient_of_div)
  with assms q have p: "0 < p" by (simp add: zero_less_divide_iff)
  have "r < pow2 (bitlen p) / pow2 (bitlen q - 1)"
    unfolding r using bitlen_rat_bounds [OF p] bitlen_rat_bounds [OF q] q p
    by (intro frac_less) auto
  also have "\<dots> = pow2 (?k + 1)" by (simp add: pow2_powi power_int_diff power_int_add field_simps)
  finally have up: "r < pow2 (?k + 1)" .
  have "pow2 (bitlen p - 1) / pow2 (bitlen q) < r"
    unfolding r using bitlen_rat_bounds [OF p] bitlen_rat_bounds [OF q] q p
    by (intro frac_less2) auto
  moreover have "pow2 (bitlen p - 1) / pow2 (bitlen q) = pow2 (?k - 1)"
    by (simp add: pow2_powi power_int_diff power_int_add field_simps)
  ultimately have low: "pow2 (?k - 1) \<le> r" by simp
  show "pow2 (ilog2 r) \<le> r" and "r < pow2 (ilog2 r + 1)"
    using up low pq by (auto simp: ilog2_def Let_def)
qed

lemma ilog2_mono:
  assumes "0 < r" and "r \<le> s" shows "ilog2 r \<le> ilog2 s"
proof -
  have "pow2 (ilog2 r) \<le> r" using assms by (simp add: ilog2_bounds)
  also have "r \<le> s" by fact
  also have "s < pow2 (ilog2 s + 1)" using assms by (simp add: ilog2_bounds)
  finally show ?thesis by (simp add: pow2_less_iff)
qed

lemma ulp_exp_mono: "0 < r \<Longrightarrow> r \<le> s \<Longrightarrow> ulp_exp r \<le> ulp_exp s"
  using ilog2_mono [of r s] by (auto simp: ulp_exp_def)

section \<open>Rounding to an integer\<close>

lemma round_even_error: "\<bar>of_int (round_even r) - r\<bar> \<le> 1/2"
proof -
  have "0 \<le> r - of_int \<lfloor>r\<rfloor>" and "r - of_int \<lfloor>r\<rfloor> < 1"
    using floor_correct [of r] by linarith+
  then show ?thesis by (auto simp: round_even_def Let_def abs_le_iff)
qed

lemma round_even_of_int [simp]: "round_even (of_int n) = n"
  by (simp add: round_even_def)

lemma round_even_mono:
  assumes "r \<le> s" shows "round_even r \<le> round_even s"
proof (cases "\<lfloor>r\<rfloor> = \<lfloor>s\<rfloor>")
  case True
  with assms show ?thesis by (auto simp: round_even_def Let_def)
next
  case False
  with assms have "\<lfloor>r\<rfloor> + 1 \<le> \<lfloor>s\<rfloor>" using floor_mono [OF assms] by linarith
  moreover have "round_even r \<le> \<lfloor>r\<rfloor> + 1" and "\<lfloor>s\<rfloor> \<le> round_even s"
    by (auto simp: round_even_def Let_def)
  ultimately show ?thesis by linarith
qed

lemma round_even_near:
  assumes "\<bar>r - of_int n\<bar> < 1/2" shows "round_even r = n"
proof -
  have "\<bar>of_int (round_even r) - of_int n :: rat\<bar> < 1"
    using round_even_error [of r] assms by linarith
  then have "\<bar>of_int (round_even r - n) :: rat\<bar> < 1" by simp
  then show ?thesis by linarith
qed

lemma round_even_minus: "round_even (- r) = - round_even r"
proof -
  have *: "\<lfloor>- r\<rfloor> = (if of_int \<lfloor>r\<rfloor> = r then - \<lfloor>r\<rfloor> else - \<lfloor>r\<rfloor> - 1)"
    using floor_correct [of r] by (auto intro!: floor_unique simp: order.strict_iff_order)
  show ?thesis unfolding round_even_def Let_def * by (auto simp: algebra_simps)
qed

section \<open>Rounding to binary64\<close>

lemma fl_rat_0 [simp]: "fl_rat 0 = 0"
  by (simp add: fl_rat_def)

lemma ulp_exp_minus [simp]: "ulp_exp (- r) = ulp_exp r"
  by (simp add: ulp_exp_def)

lemma fl_rat_minus [simp]: "fl_rat (- r) = - fl_rat r"
  by (simp add: fl_rat_def round_even_minus)

lemma fl_rat_error_ulp: "\<bar>fl_rat r - r\<bar> \<le> pow2 (ulp_exp r) / 2"
proof (cases "r = 0")
  case False
  let ?u = "pow2 (ulp_exp r)"
  have "fl_rat r - r = (of_int (round_even (r / ?u)) - r / ?u) * ?u"
    using False by (simp add: fl_rat_def field_simps)
  then have "\<bar>fl_rat r - r\<bar> = \<bar>of_int (round_even (r / ?u)) - r / ?u\<bar> * ?u"
    by (simp add: abs_mult)
  also have "\<dots> \<le> 1/2 * ?u" by (intro mult_right_mono round_even_error) simp
  finally show ?thesis by simp
qed simp

lemma ulp_bound: "r \<noteq> 0 \<Longrightarrow> pow2 (ulp_exp r) \<le> \<bar>r\<bar> * pow2 (- 52) + pow2 (- 1074)"
proof -
  assume "r \<noteq> 0"
  then have "pow2 (ilog2 \<bar>r\<bar> - 52) \<le> \<bar>r\<bar> * pow2 (- 52)"
    using ilog2_bounds [of "\<bar>r\<bar>"] by (simp add: pow2_add [of _ "- 52", simplified])
  moreover have "0 \<le> \<bar>r\<bar> * pow2 (- 52)" by simp
  ultimately show ?thesis
    using pow2_nonneg [of "-1074"] by (auto simp: ulp_exp_def max_def simp del: pow2_nonneg)
qed

lemma fl_rat_error: "\<bar>fl_rat r - r\<bar> \<le> \<bar>r\<bar> * pow2 (- 53) + pow2 (- 1075)"
proof (cases "r = 0")
  case True
  then show ?thesis by simp
next
  case False
  have "pow2 (- 53) = pow2 (- 52) / 2" and "pow2 (- 1075) = pow2 (- 1074) / 2"
    using pow2_add [of "- 53" 1] pow2_add [of "- 1075" 1] by (simp_all add: pow2_def [of 1])
  then have e: "\<bar>r\<bar> * pow2 (- 53) + pow2 (- 1075) = (\<bar>r\<bar> * pow2 (- 52) + pow2 (- 1074)) / 2"
    by (simp add: field_simps)
  have "\<bar>fl_rat r - r\<bar> \<le> pow2 (ulp_exp r) / 2" by (rule fl_rat_error_ulp)
  also have "\<dots> \<le> (\<bar>r\<bar> * pow2 (- 52) + pow2 (- 1074)) / 2"
    using ulp_bound [OF False] by (rule divide_right_mono) simp
  finally show ?thesis unfolding e .
qed

lemma pow2_multiple:
  assumes "u \<le> e" shows "pow2 e = of_int (2 ^ nat (e - u)) * pow2 u"
  using assms pow2_add [of "e - u" u] by (simp add: pow2_of_nat)

lemma fl_rat_multiple: "r = of_int k * pow2 (ulp_exp r) \<Longrightarrow> fl_rat r = r"
  unfolding fl_rat_def by (metis mult_zero_left nonzero_mult_div_cancel_right pow2_neq_0 round_even_of_int)

lemma fl_rat_exact:
  assumes r: "r = of_int m * pow2 e" and m: "\<bar>m\<bar> < 2 ^ 53" and e: "- 1074 \<le> e"
  shows "fl_rat r = r"
proof (cases "r = 0")
  case False
  have "\<bar>r\<bar> = of_int \<bar>m\<bar> * pow2 e" using r by (simp add: abs_mult)
  also have "\<dots> < of_int (2 ^ 53) * pow2 e"
    using m by (intro mult_strict_right_mono) (simp_all only: of_int_less_iff pow2_pos)
  also have "\<dots> = pow2 (53 + e)" using pow2_multiple [of e "53 + e"] by simp
  finally have "\<bar>r\<bar> < pow2 (53 + e)" .
  moreover have "pow2 (ilog2 \<bar>r\<bar>) \<le> \<bar>r\<bar>" using False by (intro ilog2_bounds) simp
  ultimately have "ilog2 \<bar>r\<bar> < 53 + e" by (metis le_less_trans pow2_less_iff)
  with e have "ulp_exp r \<le> e" by (simp add: ulp_exp_def)
  then have "pow2 e = of_int (2 ^ nat (e - ulp_exp r)) * pow2 (ulp_exp r)" by (rule pow2_multiple)
  with r have "r = of_int (m * 2 ^ nat (e - ulp_exp r)) * pow2 (ulp_exp r)" by simp
  then show ?thesis by (rule fl_rat_multiple)
qed simp

lemma fl_rat_of_int: "\<bar>n\<bar> < 2 ^ 53 \<Longrightarrow> fl_rat (of_int n) = of_int n"
  by (rule fl_rat_exact [of _ n 0]) (simp_all add: pow2_def)

lemma fl_rat_le_pow2:
  assumes "0 < r" and "r \<le> pow2 k" and "ulp_exp r \<le> k"
  shows "fl_rat r \<le> pow2 k"
proof -
  let ?u = "ulp_exp r"
  have "pow2 k / pow2 ?u = of_int (2 ^ nat (k - ?u))"
    using pow2_multiple [OF assms(3)] by simp
  moreover have "r / pow2 ?u \<le> pow2 k / pow2 ?u"
    using assms(2) by (rule divide_right_mono) simp
  ultimately have "round_even (r / pow2 ?u) \<le> 2 ^ nat (k - ?u)"
    by (metis round_even_mono round_even_of_int)
  then have "(of_int (round_even (r / pow2 ?u)) :: rat) \<le> of_int (2 ^ nat (k - ?u))"
    by (simp only: of_int_le_iff)
  then have "of_int (round_even (r / pow2 ?u)) * pow2 ?u \<le> of_int (2 ^ nat (k - ?u)) * pow2 ?u"
    by (rule mult_right_mono) simp
  with assms show ?thesis by (simp add: fl_rat_def pow2_multiple [OF assms(3)])
qed

lemma fl_rat_ge_pow2:
  assumes "pow2 k \<le> r" and "ulp_exp r \<le> k"
  shows "pow2 k \<le> fl_rat r"
proof -
  let ?u = "ulp_exp r"
  have r: "r \<noteq> 0" using assms(1) pow2_pos [of k] by (auto simp del: pow2_pos)
  have "pow2 k / pow2 ?u = of_int (2 ^ nat (k - ?u))"
    using pow2_multiple [OF assms(2)] by simp
  moreover have "pow2 k / pow2 ?u \<le> r / pow2 ?u"
    using assms(1) by (rule divide_right_mono) simp
  ultimately have "2 ^ nat (k - ?u) \<le> round_even (r / pow2 ?u)"
    by (metis round_even_mono round_even_of_int)
  then have "(of_int (2 ^ nat (k - ?u)) :: rat) \<le> of_int (round_even (r / pow2 ?u))"
    by (simp only: of_int_le_iff)
  then have "of_int (2 ^ nat (k - ?u)) * pow2 ?u \<le> of_int (round_even (r / pow2 ?u)) * pow2 ?u"
    by (rule mult_right_mono) simp
  with r show ?thesis by (simp add: fl_rat_def pow2_multiple [OF assms(2)])
qed

lemma fl_rat_mono_pos:
  assumes "0 < r" and "r \<le> s" shows "fl_rat r \<le> fl_rat s"
proof (cases "ulp_exp r = ulp_exp s")
  case True
  have "r / pow2 (ulp_exp s) \<le> s / pow2 (ulp_exp s)"
    using assms(2) by (rule divide_right_mono) simp
  then have "of_int (round_even (r / pow2 (ulp_exp s))) * pow2 (ulp_exp s)
    \<le> of_int (round_even (s / pow2 (ulp_exp s))) * pow2 (ulp_exp s)"
    by (intro mult_right_mono) (simp_all add: round_even_mono)
  with assms True show ?thesis by (simp add: fl_rat_def)
next
  case False
  let ?k = "ilog2 s"
  from False have less: "ulp_exp r < ulp_exp s"
    using ulp_exp_mono [OF assms] by simp
  then have k: "ilog2 r + 1 \<le> ?k" and u: "ulp_exp s = ?k - 52"
    using assms by (auto simp: ulp_exp_def)
  have "r < pow2 (ilog2 r + 1)" using assms by (simp add: ilog2_bounds)
  also have "\<dots> \<le> pow2 ?k" using k by (rule pow2_mono)
  finally have "fl_rat r \<le> pow2 ?k" using less u assms by (intro fl_rat_le_pow2) auto
  also have "\<dots> \<le> fl_rat s" using u assms by (intro fl_rat_ge_pow2) (auto simp: ilog2_bounds)
  finally show ?thesis .
qed

lemma fl_rat_nonneg: "0 \<le> r \<Longrightarrow> 0 \<le> fl_rat r"
proof (cases "r = 0")
  case False
  assume "0 \<le> r"
  then have "round_even 0 \<le> round_even (r / pow2 (ulp_exp r))" by (intro round_even_mono) simp
  then show ?thesis using round_even_of_int [of 0] by (simp add: fl_rat_def)
qed simp

lemma fl_rat_mono:
  assumes "r \<le> s" shows "fl_rat r \<le> fl_rat s"
proof -
  consider "0 < r" | "r \<le> 0" "0 \<le> s" | "s < 0" using assms by linarith
  then show ?thesis
  proof cases
    case 1
    with assms show ?thesis by (simp add: fl_rat_mono_pos)
  next
    case 2
    then show ?thesis using fl_rat_nonneg [of s] fl_rat_nonneg [of "- r"] by simp
  next
    case 3
    with assms show ?thesis using fl_rat_mono_pos [of "- s" "- r"] by simp
  qed
qed

section \<open>Time spans\<close>

lemma trunc_frac: "0 \<le> r \<Longrightarrow> 0 \<le> r - of_int (trunc r) \<and> r - of_int (trunc r) < 1"
  using floor_correct [of r] by (auto simp: trunc_def)

lemma frac_float_bounds:
  assumes "0 \<le> d" and "d < 1"
  shows "0 \<le> fl_rat (d * 1000000)" and "fl_rat (d * 1000000) \<le> 1000000"
proof -
  show "0 \<le> fl_rat (d * 1000000)" using assms by (intro fl_rat_nonneg) simp
  have "fl_rat (d * 1000000) \<le> fl_rat (of_int 1000000)" using assms by (intro fl_rat_mono) simp
  also have "\<dots> = 1000000" by (subst fl_rat_of_int) simp_all
  finally show "fl_rat (d * 1000000) \<le> 1000000" .
qed

lemma td_micros_mono:
  assumes "0 \<le> r" and "r \<le> s" shows "td_micros r \<le> td_micros s"
proof -
  let ?d = "\<lambda>r. r - of_int (trunc r)"
  have s: "0 \<le> s" using assms by simp
  have "of_int (trunc r * 1000000) + fl_rat (?d r * 1000000)
    \<le> of_int (trunc s * 1000000) + fl_rat (?d s * 1000000)"
  proof (cases "trunc r = trunc s")
    case True
    then show ?thesis using assms by (simp add: fl_rat_mono)
  next
    case False
    then have "trunc r + 1 \<le> trunc s"
      using floor_mono [OF assms(2)] assms s by (auto simp: trunc_def)
    then have "trunc r * 1000000 + 1000000 \<le> trunc s * 1000000" by simp
    then have "(of_int (trunc r * 1000000 + 1000000) :: rat) \<le> of_int (trunc s * 1000000)"
      by (simp only: of_int_le_iff)
    then have "(of_int (trunc r * 1000000) :: rat) + 1000000 \<le> of_int (trunc s * 1000000)"
      by (simp only: of_int_add of_int_numeral)
    moreover have "fl_rat (?d r * 1000000) \<le> 1000000" and "0 \<le> fl_rat (?d s * 1000000)"
      using trunc_frac [OF assms(1)] trunc_frac [OF s] frac_float_bounds by blast+
    ultimately show ?thesis by linarith
  qed
  then show ?thesis unfolding td_micros_def by (rule round_even_mono)
qed

lemma td_micros_nonneg: "0 \<le> r \<Longrightarrow> 0 \<le> td_micros r"
  using td_micros_mono [of 0 r] round_even_of_int [of 0] by (simp add: td_micros_def trunc_def)

text \<open>A span of at most \<open>2 ^ 51\<close> microseconds (71 years) round-trips through float seconds.\<close>

lemma td_micros_total_seconds:
  assumes "0 \<le> us" and "us \<le> 2 ^ 51"
  shows "td_micros (fl_rat (of_int us / 1000000)) = us"
proof -
  define x where "x = (of_int us / 1000000 :: rat)"
  define f where "f = fl_rat x"
  define d where "d = f - of_int (trunc f)"
  have "of_int us \<le> (of_int (2 ^ 51) :: rat)" using assms(2) by (simp only: of_int_le_iff)
  then have x: "0 \<le> x" "x \<le> 2 ^ 51 / 1000000" using assms(1) by (simp_all add: x_def)
  have f: "0 \<le> f" using x by (simp add: f_def fl_rat_nonneg)
  have d: "0 \<le> d" "d < 1" using trunc_frac [OF f] by (simp_all add: d_def)
  have p: "pow2 (- 53) = 1 / 9007199254740992" by (simp add: pow2_def)
  have t: "pow2 (- 1075) \<le> pow2 (- 53)" by (rule pow2_mono) simp
  have "\<bar>f - x\<bar> \<le> x * pow2 (- 53) + pow2 (- 1075)"
    using fl_rat_error [of x] x by (simp add: f_def)
  also have "\<dots> \<le> 2 ^ 51 / 1000000 * pow2 (- 53) + pow2 (- 1075)"
    using x by (intro add_right_mono mult_right_mono) simp_all
  also have "\<dots> < 3 / 10000000" using t unfolding p by simp
  finally have e1: "\<bar>f - x\<bar> < 3 / 10000000" .
  have "\<bar>fl_rat (d * 1000000) - d * 1000000\<bar> \<le> d * 1000000 * pow2 (- 53) + pow2 (- 1075)"
    using fl_rat_error [of "d * 1000000"] d by simp
  also have "\<dots> \<le> 1 * 1000000 * pow2 (- 53) + pow2 (- 1075)"
    using d by (intro add_right_mono mult_right_mono) simp_all
  also have "\<dots> < 1 / 10" using t unfolding p by linarith
  finally have e2: "\<bar>fl_rat (d * 1000000) - d * 1000000\<bar> < 1 / 10" .
  have "of_int (trunc f * 1000000) = f * 1000000 - d * 1000000" by (simp add: d_def algebra_simps)
  moreover have "of_int us = x * 1000000" by (simp add: x_def)
  ultimately have "\<bar>of_int (trunc f * 1000000) + fl_rat (d * 1000000) - of_int us\<bar> < 1/2"
    using e1 e2 by linarith
  then have "round_even (of_int (trunc f * 1000000) + fl_rat (d * 1000000)) = us"
    by (rule round_even_near)
  then show ?thesis by (simp add: td_micros_def f_def d_def x_def)
qed

end
