(* ===== verification/Config.thy ===== *)
theory Config
  imports Float64
begin

text \<open>
  The configuration value objects of \<^verbatim>\<open>config.py\<close>: \<^verbatim>\<open>RetryPolicy\<close>, \<^verbatim>\<open>NotifyMode\<close>,
  \<^verbatim>\<open>WakeupPolicy\<close> and \<^verbatim>\<open>PactixConfig\<close> with their defaults.  Time spans are microseconds.
\<close>

record RetryPolicy =
  rp_max_attempts :: int
  rp_initial_interval :: int
  rp_max_interval :: int
  rp_multiplier :: pyfloat
  rp_jitter_factor :: pyfloat

definition default_RetryPolicy :: RetryPolicy where
  "default_RetryPolicy = \<lparr>
     rp_max_attempts = 10,
     rp_initial_interval = 1000000,
     rp_max_interval = 60000000,
     rp_multiplier = Fin 2,
     rp_jitter_factor = Fin (1/4)\<rparr>"

datatype NotifyMode = TRIGGER | COALESCED | OFF

fun NotifyMode_as_str :: "NotifyMode \<Rightarrow> string" where
  "NotifyMode_as_str TRIGGER = ''trigger''"
| "NotifyMode_as_str COALESCED = ''coalesced''"
| "NotifyMode_as_str OFF = ''off''"

definition NotifyMode_from_str :: "string \<Rightarrow> error + NotifyMode" where
  "NotifyMode_from_str v =
     (if v = ''trigger'' then Inr TRIGGER
      else if v = ''coalesced'' then Inr COALESCED
      else if v = ''off'' then Inr OFF
      else Inl (ValidationError (''unknown notify mode '' @ quoted v)))"

interpretation notify_mode: str_enum NotifyMode_as_str NotifyMode_from_str
proof (standard, goal_cases)
  case (1 x)
  then show ?case by (cases x) (simp_all add: NotifyMode_from_str_def)
next
  case (2 s x)
  then show ?case by (auto simp: NotifyMode_from_str_def split: if_splits)
qed

record WakeupPolicy =
  wp_enabled :: bool
  wp_notify_mode :: NotifyMode
  wp_channel :: string
  wp_coalesce_interval :: int
  wp_fallback_initial_interval :: int
  wp_fallback_max_interval :: int
  wp_fallback_multiplier :: pyfloat

definition default_WakeupPolicy :: WakeupPolicy where
  "default_WakeupPolicy = \<lparr>
     wp_enabled = False,
     wp_notify_mode = COALESCED,
     wp_channel = ''outbox_wake'',
     wp_coalesce_interval = 50000,
     wp_fallback_initial_interval = 1000000,
     wp_fallback_max_interval = 60000000,
     wp_fallback_multiplier = Fin 2\<rparr>"

record PactixConfig =
  outbox_batch_size :: int
  inbox_batch_size :: int
  outbox_poll_interval :: int
  inbox_poll_interval :: int
  lease_duration :: int
  retry_policy :: RetryPolicy
  wakeup :: WakeupPolicy

definition default_PactixConfig :: PactixConfig where
  "default_PactixConfig = \<lparr>
     outbox_batch_size = 100,
     inbox_batch_size = 100,
     outbox_poll_interval = 250000,
     inbox_poll_interval = 250000,
     lease_duration = 30000000,
     retry_policy = default_RetryPolicy,
     wakeup = default_WakeupPolicy\<rparr>"

end
