(* ===== verification/OutboxModel.thy ===== *)
theory OutboxModel
  imports Message Config
begin

text \<open>
  \<^verbatim>\<open>outbox/model.py\<close>: the lifecycle states of an outbox row and the in-memory record with its
  transitions.  \<open>new_id\<close> and \<open>now\<close> are what \<^verbatim>\<open>uuid.uuid4()\<close> and \<^verbatim>\<open>_utcnow()\<close> return.
\<close>

datatype OutboxStatus = PENDING | PROCESSING | PUBLISHED | FAILED

fun OutboxStatus_as_str :: "OutboxStatus \<Rightarrow> string" where
  "OutboxStatus_as_str PENDING = ''pending''"
| "OutboxStatus_as_str PROCESSING = ''processing''"
| "OutboxStatus_as_str PUBLISHED = ''published''"
| "OutboxStatus_as_str FAILED = ''failed''"

definition OutboxStatus_from_str :: "string \<Rightarrow> error + OutboxStatus" where
  "OutboxStatus_from_str v =
     (if v = ''pending'' then Inr PENDING
      else if v = ''processing'' then Inr PROCESSING
      else if v = ''published'' then Inr PUBLISHED
      else if v = ''failed'' then Inr FAILED
      else Inl (PersistenceError (''unknown outbox status '' @ quoted v)))"

interpretation outbox_status: str_enum OutboxStatus_as_str OutboxStatus_from_str
proof (standard, goal_cases)
  case (1 x)
  then show ?case by (cases x) (simp_all add: OutboxStatus_from_str_def)
next
  case (2 s x)
  then show ?case by (auto simp: OutboxStatus_from_str_def split: if_splits)
qed

text \<open>The fields the outbox and inbox records have in common, then those of the outbox.\<close>

record message_record =
  rec_id :: uuid
  rec_message_id :: string
  rec_event_type :: string
  rec_message_key :: "string option"
  rec_ordering_key :: "string option"
  rec_correlation_id :: "string option"
  rec_payload :: json
  rec_headers :: pydict
  rec_attempts :: int
  rec_max_attempts :: int
  rec_available_at :: datetime
  rec_lease_until :: "datetime option"
  rec_last_error :: "string option"
  rec_updated_at :: datetime

record OutboxMessageRecord = message_record +
  ob_status :: OutboxStatus
  ob_created_at :: datetime
  ob_published_at :: "datetime option"

definition OutboxMessageRecord_pending ::
  "uuid \<Rightarrow> datetime \<Rightarrow> MessageMetadata \<Rightarrow> json \<Rightarrow> RetryPolicy \<Rightarrow> error + OutboxMessageRecord" where
  "OutboxMessageRecord_pending new_id now metadata payload policy =
     res_bind (MessageEnvelope_new metadata payload) (\<lambda>envelope. Inr \<lparr>
       rec_id = new_id,
       rec_message_id = md_message_id (env_metadata envelope),
       rec_event_type = md_event_type (env_metadata envelope),
       rec_message_key = md_message_key (env_metadata envelope),
       rec_ordering_key = md_ordering_key (env_metadata envelope),
       rec_correlation_id = md_correlation_id (env_metadata envelope),
       rec_payload = env_payload envelope,
       rec_headers = md_headers (env_metadata envelope),
       rec_attempts = 0,
       rec_max_attempts = rp_max_attempts policy,
       rec_available_at = now,
       rec_lease_until = None,
       rec_last_error = None,
       rec_updated_at = now,
       ob_status = PENDING,
       ob_created_at = now,
       ob_published_at = None\<rparr>)"

definition OutboxMessageRecord_mark_processing ::
  "datetime \<Rightarrow> datetime \<Rightarrow> OutboxMessageRecord \<Rightarrow> OutboxMessageRecord" where
  "OutboxMessageRecord_mark_processing now lease_until r =
     r\<lparr>ob_status := PROCESSING, rec_lease_until := Some lease_until, rec_updated_at := now\<rparr>"

definition OutboxMessageRecord_mark_retry ::
  "datetime \<Rightarrow> string \<Rightarrow> datetime \<Rightarrow> OutboxMessageRecord \<Rightarrow> OutboxMessageRecord" where
  "OutboxMessageRecord_mark_retry now err available_at r =
     r\<lparr>ob_status := PENDING, rec_attempts := rec_attempts r + 1, rec_available_at := available_at,
       rec_lease_until := None, rec_last_error := Some err, rec_updated_at := now\<rparr>"

definition OutboxMessageRecord_mark_failed ::
  "datetime \<Rightarrow> string \<Rightarrow> OutboxMessageRecord \<Rightarrow> OutboxMessageRecord" where
  "OutboxMessageRecord_mark_failed now err r =
     r\<lparr>ob_status := FAILED, rec_attempts := rec_attempts r + 1, rec_lease_until := None,
       rec_last_error := Some err, rec_updated_at := now\<rparr>"

definition OutboxMessageRecord_mark_published ::
  "datetime \<Rightarrow> datetime \<Rightarrow> OutboxMessageRecord \<Rightarrow> OutboxMessageRecord" where
  "OutboxMessageRecord_mark_published now published_at r =
     r\<lparr>ob_status := PUBLISHED, rec_lease_until := None, ob_published_at := Some published_at,
       rec_updated_at := now\<rparr>"

lemma outbox_pending_Inr_iff:
  "OutboxMessageRecord_pending i now m p policy = Inr r \<longleftrightarrow>
     valid_metadata m \<and> r = \<lparr>
       rec_id = i, rec_message_id = md_message_id m, rec_event_type = md_event_type m,
       rec_message_key = md_message_key m, rec_ordering_key = md_ordering_key m,
       rec_correlation_id = md_correlation_id m, rec_payload = p, rec_headers = md_headers m,
       rec_attempts = 0, rec_max_attempts = rp_max_attempts policy, rec_available_at = now,
       rec_lease_until = None, rec_last_error = None, rec_updated_at = now,
       ob_status = PENDING, ob_created_at = now, ob_published_at = None\<rparr>"
  by (auto simp: OutboxMessageRecord_pending_def MessageEnvelope_new_Inr_iff)

text \<open>A record whose metadata the envelope's validation accepts.\<close>

definition valid_record :: "OutboxMessageRecord \<Rightarrow> bool" where
  "valid_record record \<longleftrightarrow> \<not> blank (rec_message_id record) \<and> \<not> blank (rec_event_type record) \<and>
     pred_option (\<lambda>k. \<not> blank k) (rec_ordering_key record)"

end
