(* ===== verification/Dialect.thy ===== *)
theory Dialect
  imports Prelude
begin

text \<open>
  \<^verbatim>\<open>_dialect.py\<close> and \<^verbatim>\<open>_executor.py\<close>: the executor the caller supplies, dialect detection
  and timezone normalisation.  The executor stands for code outside the repository (a
  SQLAlchemy connection or session, its driver, the database server), so it is a record of
  parameters.  What the library relies on is stated as named hypotheses:
  \<open>postgres_driver\<close> and \<open>mysql_driver\<close> say how the two databases behave, and \<open>postgres_session\<close> and
  \<open>mysql_session\<close> say in addition that no value sent to them is refused.
\<close>

datatype executor_class = AsyncSession | AsyncConnection | OtherClass string

text \<open>
  \<^item> \<open>ex_bind_ts\<close>, \<open>ex_fetch_ts\<close>: how the driver writes a datetime to a timestamp column
    (microseconds) and reads it back;
  \<^item> \<open>ex_fetch_headers\<close>, \<open>ex_fetch_payload\<close>: what a JSON column gives back;
  \<^item> \<open>ex_collate\<close>: the collation key under which the server compares text;
  \<^item> \<open>ex_fits\<close>, \<open>ex_text_ok\<close>, \<open>ex_int_ok\<close>, \<open>ex_json_ok\<close>: whether an indexed text column, a plain
    text column, an \<^verbatim>\<open>INTEGER\<close> column and a JSON column can hold a value;
  \<^item> \<open>ex_clip\<close>, \<open>ex_clip_text\<close>, \<open>ex_clip_int\<close>: what \<^verbatim>\<open>INSERT IGNORE\<close> stores of one that they cannot
    (a JSON column refuses it all the same);
  \<^item> \<open>ex_locked\<close>: the rows other transactions hold locks on;
  \<^item> \<open>ex_rank\<close>: the order in which \<^verbatim>\<open>UPDATE ... RETURNING\<close> delivers rows;
  \<^item> \<open>ex_local_offset\<close>: the host's local UTC offset at a wall-clock time.
\<close>

record executor =
  ex_class :: executor_class
  ex_dialect :: string
  ex_bind_ts :: "datetime \<Rightarrow> int"
  ex_fetch_ts :: "int \<Rightarrow> datetime"
  ex_fetch_headers :: "pydict \<Rightarrow> pydict"
  ex_fetch_payload :: "json \<Rightarrow> json"
  ex_collate :: "string \<Rightarrow> string"
  ex_fits :: "string \<Rightarrow> bool"
  ex_text_ok :: "string \<Rightarrow> bool"
  ex_int_ok :: "int \<Rightarrow> bool"
  ex_json_ok :: "json \<Rightarrow> bool"
  ex_clip :: "string \<Rightarrow> string"
  ex_clip_text :: "string \<Rightarrow> string"
  ex_clip_int :: "int \<Rightarrow> int"
  ex_locked :: "uuid \<Rightarrow> bool"
  ex_rank :: "uuid \<Rightarrow> nat"
  ex_local_offset :: "int \<Rightarrow> int"

definition POSTGRESQL :: string where "POSTGRESQL = ''postgresql''"

definition MYSQL :: string where "MYSQL = ''mysql''"

lemma POSTGRESQL_neq_MYSQL [simp]: "POSTGRESQL \<noteq> MYSQL" "MYSQL \<noteq> POSTGRESQL"
  by (simp_all add: POSTGRESQL_def MYSQL_def)

definition dialect_name :: "executor \<Rightarrow> error + string" where
  "dialect_name ex =
     (case ex_class ex of
        AsyncSession \<Rightarrow> Inr (ex_dialect ex)
      | AsyncConnection \<Rightarrow> Inr (ex_dialect ex)
      | OtherClass name \<Rightarrow>
          Inl (TypeError (''cannot resolve dialect for executor of type '' @ quoted name)))"

text \<open>\<^verbatim>\<open>value.astimezone(UTC).replace(tzinfo=None)\<close>; \<^verbatim>\<open>astimezone\<close> reads a naive value as local time.\<close>

fun naive_utc :: "(int \<Rightarrow> int) \<Rightarrow> datetime \<Rightarrow> datetime" where
  "naive_utc local_offset (Aware w off) = Naive (w - off)"
| "naive_utc local_offset (Naive w) = Naive (w - local_offset w)"

fun aware_utc :: "datetime \<Rightarrow> datetime" where
  "aware_utc (Naive w) = Aware w 0"
| "aware_utc (Aware w off) = Aware w off"

definition aware_utc_opt :: "datetime option \<Rightarrow> datetime option" where
  "aware_utc_opt v = (case v of None \<Rightarrow> None | Some t \<Rightarrow> Some (aware_utc t))"

section \<open>Documented behaviour of the two databases\<close>

text \<open>
  PostgreSQL with asyncpg: \<^verbatim>\<open>TIMESTAMPTZ\<close> stores the instant of an aware datetime and returns
  it as aware UTC; text comparison is exact.  MySQL with asyncmy: \<^verbatim>\<open>DATETIME(6)\<close> stores a naive datetime as
  it reads and returns it naive; a value that fits a column is stored as it is.  JSON objects that can be stored come
  back with the same members.
\<close>

definition headers_json :: "pydict \<Rightarrow> json" where
  "headers_json d = JObj (map (\<lambda>(k, v). (k, JStr v)) d)"

definition json_kept :: "executor \<Rightarrow> bool" where
  "json_kept ex \<longleftrightarrow>
     (\<forall>p. ex_json_ok ex p \<longrightarrow> ex_fetch_payload ex p = p) \<and>
     (\<forall>d. ex_json_ok ex (headers_json d) \<longrightarrow> wf_dict d \<longrightarrow>
        wf_dict (ex_fetch_headers ex d) \<and> map_of (ex_fetch_headers ex d) = map_of d)"

definition postgres_driver :: "executor \<Rightarrow> bool" where
  "postgres_driver ex \<longleftrightarrow>
     (ex_class ex = AsyncSession \<or> ex_class ex = AsyncConnection) \<and> ex_dialect ex = POSTGRESQL \<and>
     (\<forall>w off. ex_bind_ts ex (Aware w off) = w - off) \<and> (\<forall>i. ex_fetch_ts ex i = Aware i 0) \<and>
     json_kept ex \<and> inj (ex_collate ex)"

definition mysql_driver :: "executor \<Rightarrow> bool" where
  "mysql_driver ex \<longleftrightarrow>
     (ex_class ex = AsyncSession \<or> ex_class ex = AsyncConnection) \<and> ex_dialect ex = MYSQL \<and>
     (\<forall>w. ex_bind_ts ex (Naive w) = w) \<and> (\<forall>i. ex_fetch_ts ex i = Naive i) \<and>
     json_kept ex \<and> (\<forall>s. ex_fits ex s \<longrightarrow> ex_clip ex s = s) \<and>
     (\<forall>s. ex_text_ok ex s \<longrightarrow> ex_clip_text ex s = s) \<and> (\<forall>i. ex_int_ok ex i \<longrightarrow> ex_clip_int ex i = i)"

definition db_driver :: "executor \<Rightarrow> bool" where
  "db_driver ex \<longleftrightarrow> postgres_driver ex \<or> mysql_driver ex"

text \<open>
  What a server can refuse depends on its version and configuration: a NUL character, NaN in a document,
  an oversized text, an attempt count beyond 32 bits.  \<open>stores_all\<close> assumes that none of these occurs, and for
  PostgreSQL also that every indexed text fits, as is so for texts below a third of a page.  The
  theorems about operations that must not be refused assume it through \<open>db_session\<close>; what happens without it is the
  subject of the theorems over \<open>db_driver\<close>.
\<close>

definition stores_all :: "executor \<Rightarrow> bool" where
  "stores_all ex \<longleftrightarrow> (\<forall>s. ex_text_ok ex s) \<and> (\<forall>i. ex_int_ok ex i) \<and> (\<forall>p. ex_json_ok ex p)"

definition postgres_session :: "executor \<Rightarrow> bool" where
  "postgres_session ex \<longleftrightarrow> postgres_driver ex \<and> stores_all ex \<and> (\<forall>s. ex_fits ex s)"

definition mysql_session :: "executor \<Rightarrow> bool" where
  "mysql_session ex \<longleftrightarrow> mysql_driver ex \<and> stores_all ex"

definition db_session :: "executor \<Rightarrow> bool" where
  "db_session ex \<longleftrightarrow> postgres_session ex \<or> mysql_session ex"

definition json_faithful :: "executor \<Rightarrow> bool" where
  "json_faithful ex \<longleftrightarrow>
     (\<forall>p. ex_fetch_payload ex p = p) \<and>
     (\<forall>d. wf_dict d \<longrightarrow> wf_dict (ex_fetch_headers ex d) \<and> map_of (ex_fetch_headers ex d) = map_of d)"

lemmas driver_defs = postgres_driver_def mysql_driver_def

lemma postgresD:
  assumes "postgres_driver ex"
  shows "ex_dialect ex = POSTGRESQL" "ex_bind_ts ex (Aware w off) = w - off" "ex_fetch_ts ex i = Aware i 0"
    "inj (ex_collate ex)"
  using assms by (simp_all add: postgres_driver_def)

lemma mysqlD:
  assumes "mysql_driver ex"
  shows "ex_dialect ex = MYSQL" "ex_bind_ts ex (Naive w) = w" "ex_fetch_ts ex i = Naive i"
    "ex_fits ex s \<Longrightarrow> ex_clip ex s = s" "ex_text_ok ex s \<Longrightarrow> ex_clip_text ex s = s" "ex_int_ok ex n \<Longrightarrow> ex_clip_int ex n = n"
  using assms by (simp_all add: mysql_driver_def)

lemma driver_json: "db_driver ex \<Longrightarrow> json_kept ex"
  by (auto simp: db_driver_def driver_defs)

lemma driver_dialect: "db_driver ex \<Longrightarrow> ex_dialect ex = MYSQL \<Longrightarrow> mysql_driver ex"
  "db_driver ex \<Longrightarrow> ex_dialect ex \<noteq> MYSQL \<Longrightarrow> postgres_driver ex"
  by (auto simp: db_driver_def driver_defs)

lemma session_driver [simp]: "db_session ex \<Longrightarrow> db_driver ex"
  "postgres_session ex \<Longrightarrow> postgres_driver ex" "mysql_session ex \<Longrightarrow> mysql_driver ex"
  by (auto simp: db_session_def db_driver_def postgres_session_def mysql_session_def)

lemma session_stores [simp]:
  assumes "db_session ex"
  shows "ex_text_ok ex s" "ex_int_ok ex n" "ex_json_ok ex p"
  using assms by (auto simp: db_session_def postgres_session_def mysql_session_def stores_all_def)

text \<open>What a statement's datetime parameter becomes after the dialect branch.\<close>

definition db_datetime :: "executor \<Rightarrow> datetime \<Rightarrow> datetime" where
  "db_datetime ex t = (if ex_dialect ex = MYSQL then naive_utc (ex_local_offset ex) t else t)"

definition db_time :: "executor \<Rightarrow> datetime \<Rightarrow> int" where
  "db_time ex t = ex_bind_ts ex (db_datetime ex t)"

lemma dialect_name_session [simp]: "db_driver ex \<Longrightarrow> dialect_name ex = Inr (ex_dialect ex)"
  by (auto simp: dialect_name_def db_driver_def driver_defs)

lemma dialect_name_Inr: "dialect_name ex = Inr d \<Longrightarrow> d = ex_dialect ex"
  by (auto simp: dialect_name_def split: executor_class.splits)

lemma postgres_db_session [simp]: "postgres_session ex \<Longrightarrow> db_session ex"
  and mysql_db_session [simp]: "mysql_session ex \<Longrightarrow> db_session ex"
  by (simp_all add: db_session_def)

lemma postgres_db_driver [simp]: "postgres_driver ex \<Longrightarrow> db_driver ex"
  and mysql_db_driver [simp]: "mysql_driver ex \<Longrightarrow> db_driver ex"
  by (simp_all add: db_driver_def)

lemma db_time_aware [simp]: "db_driver ex \<Longrightarrow> is_aware t \<Longrightarrow> db_time ex t = instant t"
  by (cases t) (auto simp: db_driver_def driver_defs db_time_def db_datetime_def)

lemma fetch_ts_utc [simp]: "db_driver ex \<Longrightarrow> aware_utc (ex_fetch_ts ex i) = utc i"
  by (auto simp: db_driver_def driver_defs)

lemma db_session_json [simp]: "db_session ex \<Longrightarrow> json_faithful ex"
proof -
  assume ex: "db_session ex"
  have "json_kept ex" using session_driver(1) [OF ex] by (auto simp: db_driver_def driver_defs)
  then show ?thesis using session_stores(3) [OF ex] by (simp add: json_kept_def json_faithful_def)
qed

lemma aware_utc_opt_fetch [simp]:
  "db_driver ex \<Longrightarrow> aware_utc_opt (map_option (ex_fetch_ts ex) v) = map_option utc v"
  by (cases v) (simp_all add: aware_utc_opt_def)

lemma fetch_payload [simp]: "db_session ex \<Longrightarrow> ex_fetch_payload ex p = p"
  using db_session_json [of ex] by (simp add: json_faithful_def)

lemma db_time_branch:
  "ex_bind_ts ex (if ex_dialect ex = MYSQL then naive_utc (ex_local_offset ex) v else v) = db_time ex v"
  by (simp add: db_time_def db_datetime_def)

text \<open>A timestamp written through the dialect branch and read back through
  \<^verbatim>\<open>aware_utc\<close> denotes the same instant, on PostgreSQL and on MySQL, whatever the UTC offset
  of the value written.\<close>

lemma timestamp_round_trip:
  assumes "db_driver ex" and "is_aware t"
  shows "aware_utc (ex_fetch_ts ex (ex_bind_ts ex (db_datetime ex t))) = utc (instant t)"
  using assms db_time_aware [OF assms] by (simp add: db_time_def)

section \<open>Concrete sessions for evaluation\<close>

definition example_postgres :: executor where
  "example_postgres = \<lparr>
     ex_class = AsyncConnection, ex_dialect = POSTGRESQL,
     ex_bind_ts = instant, ex_fetch_ts = utc,
     ex_fetch_headers = (\<lambda>d. d), ex_fetch_payload = (\<lambda>p. p),
     ex_collate = (\<lambda>s. s), ex_fits = (\<lambda>_. True), ex_text_ok = (\<lambda>_. True), ex_int_ok = (\<lambda>_. True),
     ex_json_ok = (\<lambda>_. True), ex_clip = (\<lambda>s. s), ex_clip_text = (\<lambda>s. s), ex_clip_int = (\<lambda>n. n),
     ex_locked = (\<lambda>_. False), ex_rank = (\<lambda>i. i), ex_local_offset = (\<lambda>_. 0)\<rparr>"

definition example_mysql :: executor where
  "example_mysql = example_postgres\<lparr>
     ex_dialect := MYSQL, ex_fetch_ts := Naive, ex_collate := lower,
     ex_fits := (\<lambda>s. length s \<le> 255), ex_clip := take 255\<rparr>"

lemma example_session_simps [simp]:
  "ex_dialect example_postgres = POSTGRESQL" "ex_dialect example_mysql = MYSQL"
  "ex_locked example_postgres i = False" "ex_locked example_mysql i = False"
  "ex_fits example_postgres s = True" "ex_fits example_mysql s = (length s \<le> 255)"
  "ex_collate example_postgres s = s" "ex_collate example_mysql s = lower s"
  "ex_fetch_headers example_postgres d = d" "ex_fetch_headers example_mysql d = d"
  by (simp_all add: example_mysql_def example_postgres_def)

lemma example_postgres_session [simp]: "postgres_session example_postgres"
  by (simp add: example_postgres_def postgres_session_def driver_defs json_kept_def stores_all_def)

lemma example_mysql_session [simp]: "mysql_session example_mysql"
  by (simp add: example_mysql_def example_postgres_def mysql_session_def driver_defs json_kept_def stores_all_def)

text \<open>
  A PostgreSQL server that refuses what PostgreSQL refuses: a NUL character, NaN and infinities in a document, integers
  beyond 32 bits.
\<close>

fun json_storable :: "json \<Rightarrow> bool" where
  "json_storable (JFloat x) = (x \<noteq> NaN \<and> x \<noteq> PInf \<and> x \<noteq> NInf)"
| "json_storable (JStr s) = (CHR 0x00 \<notin> set s)"
| "json_storable (JList ps) = list_all json_storable ps"
| "json_storable (JObj kvs) = list_all (\<lambda>(k, p). CHR 0x00 \<notin> set k \<and> json_storable p) kvs"
| "json_storable _ = True"

definition strict_postgres :: executor where
  "strict_postgres = example_postgres\<lparr>
     ex_fits := (\<lambda>s. CHR 0x00 \<notin> set s \<and> length s \<le> 1000), ex_text_ok := (\<lambda>s. CHR 0x00 \<notin> set s),
     ex_int_ok := (\<lambda>n. - (2 ^ 31) \<le> n \<and> n < 2 ^ 31), ex_json_ok := json_storable\<rparr>"

lemma strict_postgres_driver [simp]: "postgres_driver strict_postgres"
  by (simp add: strict_postgres_def example_postgres_def postgres_driver_def json_kept_def)

lemma timestamp_round_trip_witness:
  "aware_utc (ex_fetch_ts example_mysql (ex_bind_ts example_mysql
     (db_datetime example_mysql (Aware 7200000000 3600000000)))) = utc 3600000000"
  using timestamp_round_trip [of example_mysql "Aware 7200000000 3600000000"] by simp

end
