(* ===== verification/Sql.thy ===== *)
theory Sql
  imports Dialect
begin

text \<open>
  The two tables of \<^verbatim>\<open>db/tables.py\<close> as lists of rows in storage order, and the meaning of the
  statements the stores send: \<^verbatim>\<open>SELECT ... WHERE ... ORDER BY ... LIMIT ... FOR UPDATE SKIP
  LOCKED\<close>, \<^verbatim>\<open>UPDATE ... WHERE\<close>, \<^verbatim>\<open>UPDATE ... RETURNING\<close> and \<^verbatim>\<open>INSERT\<close> under unique constraints.
  Timestamp columns hold microseconds.  The order among equal sort keys is the storage
  order, which is arbitrary in every theorem; the order of \<^verbatim>\<open>RETURNING\<close> is the executor's.
\<close>

section \<open>Rows\<close>

text \<open>The columns the two tables share, then the columns of each.\<close>

record message_row =
  col_id :: uuid
  col_message_id :: string
  col_event_type :: string
  col_message_key :: "string option"
  col_ordering_key :: "string option"
  col_correlation_id :: "string option"
  col_payload :: json
  col_headers :: pydict
  col_status :: string
  col_attempts :: int
  col_max_attempts :: int
  col_available_at :: int
  col_lease_until :: "int option"
  col_last_error :: "string option"
  col_updated_at :: int

record outbox_row = message_row +
  col_created_at :: int
  col_published_at :: "int option"

record inbox_row = message_row +
  col_source :: string
  col_received_at :: int
  col_processed_at :: "int option"

type_synonym outbox_table = "outbox_row list"
type_synonym inbox_table = "inbox_row list"

section \<open>Comparison with NULL\<close>

definition text_eq :: "executor \<Rightarrow> string \<Rightarrow> string \<Rightarrow> bool" where
  "text_eq ex a b = (ex_collate ex a = ex_collate ex b)"

fun null_text_eq :: "executor \<Rightarrow> string option \<Rightarrow> string option \<Rightarrow> bool" where
  "null_text_eq ex (Some a) (Some b) = text_eq ex a b"
| "null_text_eq ex _ _ = False"

fun null_less :: "int option \<Rightarrow> int \<Rightarrow> bool" where
  "null_less (Some a) b = (a < b)"
| "null_less None b = False"

section \<open>Transactions\<close>

text \<open>
  \<^verbatim>\<open>async with engine.begin()\<close>: the block works on the table as committed so far; when it returns, what
  it made of the table is committed, and when it raises, that is rolled back and the exception goes on.
  The commit itself is taken to succeed.
\<close>

definition in_transaction :: "('t \<Rightarrow> error + ('a \<times> 't)) \<Rightarrow> 't \<Rightarrow> (error + 'a) \<times> 't" where
  "in_transaction body committed =
     (case body committed of
        Inl e \<Rightarrow> (Inl e, committed)
      | Inr (answer, working) \<Rightarrow> (Inr answer, working))"

lemma in_transaction_simps [simp]:
  "body tbl = Inl e \<Longrightarrow> in_transaction body tbl = (Inl e, tbl)"
  "body tbl = Inr (a, tbl') \<Longrightarrow> in_transaction body tbl = (Inr a, tbl')"
  by (simp_all add: in_transaction_def)

lemma in_transaction_Inr: "in_transaction body tbl = (Inr a, tbl') \<longleftrightarrow> body tbl = Inr (a, tbl')"
  by (auto simp: in_transaction_def split: sum.splits)

lemma in_transaction_Inl: "in_transaction body tbl = (Inl e, tbl') \<longleftrightarrow> body tbl = Inl e \<and> tbl' = tbl"
  by (auto simp: in_transaction_def split: sum.splits)

section \<open>Statements\<close>

definition update_where :: "('r \<Rightarrow> bool) \<Rightarrow> ('r \<Rightarrow> 'r) \<Rightarrow> 'r list \<Rightarrow> 'r list" where
  "update_where p f tbl = map (\<lambda>r. if p r then f r else r) tbl"

definition rowcount :: "('r \<Rightarrow> bool) \<Rightarrow> 'r list \<Rightarrow> int" where
  "rowcount p tbl = int (length (filter p tbl))"

definition select_order_by :: "('r \<Rightarrow> bool) \<Rightarrow> ('r \<Rightarrow> int) \<Rightarrow> 'r list \<Rightarrow> 'r list" where
  "select_order_by p key tbl = sort_key key (filter p tbl)"

text \<open>
  \<^verbatim>\<open>FOR UPDATE SKIP LOCKED\<close> passes over rows another transaction has locked before the limit
  counts; both databases reject a negative limit.
\<close>

definition select_skip_locked ::
  "executor \<Rightarrow> ('a message_row_scheme \<Rightarrow> bool) \<Rightarrow> ('a message_row_scheme \<Rightarrow> int) \<Rightarrow> int
   \<Rightarrow> 'a message_row_scheme list \<Rightarrow> error + 'a message_row_scheme list" where
  "select_skip_locked ex p key n tbl =
     (if n < 0 then Inl DatabaseError
      else Inr (take (nat n) (filter (\<lambda>r. \<not> ex_locked ex (col_id r)) (select_order_by p key tbl))))"

definition update_returning ::
  "executor \<Rightarrow> ('a message_row_scheme \<Rightarrow> bool) \<Rightarrow> ('a message_row_scheme \<Rightarrow> 'a message_row_scheme)
   \<Rightarrow> 'a message_row_scheme list \<Rightarrow> 'a message_row_scheme list \<times> 'a message_row_scheme list" where
  "update_returning ex p f tbl =
     (sort_key (\<lambda>r. ex_rank ex (col_id r)) (map f (filter p tbl)), update_where p f tbl)"

text \<open>\<open>conflict new old\<close>: the two rows violate a unique constraint.\<close>

definition insert_unique :: "('r \<Rightarrow> 'r \<Rightarrow> bool) \<Rightarrow> 'r \<Rightarrow> 'r list \<Rightarrow> error + 'r list" where
  "insert_unique conflict r tbl =
     (if list_ex (conflict r) tbl then Inl IntegrityError else Inr (tbl @ [r]))"

section \<open>Facts about the statements\<close>

lemma null_text_eq_None [simp]: "\<not> null_text_eq ex a None"
  by (cases a) simp_all

lemma null_less_iff: "null_less a b \<longleftrightarrow> (\<exists>l. a = Some l \<and> l < b)"
  by (cases a) simp_all

lemma update_where_Nil [simp]: "update_where p f [] = []"
  by (simp add: update_where_def)

lemma update_where_Cons [simp]:
  "update_where p f (r # tbl) = (if p r then f r else r) # update_where p f tbl"
  by (simp add: update_where_def)

lemma update_where_append [simp]:
  "update_where p f (xs @ ys) = update_where p f xs @ update_where p f ys"
  by (simp add: update_where_def)

lemma length_update_where [simp]: "length (update_where p f tbl) = length tbl"
  by (simp add: update_where_def)

lemma set_update_where: "set (update_where p f tbl) = (\<lambda>r. if p r then f r else r) ` set tbl"
  by (simp add: update_where_def)

lemma update_where_cong:
  "(\<And>r. r \<in> set tbl \<Longrightarrow> p r = q r) \<Longrightarrow> (\<And>r. r \<in> set tbl \<Longrightarrow> p r \<Longrightarrow> f r = g r)
   \<Longrightarrow> update_where p f tbl = update_where q g tbl"
  by (simp add: update_where_def)

lemma update_where_none: "(\<And>r. r \<in> set tbl \<Longrightarrow> \<not> p r) \<Longrightarrow> update_where p f tbl = tbl"
  by (induction tbl) auto

lemma map_update_where_keeps:
  "(\<And>r. g (f r) = g r) \<Longrightarrow> map g (update_where p f tbl) = map g tbl"
  by (simp add: update_where_def)

lemma in_update_where_same: "r \<in> set tbl \<Longrightarrow> \<not> p r \<Longrightarrow> r \<in> set (update_where p f tbl)"
  by (force simp: set_update_where)

lemma in_update_where_changed: "r \<in> set tbl \<Longrightarrow> p r \<Longrightarrow> f r \<in> set (update_where p f tbl)"
  by (force simp: set_update_where)

lemma update_where_cases:
  assumes "r' \<in> set (update_where p f tbl)"
  obtains (same) "r' \<in> set tbl" "\<not> p r'" | (changed) r where "r \<in> set tbl" "p r" "r' = f r"
  using assms by (auto simp: set_update_where split: if_splits)

lemma set_select_order_by [simp]: "set (select_order_by p key tbl) = {r \<in> set tbl. p r}"
  by (auto simp: select_order_by_def)

lemma sorted_select_order_by: "sorted (map key (select_order_by p key tbl))"
  by (simp add: select_order_by_def)

lemma distinct_map_select_order_by:
  "distinct (map g tbl) \<Longrightarrow> distinct (map g (select_order_by p key tbl))"
  unfolding select_order_by_def
  by (metis distinct_map_filter mset_eq_imp_distinct_iff mset_map mset_sort)

lemma select_skip_locked_Inr:
  "select_skip_locked ex p key n tbl = Inr rs \<longleftrightarrow>
     0 \<le> n \<and> rs = take (nat n) (filter (\<lambda>r. \<not> ex_locked ex (col_id r)) (select_order_by p key tbl))"
  by (auto simp: select_skip_locked_def)

text \<open>The rows selected satisfy the condition and are free; there are at most \<open>n\<close>.\<close>

lemma select_skip_locked_sound:
  assumes "select_skip_locked ex p key n tbl = Inr rs"
  shows "length rs \<le> nat n" and "\<And>r. r \<in> set rs \<Longrightarrow> r \<in> set tbl \<and> p r \<and> \<not> ex_locked ex (col_id r)"
    and "sorted (map key rs)"
proof -
  let ?xs = "filter (\<lambda>r. \<not> ex_locked ex (col_id r)) (select_order_by p key tbl)"
  have rs: "rs = take (nat n) ?xs" using assms by (simp add: select_skip_locked_Inr)
  then show "length rs \<le> nat n" by simp
  show "\<And>r. r \<in> set rs \<Longrightarrow> r \<in> set tbl \<and> p r \<and> \<not> ex_locked ex (col_id r)"
    using rs by (auto dest!: in_set_takeD)
  have "sorted (map key ?xs)" by (simp add: sorted_filter sorted_select_order_by)
  then show "sorted (map key rs)" by (simp add: rs sorted_wrt_take take_map [symmetric])
qed

text \<open>A free row that satisfies the condition and is left out comes no earlier than any row taken,
  and the batch is then full.\<close>

lemma select_skip_locked_oldest:
  assumes "select_skip_locked ex p key n tbl = Inr rs"
    and "r \<in> set tbl" "p r" "\<not> ex_locked ex (col_id r)" "r \<notin> set rs"
  shows "length rs = nat n" and "\<And>r'. r' \<in> set rs \<Longrightarrow> key r' \<le> key r"
proof -
  let ?xs = "filter (\<lambda>r. \<not> ex_locked ex (col_id r)) (select_order_by p key tbl)"
  have rs: "rs = take (nat n) ?xs" using assms(1) by (simp add: select_skip_locked_Inr)
  have "r \<in> set ?xs" using assms by simp
  moreover have "set ?xs = set rs \<union> set (drop (nat n) ?xs)" unfolding rs by (metis append_take_drop_id set_append)
  ultimately have r: "r \<in> set (drop (nat n) ?xs)" using assms(5) by blast
  then have "nat n < length ?xs" by (metis drop_all empty_iff list.set(1) not_less)
  then show "length rs = nat n" by (simp add: rs)
  have "sorted (map key ?xs)" by (simp add: sorted_filter sorted_select_order_by)
  then have "sorted (map key rs @ map key (drop (nat n) ?xs))"
    unfolding rs by (metis append_take_drop_id map_append)
  then show "\<And>r'. r' \<in> set rs \<Longrightarrow> key r' \<le> key r" using r by (auto simp: sorted_append)
qed

lemma select_skip_locked_distinct:
  assumes "select_skip_locked ex p key n tbl = Inr rs" and "distinct (map g tbl)"
  shows "distinct (map g rs)"
  using assms distinct_map_select_order_by [OF assms(2), of p key]
  by (auto simp: select_skip_locked_Inr simp flip: take_map intro!: distinct_take distinct_map_filter)

lemma update_returning_snd [simp]: "snd (update_returning ex p f tbl) = update_where p f tbl"
  by (simp add: update_returning_def)

lemma mset_update_returning: "mset (fst (update_returning ex p f tbl)) = mset (map f (filter p tbl))"
  by (simp add: update_returning_def)

lemma insert_unique_Inr:
  "insert_unique c r tbl = Inr tbl' \<longleftrightarrow> (\<forall>r' \<in> set tbl. \<not> c r r') \<and> tbl' = tbl @ [r]"
  by (auto simp: insert_unique_def list_ex_iff)

text \<open>Looking a row up by its primary key.\<close>

definition row_of :: "'a message_row_scheme list \<Rightarrow> uuid \<Rightarrow> 'a message_row_scheme option" where
  "row_of tbl i = find (\<lambda>r. col_id r = i) tbl"

definition unique_ids :: "'a message_row_scheme list \<Rightarrow> bool" where
  "unique_ids tbl = distinct (map col_id tbl)"

lemma row_of_Some:
  assumes "unique_ids tbl"
  shows "row_of tbl i = Some r \<longleftrightarrow> r \<in> set tbl \<and> col_id r = i"
  using assms
proof (induction tbl)
  case Nil
  then show ?case by (simp add: row_of_def)
next
  case (Cons a tbl)
  then show ?case by (auto simp: row_of_def unique_ids_def)
qed

lemma row_of_mem: "row_of tbl i = Some r \<Longrightarrow> r \<in> set tbl \<and> col_id r = i"
  by (auto simp: row_of_def find_Some_iff)

lemma row_of_update_where:
  assumes "\<And>r. col_id (f r) = col_id r"
  shows "row_of (update_where p f tbl) i =
    map_option (\<lambda>r. if p r then f r else r) (row_of tbl i)"
  using assms by (induction tbl) (auto simp: row_of_def)

lemma unique_ids_update_where [simp]:
  "(\<And>r. col_id (f r) = col_id r) \<Longrightarrow> unique_ids (update_where p f tbl) = unique_ids tbl"
  by (simp add: unique_ids_def map_update_where_keeps)

lemma unique_ids_inj: "unique_ids tbl \<Longrightarrow> r \<in> set tbl \<Longrightarrow> r' \<in> set tbl \<Longrightarrow> col_id r = col_id r' \<Longrightarrow> r = r'"
  by (auto simp: unique_ids_def distinct_map inj_on_def)

text \<open>Selecting rows and then updating those whose id was selected updates exactly those rows.\<close>

lemma id_in_selected_iff:
  assumes "unique_ids tbl" and "set rs \<subseteq> set tbl" and "r \<in> set tbl"
  shows "col_id r \<in> set (map col_id rs) \<longleftrightarrow> r \<in> set rs"
  using assms by (auto dest: unique_ids_inj)

section \<open>The lifecycle updates of both tables\<close>

text \<open>The SET clauses that the claim, reclaim, retry and fail statements of both tables share.\<close>

definition set_claimed :: "int \<Rightarrow> int \<Rightarrow> 'a message_row_scheme \<Rightarrow> 'a message_row_scheme" where
  "set_claimed lease now r =
     r\<lparr>col_status := ''processing'', col_lease_until := Some lease, col_updated_at := now\<rparr>"

definition set_reclaimed :: "int \<Rightarrow> 'a message_row_scheme \<Rightarrow> 'a message_row_scheme" where
  "set_reclaimed now r = r\<lparr>col_status := ''pending'', col_lease_until := None, col_updated_at := now\<rparr>"

definition set_retry :: "string \<Rightarrow> int \<Rightarrow> int \<Rightarrow> 'a message_row_scheme \<Rightarrow> 'a message_row_scheme" where
  "set_retry err available now r =
     r\<lparr>col_status := ''pending'', col_attempts := col_attempts r + 1, col_available_at := available,
       col_lease_until := None, col_last_error := Some err, col_updated_at := now\<rparr>"

definition set_failed :: "string \<Rightarrow> int \<Rightarrow> 'a message_row_scheme \<Rightarrow> 'a message_row_scheme" where
  "set_failed err now r =
     r\<lparr>col_status := ''failed'', col_attempts := col_attempts r + 1,
       col_lease_until := None, col_last_error := Some err, col_updated_at := now\<rparr>"

lemmas set_defs = set_claimed_def set_reclaimed_def set_retry_def set_failed_def

lemma set_keeps_id [simp]:
  "col_id (set_claimed l n r) = col_id r" "col_id (set_reclaimed n r) = col_id r"
  "col_id (set_retry e a n r) = col_id r" "col_id (set_failed e n r) = col_id r"
  by (simp_all add: set_defs)

text \<open>
  The values of a row that its columns can refuse; and an update of the row \<open>i\<close> by a statement that sets
  \<^verbatim>\<open>last_error\<close> and counts an attempt, which the server refuses if the new row cannot hold them.
\<close>

definition row_stored :: "executor \<Rightarrow> 'a message_row_scheme \<Rightarrow> bool" where
  "row_stored ex r =
     (pred_option (ex_text_ok ex) (col_message_key r) \<and> pred_option (ex_text_ok ex) (col_last_error r) \<and>
      ex_json_ok ex (col_payload r) \<and> ex_json_ok ex (headers_json (col_headers r)) \<and>
      ex_int_ok ex (col_attempts r) \<and> ex_int_ok ex (col_max_attempts r))"

definition attempt_stored :: "executor \<Rightarrow> 'a message_row_scheme \<Rightarrow> bool" where
  "attempt_stored ex r = (pred_option (ex_text_ok ex) (col_last_error r) \<and> ex_int_ok ex (col_attempts r))"

definition update_attempt ::
  "executor \<Rightarrow> uuid \<Rightarrow> ('a message_row_scheme \<Rightarrow> 'a message_row_scheme) \<Rightarrow> 'a message_row_scheme list
   \<Rightarrow> error + 'a message_row_scheme list" where
  "update_attempt ex i f tbl =
     (if list_ex (\<lambda>r. col_id r = i \<and> \<not> attempt_stored ex (f r)) tbl then Inl DataError
      else Inr (update_where (\<lambda>r. col_id r = i) f tbl))"

lemma row_stored_session [simp]: "db_session ex \<Longrightarrow> row_stored ex r"
  by (simp add: row_stored_def pred_option_def)

lemma update_attempt_session [simp]: "db_session ex \<Longrightarrow> update_attempt ex i f tbl = Inr (update_where (\<lambda>r. col_id r = i) f tbl)"
  by (simp add: update_attempt_def attempt_stored_def pred_option_def list_ex_iff)

text \<open>
  The claim statement on PostgreSQL: a common table expression selects and locks the rows,
  the outer \<^verbatim>\<open>UPDATE\<close> joins it by id and returns the updated rows.
\<close>

definition claim_returning ::
  "executor \<Rightarrow> ('a message_row_scheme \<Rightarrow> bool) \<Rightarrow> ('a message_row_scheme \<Rightarrow> int) \<Rightarrow> int \<Rightarrow> int \<Rightarrow> int
   \<Rightarrow> 'a message_row_scheme list \<Rightarrow> error + ('a message_row_scheme list \<times> 'a message_row_scheme list)" where
  "claim_returning ex p key n lease now tbl =
     res_bind (select_skip_locked ex p key n tbl) (\<lambda>claimable.
       Inr (update_returning ex (\<lambda>r. col_id r \<in> set (map col_id claimable)) (set_claimed lease now) tbl))"

lemma mset_filter_mem:
  assumes "distinct tbl" and "distinct rs" and "set rs \<subseteq> set tbl"
  shows "mset (filter (\<lambda>r. r \<in> set rs) tbl) = mset rs"
proof -
  have "set (filter (\<lambda>r. r \<in> set rs) tbl) = set rs" using assms(3) by auto
  then show ?thesis using assms(1,2) set_eq_iff_mset_eq_distinct distinct_filter by blast
qed

lemma unique_ids_distinct: "unique_ids tbl \<Longrightarrow> distinct tbl"
  by (simp add: unique_ids_def distinct_map)

lemma claimed_rows_update:
  assumes "unique_ids tbl" and "set sel \<subseteq> set tbl"
  shows "update_where (\<lambda>r. col_id r \<in> set (map col_id sel)) f tbl = update_where (\<lambda>r. r \<in> set sel) f tbl"
  by (rule update_where_cong) (use id_in_selected_iff [OF assms] in auto)

lemma claim_returning_spec:
  assumes u: "unique_ids tbl"
    and sel: "select_skip_locked ex p key n tbl = Inr sel"
  shows "\<exists>rows. claim_returning ex p key n lease now tbl =
      Inr (rows, update_where (\<lambda>r. r \<in> set sel) (set_claimed lease now) tbl)
    \<and> mset rows = mset (map (set_claimed lease now) sel)"
proof -
  have sub: "set sel \<subseteq> set tbl" using select_skip_locked_sound(2) [OF sel] by blast
  have "filter (\<lambda>r. col_id r \<in> set (map col_id sel)) tbl = filter (\<lambda>r. r \<in> set sel) tbl"
    by (rule filter_cong) (use id_in_selected_iff [OF u sub] in auto)
  moreover have "distinct sel"
    using select_skip_locked_distinct [OF sel u [unfolded unique_ids_def]] by (simp add: distinct_map)
  ultimately have "mset (map (set_claimed lease now) (filter (\<lambda>r. col_id r \<in> set (map col_id sel)) tbl))
      = mset (map (set_claimed lease now) sel)"
    using mset_filter_mem [OF unique_ids_distinct [OF u] _ sub] by simp
  then show ?thesis
    using sel claimed_rows_update [OF u sub]
    by (auto simp: claim_returning_def update_returning_def)
qed

lemma mset_map_claimed_ids:
  assumes "mset rows = mset (map (set_claimed l t) sel)"
  shows "mset (map col_id rows) = mset (map col_id sel)"
proof -
  have "mset (map col_id rows) = image_mset col_id (mset (map (set_claimed l t) sel))"
    using assms by simp
  then show ?thesis by (simp add: multiset.map_comp comp_def)
qed

end
