(* ===== verification/Retry.thy ===== *)
theory Retry
  imports Config
begin

text \<open>
  \<^verbatim>\<open>_retry.py\<close>: the backoff schedule and the retry-or-fail decision.  Python's
  \<^verbatim>\<open>float ** int\<close> calls the C library's \<^verbatim>\<open>pow\<close>, which is the parameter \<open>fpow\<close>; the
  multiplication, the comparison and the time-span conversions are those of \<^verbatim>\<open>Float64\<close>.
  The decision is generic in the store, which the source types as the protocol
  \<^verbatim>\<open>RetryStore\<close>: here the locale \<open>retry_store\<close>, interpreted by the outbox and inbox stores.
\<close>

datatype RetryAction = RETRY_SCHEDULED | FAILED

definition next_retry_at ::
  "(pyfloat \<Rightarrow> int \<Rightarrow> error + pyfloat) \<Rightarrow> RetryPolicy \<Rightarrow> int \<Rightarrow> datetime \<Rightarrow> error + datetime" where
  "next_retry_at fpow policy attempts now =
     (let initial_seconds = total_seconds (rp_initial_interval policy);
          max_seconds = total_seconds (rp_max_interval policy)
      in res_bind
           (case fpow (rp_multiplier policy) attempts of
              Inr p \<Rightarrow> Inr (f_mul initial_seconds p)
            | Inl e \<Rightarrow> if e = OverflowError then Inr PInf else Inl e)
           (\<lambda>scaled_seconds.
              let capped_seconds = f_min scaled_seconds max_seconds
              in res_bind (timedelta_seconds capped_seconds) (\<lambda>us. Inr (dt_add now us))))"

definition handle_retryable_failure ::
  "(pyfloat \<Rightarrow> int \<Rightarrow> error + pyfloat) \<Rightarrow> RetryPolicy
   \<Rightarrow> (uuid \<Rightarrow> string \<Rightarrow> datetime \<Rightarrow> 's \<Rightarrow> error + 's) \<Rightarrow> (uuid \<Rightarrow> string \<Rightarrow> 's \<Rightarrow> error + 's)
   \<Rightarrow> uuid \<Rightarrow> int \<Rightarrow> int \<Rightarrow> string \<Rightarrow> datetime \<Rightarrow> 's \<Rightarrow> error + (RetryAction \<times> 's)" where
  "handle_retryable_failure fpow policy mark_retry mark_failed i attempts max_attempts err now s =
     (if attempts + 1 \<ge> max_attempts
      then res_bind (mark_failed i err s) (\<lambda>s'. Inr (FAILED, s'))
      else res_bind (next_retry_at fpow policy attempts now) (\<lambda>retry_at.
             res_bind (mark_retry i err retry_at s) (\<lambda>s'. Inr (RETRY_SCHEDULED, s'))))"

section \<open>The backoff schedule\<close>

lemma fl_Fin: "\<bar>fl_rat r\<bar> < pow2 1024 \<Longrightarrow> fl r = Fin (fl_rat r)"
  by (auto simp: fl_def abs_less_iff not_le)

lemma fl_nonneg_cases: "0 \<le> r \<Longrightarrow> fl r = PInf \<or> fl r = Fin (fl_rat r)"
  using fl_rat_nonneg [of r] pow2_pos [of 1024] by (auto simp: fl_def simp del: pow2_pos)

lemma total_seconds_Fin:
  assumes "0 \<le> us" and "us \<le> 2 ^ 51"
  shows "total_seconds us = Fin (fl_rat (of_int us / 1000000))"
proof -
  have "(of_int us :: rat) \<le> of_int (2 ^ 51)" using assms(2) by (simp only: of_int_le_iff)
  then have "fl_rat (of_int us / 1000000) \<le> fl_rat (pow2 51)"
    using assms(1) by (intro fl_rat_mono) (simp add: pow2_def)
  also have "\<dots> = pow2 51" by (rule fl_rat_exact [of _ 1 51]) simp_all
  also have "\<dots> < pow2 1024" by (simp add: pow2_less_iff)
  finally show ?thesis
    using assms(1) fl_rat_nonneg [of "of_int us / 1000000"] by (simp add: total_seconds_def fl_Fin)
qed

text \<open>What a wait is capped to: never negative and never above the cap.\<close>

definition wait_ok :: "pyfloat \<Rightarrow> bool" where
  "wait_ok x \<longleftrightarrow> x = PInf \<or> (\<exists>r. x = Fin r \<and> 0 \<le> r)"

lemma f_min_cap:
  "wait_ok x \<Longrightarrow> 0 \<le> m \<Longrightarrow> \<exists>r. f_min x (Fin m) = Fin r \<and> 0 \<le> r \<and> r \<le> m"
  by (auto simp: f_min_def wait_ok_def)

lemma f_mul_wait_ok: "0 \<le> a \<Longrightarrow> 0 \<le> b \<Longrightarrow> wait_ok (f_mul (Fin a) (Fin b))"
  using fl_nonneg_cases [of "a * b"] fl_rat_nonneg [of "a * b"] by (auto simp: wait_ok_def)

lemma capped_delay:
  assumes m: "0 \<le> m" "m \<le> 2 ^ 51" and x: "wait_ok x"
  shows "\<exists>us. timedelta_seconds (f_min x (total_seconds m)) = Inr us \<and> 0 \<le> us \<and> us \<le> m"
proof -
  let ?m = "fl_rat (of_int m / 1000000)"
  have "0 \<le> ?m" using m by (simp add: fl_rat_nonneg)
  then obtain r where r: "f_min x (Fin ?m) = Fin r" "0 \<le> r" "r \<le> ?m"
    using f_min_cap [OF x] by blast
  then have "0 \<le> td_micros r" and "td_micros r \<le> m"
    using td_micros_mono [of r ?m] td_micros_total_seconds [OF m] by (auto simp: td_micros_nonneg)
  with r m show ?thesis
    by (simp add: total_seconds_Fin min_timedelta_def max_timedelta_def)
qed

text \<open>The wait before the cap: infinite when \<^verbatim>\<open>pow\<close> overflows.\<close>

definition scaled_wait :: "(pyfloat \<Rightarrow> int \<Rightarrow> error + pyfloat) \<Rightarrow> RetryPolicy \<Rightarrow> int \<Rightarrow> pyfloat" where
  "scaled_wait fpow policy attempts =
     (case fpow (rp_multiplier policy) attempts of
        Inr p \<Rightarrow> f_mul (total_seconds (rp_initial_interval policy)) p
      | Inl _ \<Rightarrow> PInf)"

text \<open>What \<^verbatim>\<open>pow\<close> answers for a non-negative base: a non-negative float, or an overflow.\<close>

definition pow_nonneg :: "(pyfloat \<Rightarrow> int \<Rightarrow> error + pyfloat) \<Rightarrow> pyfloat \<Rightarrow> bool" where
  "pow_nonneg fpow m \<longleftrightarrow>
     (\<forall>a. fpow m a = Inl OverflowError \<or> (\<exists>r. fpow m a = Inr (Fin r) \<and> 0 \<le> r))"

definition sane_intervals :: "RetryPolicy \<Rightarrow> bool" where
  "sane_intervals p \<longleftrightarrow> 0 \<le> rp_initial_interval p \<and> rp_initial_interval p \<le> 2 ^ 51 \<and>
     0 \<le> rp_max_interval p \<and> rp_max_interval p \<le> 2 ^ 51"

lemma next_retry_at_scaled:
  assumes "pow_nonneg fpow (rp_multiplier policy)"
  shows "next_retry_at fpow policy attempts now =
    res_bind (timedelta_seconds (f_min (scaled_wait fpow policy attempts) (total_seconds (rp_max_interval policy))))
      (\<lambda>us. Inr (dt_add now us))"
  using assms [unfolded pow_nonneg_def, rule_format, of attempts]
  by (auto simp: next_retry_at_def scaled_wait_def Let_def)

lemma scaled_wait_ok:
  assumes "pow_nonneg fpow (rp_multiplier policy)" and "sane_intervals policy"
  shows "wait_ok (scaled_wait fpow policy attempts)"
proof -
  have a: "0 \<le> fl_rat (of_int (rp_initial_interval policy) / 1000000)"
    using assms(2) by (simp add: sane_intervals_def fl_rat_nonneg)
  consider "fpow (rp_multiplier policy) attempts = Inl OverflowError"
    | r where "fpow (rp_multiplier policy) attempts = Inr (Fin r)" "0 \<le> r"
    using assms(1) by (auto simp: pow_nonneg_def)
  then show ?thesis
  proof cases
    case 1
    then show ?thesis by (simp add: scaled_wait_def wait_ok_def)
  next
    case 2
    with a assms(2) show ?thesis
      by (simp add: scaled_wait_def sane_intervals_def total_seconds_Fin f_mul_wait_ok del: f_mul.simps)
  qed
qed

lemma next_retry_at_obtain:
  assumes "pow_nonneg fpow (rp_multiplier policy)" and "sane_intervals policy"
  obtains us where "next_retry_at fpow policy attempts now = Inr (dt_add now us)"
    and "0 \<le> us" and "us \<le> rp_max_interval policy"
  using capped_delay [of "rp_max_interval policy" "scaled_wait fpow policy attempts"]
    scaled_wait_ok [OF assms] assms(2) that
  by (auto simp: next_retry_at_scaled [OF assms(1)] sane_intervals_def)

text \<open>Property C27: with non-negative intervals a retry is never scheduled in the past nor later
  than \<^verbatim>\<open>max_interval\<close> from now, for every attempt count, overflowing powers included, and
  the computation never raises.\<close>

theorem next_retry_at_within_max_interval:
  assumes "pow_nonneg fpow (rp_multiplier policy)" and "sane_intervals policy"
  shows "\<exists>us. next_retry_at fpow policy attempts now = Inr (dt_add now us)
    \<and> 0 \<le> us \<and> us \<le> rp_max_interval policy"
  by (rule next_retry_at_obtain [OF assms]) blast

section \<open>Monotonicity of the schedule\<close>

fun f_le :: "pyfloat \<Rightarrow> pyfloat \<Rightarrow> bool" where
  "f_le (Fin a) (Fin b) = (a \<le> b)"
| "f_le (Fin _) PInf = True"
| "f_le PInf PInf = True"
| "f_le _ _ = False"

definition pow_mono :: "(pyfloat \<Rightarrow> int \<Rightarrow> error + pyfloat) \<Rightarrow> pyfloat \<Rightarrow> bool" where
  "pow_mono fpow m \<longleftrightarrow>
     (\<forall>a b. 0 \<le> a \<longrightarrow> a \<le> b \<longrightarrow>
        fpow m b = Inl OverflowError \<or>
        (\<exists>r s. fpow m a = Inr (Fin r) \<and> fpow m b = Inr (Fin s) \<and> r \<le> s))"

lemma fl_mono: "0 \<le> r \<Longrightarrow> r \<le> s \<Longrightarrow> f_le (fl r) (fl s)"
  using fl_rat_mono [of r s] fl_rat_nonneg [of r] fl_rat_nonneg [of s] pow2_pos [of 1024]
  by (auto simp: fl_def simp del: pow2_pos)

lemma scaled_wait_mono:
  assumes "pow_mono fpow (rp_multiplier policy)" and "pow_nonneg fpow (rp_multiplier policy)"
    and "sane_intervals policy" and "0 \<le> a" and "a \<le> b"
  shows "f_le (scaled_wait fpow policy a) (scaled_wait fpow policy b)"
proof -
  let ?i = "fl_rat (of_int (rp_initial_interval policy) / 1000000)"
  have i: "0 \<le> ?i" using assms(3) by (simp add: sane_intervals_def fl_rat_nonneg)
  have top: "f_le x PInf" if "wait_ok x" for x using that by (auto simp: wait_ok_def)
  consider "fpow (rp_multiplier policy) b = Inl OverflowError"
    | r s where "fpow (rp_multiplier policy) a = Inr (Fin r)"
        "fpow (rp_multiplier policy) b = Inr (Fin s)" "r \<le> s" "0 \<le> r"
    using assms(1,2,4,5) unfolding pow_mono_def pow_nonneg_def
    by (metis Inl_Inr_False pyfloat.inject sum.inject(2))
  then show ?thesis
  proof cases
    case 1
    then show ?thesis using top [OF scaled_wait_ok [OF assms(2,3)]] by (simp add: scaled_wait_def)
  next
    case 2
    then have "f_le (fl (?i * r)) (fl (?i * s))" using i by (intro fl_mono) (simp_all add: mult_left_mono)
    with 2 assms(3) show ?thesis by (simp add: scaled_wait_def sane_intervals_def total_seconds_Fin)
  qed
qed

lemma capped_delay_mono:
  assumes m: "0 \<le> m" "m \<le> 2 ^ 51" and "wait_ok x" and "f_le x y"
    and "timedelta_seconds (f_min x (total_seconds m)) = Inr us"
    and "timedelta_seconds (f_min y (total_seconds m)) = Inr us'"
  shows "us \<le> us'"
proof -
  let ?m = "fl_rat (of_int m / 1000000)"
  have "0 \<le> ?m" using m by (simp add: fl_rat_nonneg)
  then obtain r where r: "f_min x (Fin ?m) = Fin r" "0 \<le> r" using f_min_cap assms(3) by blast
  moreover have "wait_ok y" using assms(3,4) by (cases y) (auto simp: wait_ok_def)
  then obtain s where s: "f_min y (Fin ?m) = Fin s" using f_min_cap \<open>0 \<le> ?m\<close> by blast
  moreover have "r \<le> s"
    using r s assms(4) by (cases x; cases y) (auto simp: f_min_def split: if_splits)
  ultimately have "td_micros r \<le> td_micros s" by (simp add: td_micros_mono)
  with r s assms(5,6) m show ?thesis by (auto simp: total_seconds_Fin split: if_splits)
qed

text \<open>The schedule never shortens: a higher attempt count never gives an earlier
  retry time.\<close>

theorem next_retry_at_monotone:
  assumes "pow_mono fpow (rp_multiplier policy)" and "pow_nonneg fpow (rp_multiplier policy)"
    and "sane_intervals policy" and "0 \<le> a" and "a \<le> b"
    and "next_retry_at fpow policy a now = Inr t" and "next_retry_at fpow policy b now = Inr t'"
  shows "instant t \<le> instant t'"
proof -
  let ?w = "\<lambda>n. f_min (scaled_wait fpow policy n) (total_seconds (rp_max_interval policy))"
  obtain us us' where us: "timedelta_seconds (?w a) = Inr us" "t = dt_add now us"
    "timedelta_seconds (?w b) = Inr us'" "t' = dt_add now us'"
    using assms(6,7) by (auto simp: next_retry_at_scaled [OF assms(2)])
  have "us \<le> us'"
  proof (rule capped_delay_mono)
    show "0 \<le> rp_max_interval policy" and "rp_max_interval policy \<le> 2 ^ 51"
      using assms(3) by (simp_all add: sane_intervals_def)
  qed (fact us scaled_wait_ok [OF assms(2,3)] scaled_wait_mono [OF assms(1-5)])+
  with us show ?thesis by simp
qed

text \<open>The C library's \<^verbatim>\<open>pow\<close> at base 2: exact powers up to the largest binary64 exponent.\<close>

definition pow_base2 :: "(pyfloat \<Rightarrow> int \<Rightarrow> error + pyfloat) \<Rightarrow> bool" where
  "pow_base2 fpow \<longleftrightarrow>
     (\<forall>n. 0 \<le> n \<longrightarrow> fpow (Fin 2) n = (if n < 1024 then Inr (Fin (2 ^ nat n)) else Inl OverflowError))"

lemma total_seconds_whole: "0 \<le> n \<Longrightarrow> n < 2 ^ 30 \<Longrightarrow> total_seconds (n * 1000000) = Fin (of_int n)"
  by (subst total_seconds_Fin) (simp_all add: fl_rat_of_int)

lemma timedelta_seconds_whole:
  assumes "0 \<le> n" and "n < 2 ^ 30" shows "timedelta_seconds (Fin (of_int n)) = Inr (n * 1000000)"
proof -
  have "trunc (of_int n) = n" using assms by (simp add: trunc_def)
  then have "td_micros (of_int n) = n * 1000000"
    using round_even_of_int [of "n * 1000000"] by (simp add: td_micros_def)
  with assms show ?thesis by (simp add: min_timedelta_def max_timedelta_def)
qed

lemma fl_pow2: "0 \<le> n \<Longrightarrow> n < 1024 \<Longrightarrow> fl (2 ^ nat n) = Fin (2 ^ nat n)"
proof -
  assume n: "0 \<le> n" "n < 1024"
  have p: "2 ^ nat n = pow2 n" using n by (simp add: pow2_def)
  have "fl_rat (pow2 n) = pow2 n" using n by (intro fl_rat_exact [of _ 1 n]) simp_all
  with n show ?thesis unfolding p by (simp add: fl_Fin pow2_less_iff)
qed

text \<open>Under the default policy the wait after \<open>n\<close> attempts is exactly
  \<open>min (2 ^ n) 60\<close> seconds, for every \<open>n\<close>; counts whose power overflows saturate at 60.\<close>

theorem default_retry_schedule:
  assumes "pow_base2 fpow" and "0 \<le> n"
  shows "next_retry_at fpow default_RetryPolicy n now = Inr (dt_add now (min (2 ^ nat n) 60 * 1000000))"
proof -
  have s: "total_seconds 1000000 = Fin 1" "total_seconds 60000000 = Fin 60"
    using total_seconds_whole [of 1] total_seconds_whole [of 60] by simp_all
  let ?k = "min (2 ^ nat n) 60 :: int"
  have td: "timedelta_seconds (Fin (of_int ?k)) = Inr (?k * 1000000)"
    by (rule timedelta_seconds_whole) auto
  have "(60 :: rat) < 2 ^ nat n \<longleftrightarrow> of_int 60 < (of_int (2 ^ nat n) :: rat)" by simp
  also have "\<dots> \<longleftrightarrow> (60 :: int) < 2 ^ nat n" by (simp only: of_int_less_iff)
  finally have cap: "f_min (Fin (2 ^ nat n)) (Fin 60) = Fin (of_int ?k)"
    by (auto simp: f_min_def min_def)
  show ?thesis
  proof (cases "n < 1024")
    case True
    with assms td fl_pow2 [of n] show ?thesis
      by (simp add: next_retry_at_def default_RetryPolicy_def pow_base2_def s cap del: timedelta_seconds.simps)
  next
    case False
    then have "(2 :: int) ^ 6 \<le> 2 ^ nat n" by (intro power_increasing) auto
    then have "?k = 60" by simp
    with False assms td show ?thesis
      by (simp add: next_retry_at_def default_RetryPolicy_def pow_base2_def s f_min_def
          del: timedelta_seconds.simps)
  qed
qed

section \<open>A concrete power function for evaluation\<close>

definition example_pow :: "pyfloat \<Rightarrow> int \<Rightarrow> error + pyfloat" where
  "example_pow x n =
     (if x = Fin 2 \<and> 0 \<le> n then if n < 1024 then Inr (Fin (2 ^ nat n)) else Inl OverflowError
      else Inr (Fin 1))"

lemma example_pow_ok [simp]:
  "pow_nonneg example_pow (rp_multiplier default_RetryPolicy)" "pow_base2 example_pow"
  "sane_intervals default_RetryPolicy"
  by (simp_all add: pow_nonneg_def pow_base2_def example_pow_def sane_intervals_def default_RetryPolicy_def)

lemma example_pow_mono [simp]: "pow_mono example_pow (rp_multiplier default_RetryPolicy)"
  by (simp add: pow_mono_def example_pow_def default_RetryPolicy_def power_increasing nat_mono)

theorem next_retry_at_within_max_interval_witness:
  "\<exists>us. next_retry_at example_pow default_RetryPolicy 5000 (utc 7) = Inr (dt_add (utc 7) us)
    \<and> 0 \<le> us \<and> us \<le> 60000000"
  using next_retry_at_within_max_interval [of example_pow default_RetryPolicy 5000 "utc 7"]
  by (simp add: default_RetryPolicy_def [THEN arg_cong, of rp_max_interval])

theorem default_retry_schedule_witness:
  "next_retry_at example_pow default_RetryPolicy 3 (utc 7) = Inr (utc 8000007)
   \<and> next_retry_at example_pow default_RetryPolicy 6 (utc 7) = Inr (utc 60000007)"
  using default_retry_schedule [of example_pow 3 "utc 7"] default_retry_schedule [of example_pow 6 "utc 7"]
  by simp

theorem next_retry_at_monotone_witness:
  "\<exists>t t'. next_retry_at example_pow default_RetryPolicy 2 (utc 7) = Inr t
     \<and> next_retry_at example_pow default_RetryPolicy 2000 (utc 7) = Inr t' \<and> instant t \<le> instant t'"
proof -
  obtain t t' where w: "next_retry_at example_pow default_RetryPolicy 2 (utc 7) = Inr t"
    "next_retry_at example_pow default_RetryPolicy 2000 (utc 7) = Inr t'"
    by (meson next_retry_at_obtain example_pow_ok)
  have "instant t \<le> instant t'"
    using next_retry_at_monotone [OF example_pow_mono example_pow_ok(1,3) _ _ w] by simp
  with w show ?thesis by blast
qed

end
