(* ===== verification/LeaseQueue.thy ===== *)
theory LeaseQueue
  imports Sql Retry
begin

text \<open>
  The contracts the runners rely on, stated once for both tables.  \<open>lease_queue\<close> is what a
  store's \<^verbatim>\<open>claim_ready\<close> and \<^verbatim>\<open>reclaim_expired\<close> promise, \<open>fifo_queue\<close> adds the ordering gate,
  \<open>retry_store\<close> is the source's protocol \<^verbatim>\<open>RetryStore\<close>.  The lemmas on exclusive ownership,
  recovery, ordering and bounded retries are proved inside the locales; the outbox store
  and the two modes of the inbox store interpret them.
\<close>

section \<open>Vocabulary\<close>

definition lease_expired :: "int \<Rightarrow> 'a message_row_scheme \<Rightarrow> bool" where
  "lease_expired now r = (col_status r = ''processing'' \<and> null_less (col_lease_until r) now)"

definition unfinished :: "'a message_row_scheme \<Rightarrow> bool" where
  "unfinished r = (col_status r = ''pending'' \<or> col_status r = ''processing'')"

definition same_key :: "executor \<Rightarrow> 'a message_row_scheme \<Rightarrow> 'a message_row_scheme \<Rightarrow> bool" where
  "same_key ex r r' =
     (text_eq ex (col_event_type r) (col_event_type r') \<and>
      null_text_eq ex (col_ordering_key r) (col_ordering_key r'))"

text \<open>A row after the reclaim of expired leases.\<close>

definition reclaimed_at :: "int \<Rightarrow> 'a message_row_scheme \<Rightarrow> 'a message_row_scheme" where
  "reclaimed_at now r = (if lease_expired now r then set_reclaimed now r else r)"

text \<open>A row another worker owns: processing under a lease that has not run out.\<close>

definition leased_at :: "int \<Rightarrow> 'a message_row_scheme \<Rightarrow> bool" where
  "leased_at now r = (col_status r = ''processing'' \<and> (\<exists>l. col_lease_until r = Some l \<and> now \<le> l))"

lemma set_keeps_key [simp]:
  "col_event_type (set_claimed l n r) = col_event_type r" "col_ordering_key (set_claimed l n r) = col_ordering_key r"
  "col_event_type (set_reclaimed n r) = col_event_type r" "col_ordering_key (set_reclaimed n r) = col_ordering_key r"
  "col_event_type (set_retry e a n r) = col_event_type r" "col_ordering_key (set_retry e a n r) = col_ordering_key r"
  "col_event_type (set_failed e n r) = col_event_type r" "col_ordering_key (set_failed e n r) = col_ordering_key r"
  by (simp_all add: set_defs)

lemma set_status [simp]:
  "col_status (set_claimed l n r) = ''processing''" "col_status (set_reclaimed n r) = ''pending''"
  "col_status (set_retry e a n r) = ''pending''" "col_status (set_failed e n r) = ''failed''"
  by (simp_all add: set_defs)

lemma set_attempts [simp]:
  "col_attempts (set_claimed l n r) = col_attempts r" "col_attempts (set_reclaimed n r) = col_attempts r"
  "col_attempts (set_retry e a n r) = col_attempts r + 1" "col_attempts (set_failed e n r) = col_attempts r + 1"
  by (simp_all add: set_defs)

lemma set_max_attempts [simp]:
  "col_max_attempts (set_claimed l n r) = col_max_attempts r"
  "col_max_attempts (set_reclaimed n r) = col_max_attempts r"
  "col_max_attempts (set_retry e a n r) = col_max_attempts r"
  "col_max_attempts (set_failed e n r) = col_max_attempts r"
  by (simp_all add: set_defs)

lemma set_lease [simp]:
  "col_lease_until (set_claimed l n r) = Some l" "col_lease_until (set_reclaimed n r) = None"
  "col_lease_until (set_retry e a n r) = None" "col_lease_until (set_failed e n r) = None"
  by (simp_all add: set_defs)

lemma leased_not_expired: "leased_at now r \<Longrightarrow> \<not> lease_expired now r"
  by (auto simp: leased_at_def lease_expired_def)

lemma reclaimed_at_unfinished [simp]: "unfinished (reclaimed_at t r) = unfinished r"
  by (simp add: reclaimed_at_def unfinished_def lease_expired_def set_reclaimed_def)

lemma reclaimed_at_finished: "\<not> unfinished r \<Longrightarrow> reclaimed_at t r = r"
  by (simp add: reclaimed_at_def unfinished_def lease_expired_def)

lemma expired_unfinished: "lease_expired now r \<Longrightarrow> unfinished r"
  by (simp add: lease_expired_def unfinished_def)

text \<open>A statement that changes the row \<open>i\<close> and no other.\<close>

definition one_row_update :: "uuid \<Rightarrow> 'a message_row_scheme list \<Rightarrow> 'a message_row_scheme list \<Rightarrow> bool" where
  "one_row_update i tbl tbl' \<longleftrightarrow>
     (\<exists>f. tbl' = update_where (\<lambda>r. col_id r = i) f tbl \<and> (\<forall>x. col_id (f x) = col_id x))"

lemma one_row_updateI: "(\<And>x. col_id (f x) = col_id x) \<Longrightarrow> one_row_update i tbl (update_where (\<lambda>r. col_id r = i) f tbl)"
  by (auto simp: one_row_update_def)

lemma one_row_updateD:
  assumes "one_row_update j tbl tbl'"
  shows "unique_ids tbl' = unique_ids tbl" and "i \<noteq> j \<Longrightarrow> row_of tbl' i = row_of tbl i"
    and "row_of tbl i \<noteq> None \<Longrightarrow> row_of tbl' i \<noteq> None"
proof -
  obtain f where f: "tbl' = update_where (\<lambda>r. col_id r = j) f tbl" "\<And>x. col_id (f x) = col_id x"
    using assms by (auto simp: one_row_update_def)
  show "unique_ids tbl' = unique_ids tbl" by (simp add: f)
  show "row_of tbl' i = row_of tbl i" if "i \<noteq> j"
    using that by (cases "row_of tbl i") (auto simp: f row_of_update_where dest: row_of_mem)
  show "row_of tbl i \<noteq> None \<Longrightarrow> row_of tbl' i \<noteq> None" by (simp add: f row_of_update_where)
qed

text \<open>
  What a pass that claims \<open>ms\<close> until \<open>l\<close> does to the rows by id: the claimed rows are leased, a row
  that is neither pending nor expired is passed over, and no row leaves the table.
\<close>

definition pass_ok ::
  "('m \<Rightarrow> uuid) \<Rightarrow> int \<Rightarrow> 'a message_row_scheme list \<Rightarrow> 'm list \<Rightarrow> int \<Rightarrow> 'a message_row_scheme list \<Rightarrow> bool" where
  "pass_ok rid t tbl ms l tbl' \<longleftrightarrow>
     unique_ids tbl' \<and> distinct (map rid ms) \<and>
     (\<forall>m \<in> set ms. \<exists>r. row_of tbl' (rid m) = Some r \<and> col_status r = ''processing'' \<and> col_lease_until r = Some l) \<and>
     (\<forall>i r. row_of tbl i = Some r \<longrightarrow> col_status r \<noteq> ''pending'' \<longrightarrow> \<not> lease_expired t r \<longrightarrow>
        row_of tbl' i = Some r \<and> i \<notin> rid ` set ms) \<and>
     (\<forall>i. row_of tbl i \<noteq> None \<longrightarrow> row_of tbl' i \<noteq> None)"

lemma pass_okD:
  assumes "pass_ok rid t tbl ms l tbl'"
  shows "unique_ids tbl'" and "distinct (map rid ms)"
    and "m \<in> set ms \<Longrightarrow> \<exists>r. row_of tbl' (rid m) = Some r \<and> col_status r = ''processing'' \<and> col_lease_until r = Some l"
    and "row_of tbl i = Some r \<Longrightarrow> col_status r \<noteq> ''pending'' \<Longrightarrow> \<not> lease_expired t r \<Longrightarrow>
      row_of tbl' i = Some r \<and> i \<notin> rid ` set ms"
    and "row_of tbl i \<noteq> None \<Longrightarrow> row_of tbl' i \<noteq> None"
  using assms unfolding pass_ok_def by blast+

section \<open>Claiming and reclaiming\<close>

locale lease_queue =
  fixes rid :: "'m \<Rightarrow> uuid"
    and key :: "'a message_row_scheme \<Rightarrow> int"
    and batch :: "PactixConfig \<Rightarrow> int"
    and ready :: "executor \<Rightarrow> int \<Rightarrow> 'a message_row_scheme list \<Rightarrow> 'a message_row_scheme \<Rightarrow> bool"
    and claim :: "PactixConfig \<Rightarrow> executor \<Rightarrow> datetime \<Rightarrow> 'a message_row_scheme list
      \<Rightarrow> error + ('m list \<times> 'a message_row_scheme list)"
    and reclaim :: "executor \<Rightarrow> datetime \<Rightarrow> 'a message_row_scheme list
      \<Rightarrow> error + (int \<times> 'a message_row_scheme list)"
  assumes claim_total: "db_session ex \<Longrightarrow> unique_ids tbl \<Longrightarrow> 0 \<le> batch cfg
      \<Longrightarrow> \<exists>ms tbl'. claim cfg ex (utc t) tbl = Inr (ms, tbl')"
    and claim_selects: "db_session ex \<Longrightarrow> unique_ids tbl \<Longrightarrow> claim cfg ex (utc t) tbl = Inr (ms, tbl')
      \<Longrightarrow> \<exists>sel. select_skip_locked ex (ready ex t tbl) key (batch cfg) tbl = Inr sel
        \<and> tbl' = update_where (\<lambda>r. r \<in> set sel) (set_claimed (t + lease_duration cfg) t) tbl
        \<and> mset (map rid ms) = mset (map col_id sel)"
    and ready_due: "ready ex t tbl r \<Longrightarrow> col_status r = ''pending'' \<and> col_available_at r \<le> t"
    and reclaim_eq: "db_session ex \<Longrightarrow> reclaim ex (utc t) tbl =
      Inr (rowcount (lease_expired t) tbl, update_where (lease_expired t) (set_reclaimed t) tbl)"
begin

text \<open>What one claim does, row by row.\<close>

lemma claim_effect:
  assumes "db_session ex" and u: "unique_ids tbl" and c: "claim cfg ex (utc t) tbl = Inr (ms, tbl')"
  shows "length ms \<le> nat (batch cfg)" and "distinct (map rid ms)" and "unique_ids tbl'"
    and "map col_id tbl' = map col_id tbl"
    and "\<And>r. r \<in> set tbl \<Longrightarrow> col_id r \<in> rid ` set ms \<Longrightarrow>
      ready ex t tbl r \<and> \<not> ex_locked ex (col_id r) \<and> set_claimed (t + lease_duration cfg) t r \<in> set tbl'"
    and "\<And>r. r \<in> set tbl \<Longrightarrow> col_id r \<notin> rid ` set ms \<Longrightarrow> r \<in> set tbl'"
    and "rid ` set ms \<subseteq> col_id ` set tbl"
proof -
  obtain sel where sel: "select_skip_locked ex (ready ex t tbl) key (batch cfg) tbl = Inr sel"
    and tbl': "tbl' = update_where (\<lambda>r. r \<in> set sel) (set_claimed (t + lease_duration cfg) t) tbl"
    and ids: "mset (map rid ms) = mset (map col_id sel)"
    using claim_selects [OF assms] by blast
  note sound = select_skip_locked_sound [OF sel]
  have "set sel \<subseteq> set tbl" using sound(2) by blast
  have id_set: "rid ` set ms = col_id ` set sel"
    using mset_eq_setD [OF ids] by simp
  have mem: "col_id r \<in> rid ` set ms \<longleftrightarrow> r \<in> set sel" if "r \<in> set tbl" for r
    using id_in_selected_iff [OF u \<open>set sel \<subseteq> set tbl\<close> that] by (simp add: id_set)
  show "length ms \<le> nat (batch cfg)" using sound(1) mset_eq_length [OF ids] by simp
  show "distinct (map rid ms)"
    using select_skip_locked_distinct [OF sel u [unfolded unique_ids_def]] mset_eq_imp_distinct_iff [OF ids] by simp
  show "unique_ids tbl'" using u by (simp add: tbl')
  show "map col_id tbl' = map col_id tbl" by (simp add: tbl' map_update_where_keeps)
  show "ready ex t tbl r \<and> \<not> ex_locked ex (col_id r) \<and> set_claimed (t + lease_duration cfg) t r \<in> set tbl'"
    if "r \<in> set tbl" "col_id r \<in> rid ` set ms" for r
    using that mem sound(2) by (auto simp: tbl' intro: in_update_where_changed)
  show "r \<in> set tbl'" if "r \<in> set tbl" "col_id r \<notin> rid ` set ms" for r
    using that mem by (auto simp: tbl' intro: in_update_where_same)
  show "rid ` set ms \<subseteq> col_id ` set tbl" using \<open>set sel \<subseteq> set tbl\<close> by (auto simp: id_set)
qed

lemma claim_other_rows:
  assumes "db_session ex" "unique_ids tbl" "claim cfg ex (utc t) tbl = Inr (ms, tbl')" and i: "i \<notin> rid ` set ms"
  shows "row_of tbl' i = row_of tbl i"
proof -
  note effect = claim_effect [OF assms(1-3)]
  show ?thesis
  proof (cases "row_of tbl i")
    case None
    then have "i \<notin> set (map col_id tbl')" unfolding effect(4) by (auto simp: row_of_def find_None_iff)
    then show ?thesis unfolding None by (auto simp: row_of_def find_None_iff)
  next
    case (Some r)
    then have "r \<in> set tbl'" "col_id r = i" using effect(6) [of r] i row_of_mem [OF Some] by auto
    then show ?thesis using effect(3) Some by (simp add: row_of_Some)
  qed
qed

text \<open>A claim takes only rows that are pending, due and free.\<close>

lemma claimed_was_pending:
  assumes "db_session ex" "unique_ids tbl" "claim cfg ex (utc t) tbl = Inr (ms, tbl')"
    and "r \<in> set tbl" "col_id r \<in> rid ` set ms"
  shows "col_status r = ''pending''" and "col_available_at r \<le> t" and "\<not> ex_locked ex (col_id r)"
  using claim_effect(5) [OF assms] ready_due by blast+

lemma leased_not_claimed:
  assumes "db_session ex" "unique_ids tbl" "claim cfg ex (utc t) tbl = Inr (ms, tbl')"
    and "r \<in> set tbl" "col_status r \<noteq> ''pending''"
  shows "col_id r \<notin> rid ` set ms"
  using claimed_was_pending(1) [OF assms(1-4)] assms(5) by blast

text \<open>Exclusive ownership in two halves: a claim leaves its rows leased, and a pass of any worker
  passes over leased rows.\<close>

lemma claimed_row_leased:
  assumes ex: "db_session ex" and u: "unique_ids tbl" and c: "claim cfg ex (utc t) tbl = Inr (ms, tbl')"
    and i: "i \<in> rid ` set ms" and t': "t' \<le> t + lease_duration cfg"
  shows "\<exists>r. row_of tbl' i = Some r \<and> leased_at t' r"
proof -
  note effect = claim_effect [OF ex u c]
  from subsetD [OF effect(7) i] obtain r where r: "r \<in> set tbl" "col_id r = i" by auto
  then have "set_claimed (t + lease_duration cfg) t r \<in> set tbl'" using effect(5) [of r] i by simp
  then have "row_of tbl' i = Some (set_claimed (t + lease_duration cfg) t r)"
    using effect(3) r(2) by (simp add: row_of_Some)
  with t' show ?thesis by (simp add: leased_at_def)
qed

lemma pass_skips_leased:
  assumes ex: "db_session ex" and u: "unique_ids tbl" and r: "row_of tbl i = Some r" "leased_at t r"
    and "reclaim ex (utc t) tbl = Inr (n, tbl1)" and c: "claim cfg ex (utc t) tbl1 = Inr (ms, tbl2)"
  shows "i \<notin> rid ` set ms"
proof -
  have tbl1: "tbl1 = update_where (lease_expired t) (set_reclaimed t) tbl"
    using assms(5) by (simp add: reclaim_eq [OF ex])
  have "r \<in> set tbl" "col_id r = i" using row_of_mem [OF r(1)] by simp_all
  moreover from this have "r \<in> set tbl1"
    using leased_not_expired [OF r(2)] by (simp add: tbl1 in_update_where_same)
  moreover have "unique_ids tbl1" using u by (simp add: tbl1)
  moreover have "col_status r \<noteq> ''pending''" using r(2) by (simp add: leased_at_def)
  ultimately show ?thesis using leased_not_claimed [OF ex _ c, of r] by simp
qed

text \<open>While the leases of a claim run, a pass of another worker takes none of its rows, whatever
  happened to the other rows in between.\<close>

lemma claim_exclusive:
  assumes ex: "db_session ex" "db_session ex'" and u: "unique_ids tbl"
    and c: "claim cfg ex (utc t) tbl = Inr (ms, tbl1)"
    and kept: "unique_ids tbl2" "\<And>i. i \<in> rid ` set ms \<Longrightarrow> row_of tbl2 i = row_of tbl1 i"
    and t: "t' \<le> t + lease_duration cfg"
    and r: "reclaim ex' (utc t') tbl2 = Inr (n, tbl3)"
    and c': "claim cfg' ex' (utc t') tbl3 = Inr (ms', tbl4)"
  shows "rid ` set ms \<inter> rid ` set ms' = {}"
  using claimed_row_leased [OF ex(1) u c _ t] pass_skips_leased [OF ex(2) kept(1) _ _ r c'] kept(2) by fastforce

text \<open>The batch holds the oldest candidates.\<close>

lemma claim_takes_oldest:
  assumes "db_session ex" "unique_ids tbl" "claim cfg ex (utc t) tbl = Inr (ms, tbl')"
    and r: "r \<in> set tbl" "ready ex t tbl r" "\<not> ex_locked ex (col_id r)" "col_id r \<notin> rid ` set ms"
    and r': "r' \<in> set tbl" "col_id r' \<in> rid ` set ms"
  shows "key r' \<le> key r" and "length ms = nat (batch cfg)"
proof -
  obtain sel where sel: "select_skip_locked ex (ready ex t tbl) key (batch cfg) tbl = Inr sel"
    and ids: "mset (map rid ms) = mset (map col_id sel)"
    using claim_selects [OF assms(1-3)] by blast
  have sub: "set sel \<subseteq> set tbl" using select_skip_locked_sound(2) [OF sel] by blast
  have "rid ` set ms = col_id ` set sel" using mset_eq_setD [OF ids] by simp
  then have "r \<notin> set sel" and "r' \<in> set sel"
    using r r' id_in_selected_iff [OF assms(2) sub] by auto
  with select_skip_locked_oldest [OF sel r(1-3)] mset_eq_length [OF ids]
  show "key r' \<le> key r" and "length ms = nat (batch cfg)" by auto
qed

text \<open>A pass makes progress whenever some row is ready and free.\<close>

lemma claim_progress:
  assumes "db_session ex" "unique_ids tbl" "1 \<le> batch cfg"
    and r: "r \<in> set tbl" "ready ex t tbl r" "\<not> ex_locked ex (col_id r)"
  shows "\<exists>ms tbl'. claim cfg ex (utc t) tbl = Inr (ms, tbl') \<and> ms \<noteq> []"
proof -
  obtain ms tbl' where c: "claim cfg ex (utc t) tbl = Inr (ms, tbl')"
    using claim_total assms(1-3) by fastforce
  obtain sel where sel: "select_skip_locked ex (ready ex t tbl) key (batch cfg) tbl = Inr sel"
    and ids: "mset (map rid ms) = mset (map col_id sel)"
    using claim_selects [OF assms(1,2) c] by blast
  have "sel \<noteq> []"
  proof
    assume "sel = []"
    then show False using select_skip_locked_oldest(1) [OF sel r] assms(3) by simp
  qed
  with mset_eq_length [OF ids] c show ?thesis by fastforce
qed

text \<open>Reclaiming returns exactly the rows whose lease ran out, with their attempts unchanged.\<close>

lemma reclaim_effect:
  assumes "db_session ex" and "reclaim ex (utc t) tbl = Inr (n, tbl')"
  shows "n = int (length (filter (lease_expired t) tbl))"
    and "unique_ids tbl' = unique_ids tbl"
    and "r \<in> set tbl \<Longrightarrow> lease_expired t r \<Longrightarrow> set_reclaimed t r \<in> set tbl'"
    and "r \<in> set tbl \<Longrightarrow> \<not> lease_expired t r \<Longrightarrow> r \<in> set tbl'"
  using assms by (auto simp: reclaim_eq rowcount_def intro: in_update_where_changed in_update_where_same)

text \<open>A pass, reclaiming and then claiming, in terms of the rows by id.\<close>

lemma pass_effect:
  assumes ex: "db_session ex" and u: "unique_ids tbl"
    and r: "reclaim ex (utc t) tbl = Inr (n, tbl1)" and c: "claim cfg ex (utc t) tbl1 = Inr (ms, tbl2)"
  shows "pass_ok rid t tbl ms (t + lease_duration cfg) tbl2"
proof -
  have tbl1: "tbl1 = update_where (lease_expired t) (set_reclaimed t) tbl" using r by (simp add: reclaim_eq [OF ex])
  have u1: "unique_ids tbl1" using u by (simp add: tbl1)
  note effect = claim_effect [OF ex u1 c]
  note u2 = effect(3)
  have "\<exists>r. row_of tbl2 (rid m) = Some r \<and> col_status r = ''processing'' \<and> col_lease_until r = Some (t + lease_duration cfg)"
    if "m \<in> set ms" for m
  proof -
    from subsetD [OF effect(7) imageI [OF that]] obtain q where q: "q \<in> set tbl1" "col_id q = rid m" by auto
    then have "set_claimed (t + lease_duration cfg) t q \<in> set tbl2" using effect(5) [of q] that by simp
    then have "row_of tbl2 (rid m) = Some (set_claimed (t + lease_duration cfg) t q)" using u2 q(2) by (simp add: row_of_Some)
    then show ?thesis by simp
  qed
  moreover have "row_of tbl2 i = Some q \<and> i \<notin> rid ` set ms"
    if q: "row_of tbl i = Some q" "col_status q \<noteq> ''pending''" "\<not> lease_expired t q" for i q
  proof -
    have "q \<in> set tbl1" "col_id q = i" using row_of_mem [OF q(1)] q(3) by (simp_all add: tbl1 in_update_where_same)
    moreover from this have "i \<notin> rid ` set ms" using leased_not_claimed [OF ex u1 c _ q(2)] by simp
    ultimately show ?thesis using effect(6) [of q] u2 by (simp add: row_of_Some)
  qed
  moreover have "row_of tbl2 i \<noteq> None" if "row_of tbl i \<noteq> None" for i
  proof -
    have "map col_id tbl2 = map col_id tbl" using effect(4) by (simp add: tbl1 map_update_where_keeps)
    moreover have "row_of tbl i \<noteq> None \<longleftrightarrow> i \<in> set (map col_id tbl)" for tbl :: "'a message_row_scheme list"
      by (auto simp: row_of_def find_None_iff)
    ultimately show ?thesis using that by (simp only:)
  qed
  ultimately show ?thesis unfolding pass_ok_def using u2 effect(2) by blast
qed

text \<open>The same, exactly: where each row of the table before a pass is after it.\<close>

lemma pass_rows:
  assumes ex: "db_session ex" and u: "unique_ids tbl"
    and r: "reclaim ex (utc t) tbl = Inr (n, tbl1)" and c: "claim cfg ex (utc t) tbl1 = Inr (ms, tbl2)"
  shows "i \<in> rid ` set ms \<Longrightarrow> \<exists>r. row_of tbl i = Some r \<and> unfinished r
      \<and> row_of tbl2 i = Some (set_claimed (t + lease_duration cfg) t (reclaimed_at t r))"
    and "i \<notin> rid ` set ms \<Longrightarrow> row_of tbl2 i = map_option (reclaimed_at t) (row_of tbl i)"
proof -
  have tbl1: "tbl1 = update_where (lease_expired t) (set_reclaimed t) tbl" using r by (simp add: reclaim_eq [OF ex])
  have u1: "unique_ids tbl1" using u by (simp add: tbl1)
  note effect = claim_effect [OF ex u1 c]
  have row1: "row_of tbl1 i = map_option (reclaimed_at t) (row_of tbl i)"
    by (simp add: tbl1 row_of_update_where reclaimed_at_def [abs_def])
  show "row_of tbl2 i = map_option (reclaimed_at t) (row_of tbl i)" if "i \<notin> rid ` set ms"
    using claim_other_rows [OF ex u1 c that] row1 by simp
  show "\<exists>r. row_of tbl i = Some r \<and> unfinished r
      \<and> row_of tbl2 i = Some (set_claimed (t + lease_duration cfg) t (reclaimed_at t r))" if i: "i \<in> rid ` set ms"
  proof -
    from subsetD [OF effect(7) i] obtain q where q: "q \<in> set tbl1" "col_id q = i" by auto
    then have "row_of tbl1 i = Some q" "row_of tbl2 i = Some (set_claimed (t + lease_duration cfg) t q)"
      using effect(3) effect(5) [of q] u1 i by (auto simp: row_of_Some)
    moreover have "col_status q = ''pending''" using claimed_was_pending(1) [OF ex u1 c q(1)] i q(2) by simp
    ultimately show ?thesis
      unfolding row1 using expired_unfinished [of t] by (auto simp: reclaimed_at_def unfinished_def split: if_splits)
  qed
qed

end

section \<open>Ordering\<close>

locale fifo_queue = lease_queue +
  assumes ready_fifo: "ready ex t tbl c \<longleftrightarrow>
      col_status c = ''pending'' \<and> col_available_at c \<le> t \<and>
      (col_ordering_key c = None \<or>
       (\<forall>older \<in> set tbl. same_key ex older c \<and> key older < key c \<longrightarrow> \<not> unfinished older))"
begin

text \<open>When a keyed row is claimed, every older row of its key is finished.\<close>

lemma claimed_is_head:
  assumes "db_session ex" "unique_ids tbl" "claim cfg ex (utc t) tbl = Inr (ms, tbl')"
    and "r \<in> set tbl" "col_id r \<in> rid ` set ms"
    and "older \<in> set tbl" "same_key ex older r" "key older < key r"
  shows "\<not> unfinished older"
proof -
  have "col_ordering_key r \<noteq> None" using assms(7) by (cases "col_ordering_key r") (auto simp: same_key_def)
  then show ?thesis
    using claim_effect(5) [OF assms(1-5)] assms(6-8) unfolding ready_fifo by auto
qed

text \<open>Two rows of one key claimed in the same pass were created at the same time.\<close>

lemma claimed_same_key_tie:
  assumes "db_session ex" "unique_ids tbl" "claim cfg ex (utc t) tbl = Inr (ms, tbl')"
    and "r \<in> set tbl" "col_id r \<in> rid ` set ms" and "r' \<in> set tbl" "col_id r' \<in> rid ` set ms"
    and "same_key ex r r'"
  shows "key r = key r'"
proof -
  have sym: "same_key ex r' r"
    using assms(8) by (cases "col_ordering_key r"; cases "col_ordering_key r'")
      (auto simp: same_key_def text_eq_def)
  have "unfinished r" "unfinished r'"
    using claimed_was_pending(1) [OF assms(1-3)] assms(4-7) by (auto simp: unfinished_def)
  then have "\<not> key r < key r'" "\<not> key r' < key r"
    using claimed_is_head [OF assms(1-3)] assms(4-8) sym by blast+
  then show ?thesis by simp
qed

text \<open>The gate never blocks everything: if every unfinished row is pending, due and free, and
  there is one, the oldest of them is ready.\<close>

lemma oldest_ready:
  assumes "\<And>r. r \<in> set tbl \<Longrightarrow> unfinished r \<Longrightarrow> col_status r = ''pending'' \<and> col_available_at r \<le> t"
    and "r0 \<in> set tbl" "unfinished r0"
  shows "\<exists>r \<in> set tbl. unfinished r \<and> ready ex t tbl r"
proof -
  let ?S = "{r \<in> set tbl. unfinished r}"
  have "finite ?S" "?S \<noteq> {}" using assms(2,3) by auto
  then obtain r where r: "r \<in> ?S" "\<And>r'. r' \<in> ?S \<Longrightarrow> key r \<le> key r'"
    by (metis (no_types, lifting) arg_min_if_finite(1) arg_min_least)
  then have "ready ex t tbl r" using assms(1) unfolding ready_fifo by force
  with r show ?thesis by blast
qed

text \<open>A pass over a table in which no live lease or lock holds unfinished work back claims
  something.\<close>

lemma pass_progress:
  assumes ex: "db_session ex" "\<And>i. \<not> ex_locked ex i" and u: "unique_ids tbl" and b: "1 \<le> batch cfg"
    and due: "\<And>r. r \<in> set tbl \<Longrightarrow> unfinished r \<Longrightarrow>
      (col_status r = ''pending'' \<or> lease_expired t r) \<and> col_available_at r \<le> t"
    and r0: "r0 \<in> set tbl" "unfinished r0"
  shows "\<exists>n tbl1 ms tbl2. reclaim ex (utc t) tbl = Inr (n, tbl1)
    \<and> claim cfg ex (utc t) tbl1 = Inr (ms, tbl2) \<and> ms \<noteq> []"
proof -
  let ?tbl = "update_where (lease_expired t) (set_reclaimed t) tbl"
  let ?r0 = "if lease_expired t r0 then set_reclaimed t r0 else r0"
  have "?r0 \<in> set ?tbl" using r0(1) by (auto simp: set_update_where)
  moreover have "unfinished ?r0" using r0(2) by (simp add: unfinished_def)
  moreover have "col_status r = ''pending'' \<and> col_available_at r \<le> t" if "r \<in> set ?tbl" "unfinished r" for r
    using that(1)
  proof (cases rule: update_where_cases)
    case same
    then show ?thesis using due that(2) by blast
  next
    case (changed r')
    then show ?thesis using due [OF changed(1) expired_unfinished] by (simp add: set_reclaimed_def)
  qed
  ultimately obtain r where "r \<in> set ?tbl" "ready ex t ?tbl r" using oldest_ready by blast
  then have "\<exists>ms tbl2. claim cfg ex (utc t) ?tbl = Inr (ms, tbl2) \<and> ms \<noteq> []"
    using claim_progress [OF ex(1) _ b] ex(2) u by simp
  then show ?thesis using reclaim_eq [OF ex(1)] by blast
qed

end

section \<open>Retrying or failing\<close>

locale retry_store =
  fixes mark_retry :: "executor \<Rightarrow> datetime \<Rightarrow> uuid \<Rightarrow> string \<Rightarrow> datetime
      \<Rightarrow> 'a message_row_scheme list \<Rightarrow> error + 'a message_row_scheme list"
    and mark_failed :: "executor \<Rightarrow> datetime \<Rightarrow> uuid \<Rightarrow> string
      \<Rightarrow> 'a message_row_scheme list \<Rightarrow> error + 'a message_row_scheme list"
  assumes mark_retry_eq: "db_session ex \<Longrightarrow> is_aware now \<Longrightarrow> is_aware av \<Longrightarrow>
      mark_retry ex now i e av tbl =
        Inr (update_where (\<lambda>r. col_id r = i) (set_retry e (instant av) (instant now)) tbl)"
    and mark_failed_eq: "db_session ex \<Longrightarrow> is_aware now \<Longrightarrow>
      mark_failed ex now i e tbl = Inr (update_where (\<lambda>r. col_id r = i) (set_failed e (instant now)) tbl)"
begin

text \<open>At the ceiling the row fails; below it the row is rescheduled within the maximum interval.\<close>

lemma handle_failed:
  assumes "db_session ex" and "is_aware now'" and "max_attempts \<le> attempts + 1"
  shows "handle_retryable_failure fpow policy (mark_retry ex now') (mark_failed ex now') i attempts
        max_attempts e now tbl
      = Inr (RetryAction.FAILED, update_where (\<lambda>r. col_id r = i) (set_failed e (instant now')) tbl)"
  using assms by (simp add: handle_retryable_failure_def mark_failed_eq)

lemma handle_retried:
  assumes "db_session ex" and "is_aware now" "is_aware now'" and "attempts + 1 < max_attempts"
    and pol: "pow_nonneg fpow (rp_multiplier policy)" "sane_intervals policy"
  obtains us where "0 \<le> us" and "us \<le> rp_max_interval policy"
    and "handle_retryable_failure fpow policy (mark_retry ex now') (mark_failed ex now') i attempts
        max_attempts e now tbl
      = Inr (RETRY_SCHEDULED,
          update_where (\<lambda>r. col_id r = i) (set_retry e (instant now + us) (instant now')) tbl)"
proof (rule next_retry_at_obtain [OF pol, of attempts now])
  fix us
  assume "next_retry_at fpow policy attempts now = Inr (dt_add now us)" "0 \<le> us" "us \<le> rp_max_interval policy"
  with assms that show thesis by (simp add: handle_retryable_failure_def mark_retry_eq)
qed

text \<open>Whatever the decision, one row is rescheduled or failed.\<close>

lemma handle_cases:
  assumes "db_session ex" "is_aware now" "is_aware now'"
    and "handle_retryable_failure fpow policy (mark_retry ex now') (mark_failed ex now') i attempts max_attempts e now tbl = Inr (a, tbl')"
  obtains (retried) av where "attempts + 1 < max_attempts" "tbl' = update_where (\<lambda>r. col_id r = i) (set_retry e av (instant now')) tbl"
    | (failed) "max_attempts \<le> attempts + 1" "tbl' = update_where (\<lambda>r. col_id r = i) (set_failed e (instant now')) tbl"
proof (cases "attempts + 1 < max_attempts")
  case True
  with assms(4) obtain due where due: "next_retry_at fpow policy attempts now = Inr due" "mark_retry ex now' i e due tbl = Inr tbl'"
    by (auto simp: handle_retryable_failure_def)
  from this(1) have "is_aware due" using assms(2) by (auto simp: next_retry_at_def Let_def)
  with due(2) True retried assms(1,3) show thesis by (auto simp: mark_retry_eq)
next
  case False
  then show thesis using assms handle_failed [OF assms(1,3)] failed by auto
qed

lemma handle_one_row:
  assumes "db_session ex" "is_aware now" "is_aware now'"
    and "handle_retryable_failure fpow policy (mark_retry ex now') (mark_failed ex now') i attempts max_attempts e now tbl = Inr (a, tbl')"
  shows "one_row_update i tbl tbl'"
  using assms by (cases rule: handle_cases) (simp_all add: one_row_updateI)

end

end
