(* ===== verification/OutboxStore.thy ===== *)
theory OutboxStore
  imports OutboxModel LeaseQueue
begin

text \<open>
  \<^verbatim>\<open>outbox/store.py\<close>: appending, claiming, reclaiming and settling outbox rows, on PostgreSQL
  and on MySQL.  Every operation takes the table the transaction sees and returns the table
  it leaves, or the exception it raises.
\<close>

section \<open>Row and record conversion\<close>

text \<open>\<^verbatim>\<open>_record_values\<close>: the values of an insert, as the driver binds them.\<close>

definition outbox_record_values :: "executor \<Rightarrow> OutboxMessageRecord \<Rightarrow> string \<Rightarrow> outbox_row" where
  "outbox_record_values ex r dialect =
     (let ts = (\<lambda>v. ex_bind_ts ex (if dialect = MYSQL then naive_utc (ex_local_offset ex) v else v))
      in \<lparr>col_id = rec_id r,
          col_message_id = rec_message_id r,
          col_event_type = rec_event_type r,
          col_message_key = rec_message_key r,
          col_ordering_key = rec_ordering_key r,
          col_correlation_id = rec_correlation_id r,
          col_payload = rec_payload r,
          col_headers = dict_sorted (rec_headers r),
          col_status = OutboxStatus_as_str (ob_status r),
          col_attempts = rec_attempts r,
          col_max_attempts = rec_max_attempts r,
          col_available_at = ts (rec_available_at r),
          col_lease_until = map_option ts (rec_lease_until r),
          col_last_error = rec_last_error r,
          col_updated_at = ts (rec_updated_at r),
          col_created_at = ts (ob_created_at r),
          col_published_at = map_option ts (ob_published_at r)\<rparr>)"

definition outbox_map_record :: "executor \<Rightarrow> outbox_row \<Rightarrow> error + OutboxMessageRecord" where
  "outbox_map_record ex row =
     res_bind (OutboxStatus_from_str (col_status row)) (\<lambda>status. Inr \<lparr>
       rec_id = col_id row,
       rec_message_id = col_message_id row,
       rec_event_type = col_event_type row,
       rec_message_key = col_message_key row,
       rec_ordering_key = col_ordering_key row,
       rec_correlation_id = col_correlation_id row,
       rec_payload = ex_fetch_payload ex (col_payload row),
       rec_headers = ex_fetch_headers ex (col_headers row),
       rec_attempts = col_attempts row,
       rec_max_attempts = col_max_attempts row,
       rec_available_at = aware_utc (ex_fetch_ts ex (col_available_at row)),
       rec_lease_until = aware_utc_opt (map_option (ex_fetch_ts ex) (col_lease_until row)),
       rec_last_error = col_last_error row,
       rec_updated_at = aware_utc (ex_fetch_ts ex (col_updated_at row)),
       ob_status = status,
       ob_created_at = aware_utc (ex_fetch_ts ex (col_created_at row)),
       ob_published_at = aware_utc_opt (map_option (ex_fetch_ts ex) (col_published_at row))\<rparr>)"

section \<open>Inserting\<close>

text \<open>
  The primary key and the unique \<^verbatim>\<open>message_id\<close>, compared under the server's collation; every
  column must be able to hold its value.
\<close>

definition outbox_conflict :: "executor \<Rightarrow> outbox_row \<Rightarrow> outbox_row \<Rightarrow> bool" where
  "outbox_conflict ex r r' =
     (col_id r = col_id r' \<or> text_eq ex (col_message_id r) (col_message_id r'))"

definition outbox_fits :: "executor \<Rightarrow> outbox_row \<Rightarrow> bool" where
  "outbox_fits ex r =
     (ex_fits ex (col_message_id r) \<and> ex_fits ex (col_event_type r) \<and>
      pred_option (ex_fits ex) (col_ordering_key r) \<and> pred_option (ex_fits ex) (col_correlation_id r) \<and>
      row_stored ex r)"

definition outbox_insert :: "executor \<Rightarrow> outbox_row \<Rightarrow> outbox_table \<Rightarrow> error + outbox_table" where
  "outbox_insert ex r tbl =
     (if \<not> outbox_fits ex r then Inl DataError else insert_unique (outbox_conflict ex) r tbl)"

definition OutboxStore_append ::
  "PactixConfig \<Rightarrow> executor \<Rightarrow> uuid \<Rightarrow> datetime \<Rightarrow> MessageEnvelope \<Rightarrow> outbox_table
   \<Rightarrow> error + (OutboxMessageRecord \<times> outbox_table)" where
  "OutboxStore_append cfg ex new_id now envelope tbl =
     res_bind (OutboxMessageRecord_pending new_id now (env_metadata envelope) (env_payload envelope)
                 (retry_policy cfg)) (\<lambda>record.
     res_bind (dialect_name ex) (\<lambda>dialect.
       let vals = outbox_record_values ex record dialect
       in if dialect = MYSQL
          then res_bind (outbox_insert ex vals tbl) (\<lambda>tbl'. Inr (record, tbl'))
          else res_bind (outbox_insert ex vals tbl) (\<lambda>tbl'.
                 res_bind (outbox_map_record ex vals) (\<lambda>stored. Inr (stored, tbl')))))"

section \<open>Reading\<close>

definition OutboxStore_list_by_status ::
  "executor \<Rightarrow> OutboxStatus \<Rightarrow> outbox_table \<Rightarrow> error + OutboxMessageRecord list" where
  "OutboxStore_list_by_status ex status tbl =
     res_map (outbox_map_record ex)
       (select_order_by (\<lambda>r. col_status r = OutboxStatus_as_str status) col_created_at tbl)"

section \<open>Reclaiming and claiming\<close>

definition OutboxStore_reclaim_expired ::
  "executor \<Rightarrow> datetime \<Rightarrow> outbox_table \<Rightarrow> error + (int \<times> outbox_table)" where
  "OutboxStore_reclaim_expired ex now tbl =
     res_bind (dialect_name ex) (\<lambda>dialect.
       let now' = ex_bind_ts ex (if dialect = MYSQL then naive_utc (ex_local_offset ex) now else now);
           expired = (\<lambda>r. col_status r = ''processing'' \<and> null_less (col_lease_until r) now')
       in Inr (rowcount expired tbl, update_where expired (set_reclaimed now') tbl))"

text \<open>The WHERE clause of the claim queries: due, and first of its key among unfinished rows.\<close>

definition outbox_claimable :: "executor \<Rightarrow> int \<Rightarrow> outbox_table \<Rightarrow> outbox_row \<Rightarrow> bool" where
  "outbox_claimable ex now tbl candidate =
     (col_status candidate = ''pending'' \<and>
      col_available_at candidate \<le> now \<and>
      (col_ordering_key candidate = None \<or>
       \<not> list_ex (\<lambda>older.
           text_eq ex (col_event_type older) (col_event_type candidate) \<and>
           null_text_eq ex (col_ordering_key older) (col_ordering_key candidate) \<and>
           col_created_at older < col_created_at candidate \<and>
           (col_status older = ''pending'' \<or> col_status older = ''processing'')) tbl))"

definition outbox_CLAIM_READY_SQL ::
  "executor \<Rightarrow> int \<Rightarrow> int \<Rightarrow> int \<Rightarrow> outbox_table \<Rightarrow> error + (outbox_row list \<times> outbox_table)" where
  "outbox_CLAIM_READY_SQL ex now limit lease_until tbl =
     claim_returning ex (outbox_claimable ex now tbl) col_created_at limit lease_until now tbl"

definition outbox_CLAIM_READY_MYSQL_SQL ::
  "executor \<Rightarrow> int \<Rightarrow> int \<Rightarrow> outbox_table \<Rightarrow> error + outbox_row list" where
  "outbox_CLAIM_READY_MYSQL_SQL ex now limit tbl =
     select_skip_locked ex (outbox_claimable ex now tbl) col_created_at limit tbl"

definition OutboxStore_claim_ready_mysql ::
  "PactixConfig \<Rightarrow> executor \<Rightarrow> datetime \<Rightarrow> outbox_table
   \<Rightarrow> error + (OutboxMessageRecord list \<times> outbox_table)" where
  "OutboxStore_claim_ready_mysql cfg ex now tbl =
     (let db_now = ex_bind_ts ex (naive_utc (ex_local_offset ex) now);
          lease_until = dt_add now (lease_duration cfg)
      in res_bind (outbox_CLAIM_READY_MYSQL_SQL ex db_now (outbox_batch_size cfg) tbl) (\<lambda>rows.
           if rows = [] then Inr ([], tbl)
           else
             let tbl' = update_where (\<lambda>r. col_id r \<in> set (map col_id rows))
                   (set_claimed (ex_bind_ts ex (naive_utc (ex_local_offset ex) lease_until)) db_now) tbl
             in res_bind (res_map (\<lambda>row. res_bind (outbox_map_record ex row) (\<lambda>record.
                    Inr (record\<lparr>ob_status := PROCESSING, rec_lease_until := Some lease_until,
                                rec_updated_at := now\<rparr>))) rows)
                  (\<lambda>records. Inr (records, tbl'))))"

definition OutboxStore_claim_ready ::
  "PactixConfig \<Rightarrow> executor \<Rightarrow> datetime \<Rightarrow> outbox_table
   \<Rightarrow> error + (OutboxMessageRecord list \<times> outbox_table)" where
  "OutboxStore_claim_ready cfg ex now tbl =
     res_bind (dialect_name ex) (\<lambda>dialect.
       if dialect = MYSQL then OutboxStore_claim_ready_mysql cfg ex now tbl
       else
         let lease_until = dt_add now (lease_duration cfg)
         in res_bind (outbox_CLAIM_READY_SQL ex (ex_bind_ts ex now) (outbox_batch_size cfg)
                        (ex_bind_ts ex lease_until) tbl) (\<lambda>(rows, tbl').
              res_bind (res_map (outbox_map_record ex) rows) (\<lambda>records. Inr (records, tbl'))))"

section \<open>Settling\<close>

definition set_published :: "int \<Rightarrow> outbox_row \<Rightarrow> outbox_row" where
  "set_published t r =
     r\<lparr>col_status := ''published'', col_lease_until := None, col_published_at := Some t,
       col_updated_at := t\<rparr>"

definition OutboxStore_mark_published ::
  "executor \<Rightarrow> uuid \<Rightarrow> datetime \<Rightarrow> outbox_table \<Rightarrow> error + outbox_table" where
  "OutboxStore_mark_published ex i published_at tbl =
     res_bind (dialect_name ex) (\<lambda>dialect.
       let t = (if dialect = MYSQL then naive_utc (ex_local_offset ex) published_at else published_at)
       in Inr (update_where (\<lambda>r. col_id r = i) (set_published (ex_bind_ts ex t)) tbl))"

definition OutboxStore_mark_retry ::
  "executor \<Rightarrow> datetime \<Rightarrow> uuid \<Rightarrow> string \<Rightarrow> datetime \<Rightarrow> outbox_table \<Rightarrow> error + outbox_table" where
  "OutboxStore_mark_retry ex now i err available_at tbl =
     res_bind (dialect_name ex) (\<lambda>dialect.
       let norm = (\<lambda>v. if dialect = MYSQL then naive_utc (ex_local_offset ex) v else v)
       in update_attempt ex i
            (set_retry err (ex_bind_ts ex (norm available_at)) (ex_bind_ts ex (norm now))) tbl)"

definition OutboxStore_mark_failed ::
  "executor \<Rightarrow> datetime \<Rightarrow> uuid \<Rightarrow> string \<Rightarrow> outbox_table \<Rightarrow> error + outbox_table" where
  "OutboxStore_mark_failed ex now i err tbl =
     res_bind (dialect_name ex) (\<lambda>dialect.
       let updated_at = (if dialect = MYSQL then naive_utc (ex_local_offset ex) now else now)
       in update_attempt ex i (set_failed err (ex_bind_ts ex updated_at)) tbl)"

section \<open>The record a row stores\<close>

text \<open>
  The record \<^verbatim>\<open>_map_record\<close> builds from a row whose status column holds a member: the
  abstraction from rows to records that the laws below are stated with.
\<close>

definition outbox_view :: "executor \<Rightarrow> OutboxStatus \<Rightarrow> outbox_row \<Rightarrow> OutboxMessageRecord" where
  "outbox_view ex st row = \<lparr>
     rec_id = col_id row, rec_message_id = col_message_id row, rec_event_type = col_event_type row,
     rec_message_key = col_message_key row, rec_ordering_key = col_ordering_key row,
     rec_correlation_id = col_correlation_id row, rec_payload = ex_fetch_payload ex (col_payload row),
     rec_headers = ex_fetch_headers ex (col_headers row),
     rec_attempts = col_attempts row, rec_max_attempts = col_max_attempts row,
     rec_available_at = utc (col_available_at row), rec_lease_until = map_option utc (col_lease_until row),
     rec_last_error = col_last_error row, rec_updated_at = utc (col_updated_at row), ob_status = st,
     ob_created_at = utc (col_created_at row), ob_published_at = map_option utc (col_published_at row)\<rparr>"

lemma outbox_map_record_view:
  assumes "db_driver ex" and "col_status row = OutboxStatus_as_str st"
  shows "outbox_map_record ex row = Inr (outbox_view ex st row)"
  using assms by (simp add: outbox_map_record_def outbox_view_def outbox_status.from_as)

lemma outbox_map_record_Inr:
  assumes "db_driver ex"
  shows "outbox_map_record ex row = Inr rec \<longleftrightarrow>
    (\<exists>st. col_status row = OutboxStatus_as_str st \<and> rec = outbox_view ex st row)"
  using assms by (auto simp: outbox_map_record_def outbox_view_def outbox_status.from_str_iff)

lemma rec_id_outbox_view [simp]: "rec_id (outbox_view ex st row) = col_id row"
  by (simp add: outbox_view_def)

section \<open>Claiming and reclaiming are those of a first-in first-out lease queue\<close>

lemma claimed_view:
  "(outbox_view ex st row)\<lparr>ob_status := PROCESSING, rec_lease_until := Some (utc l), rec_updated_at := utc t\<rparr>
    = outbox_view ex PROCESSING (set_claimed l t row)"
  by (simp add: outbox_view_def set_claimed_def)

lemma claim_ready_mysql_selected:
  assumes ex: "mysql_driver ex" and u: "unique_ids tbl"
    and sel: "select_skip_locked ex (outbox_claimable ex t tbl) col_created_at (outbox_batch_size cfg) tbl = Inr sel"
  shows "OutboxStore_claim_ready cfg ex (utc t) tbl =
    Inr (map (outbox_view ex PROCESSING) (map (set_claimed (t + lease_duration cfg) t) sel),
         update_where (\<lambda>r. r \<in> set sel) (set_claimed (t + lease_duration cfg) t) tbl)"
proof -
  note db = mysql_db_driver [OF ex]
  have my: "ex_dialect ex = MYSQL" and bind: "ex_bind_ts ex (Naive w) = w" for w
    using mysqlD [OF ex] by simp_all
  have sound: "r \<in> set tbl" "col_status r = ''pending''" if "r \<in> set sel" for r
    using select_skip_locked_sound(2) [OF sel that] by (simp_all add: outbox_claimable_def)
  have rows: "res_map (\<lambda>row. res_bind (outbox_map_record ex row) (\<lambda>record.
        Inr (record\<lparr>ob_status := PROCESSING, rec_lease_until := Some (utc (t + lease_duration cfg)),
                    rec_updated_at := utc t\<rparr>))) sel
      = Inr (map (\<lambda>row. outbox_view ex PROCESSING (set_claimed (t + lease_duration cfg) t row)) sel)"
    by (rule res_map_total)
      (simp add: sound outbox_map_record_view [OF db, of _ PENDING] claimed_view)
  have upd: "update_where (\<lambda>r. col_id r \<in> set (map col_id sel)) f tbl = update_where (\<lambda>r. r \<in> set sel) f tbl" for f
    using claimed_rows_update [OF u] sound(1) by blast
  show ?thesis
    using sel rows upd
    by (auto simp: OutboxStore_claim_ready_def OutboxStore_claim_ready_mysql_def db my bind
        outbox_CLAIM_READY_MYSQL_SQL_def update_where_none comp_def Let_def)
qed

lemma claim_ready_postgres_selected:
  assumes ex: "postgres_driver ex" and u: "unique_ids tbl"
    and sel: "select_skip_locked ex (outbox_claimable ex t tbl) col_created_at (outbox_batch_size cfg) tbl = Inr sel"
  shows "\<exists>rows. OutboxStore_claim_ready cfg ex (utc t) tbl =
      Inr (map (outbox_view ex PROCESSING) rows,
           update_where (\<lambda>r. r \<in> set sel) (set_claimed (t + lease_duration cfg) t) tbl)
    \<and> mset rows = mset (map (set_claimed (t + lease_duration cfg) t) sel)"
proof -
  note db = postgres_db_driver [OF ex]
  have pg: "ex_dialect ex = POSTGRESQL" and bind: "ex_bind_ts ex (Aware w off) = w - off" for w off
    using postgresD [OF ex] by simp_all
  obtain rows where claim: "claim_returning ex (outbox_claimable ex t tbl) col_created_at (outbox_batch_size cfg)
        (t + lease_duration cfg) t tbl
      = Inr (rows, update_where (\<lambda>r. r \<in> set sel) (set_claimed (t + lease_duration cfg) t) tbl)"
    and rows: "mset rows = mset (map (set_claimed (t + lease_duration cfg) t) sel)"
    using claim_returning_spec [OF u sel] by blast
  have "col_status r = ''processing''" if "r \<in> set rows" for r
    using mset_eq_setD [OF rows] that by auto
  then have "res_map (outbox_map_record ex) rows = Inr (map (outbox_view ex PROCESSING) rows)"
    by (intro res_map_total) (simp add: outbox_map_record_view [OF db])
  with claim rows show ?thesis
    by (auto simp: OutboxStore_claim_ready_def db pg bind outbox_CLAIM_READY_SQL_def)
qed

lemma claim_ready_selected:
  assumes "db_driver ex" and "unique_ids tbl"
    and "select_skip_locked ex (outbox_claimable ex t tbl) col_created_at (outbox_batch_size cfg) tbl = Inr sel"
  shows "\<exists>rows. OutboxStore_claim_ready cfg ex (utc t) tbl =
      Inr (map (outbox_view ex PROCESSING) rows,
           update_where (\<lambda>r. r \<in> set sel) (set_claimed (t + lease_duration cfg) t) tbl)
    \<and> mset rows = mset (map (set_claimed (t + lease_duration cfg) t) sel)"
  using assms(1) unfolding db_driver_def
proof
  assume "postgres_driver ex"
  then show ?thesis using claim_ready_postgres_selected assms(2,3) by blast
next
  assume "mysql_driver ex"
  then show ?thesis using claim_ready_mysql_selected assms(2,3) by blast
qed

lemma claim_ready_negative_batch:
  assumes "db_session ex" and "outbox_batch_size cfg < 0"
  shows "OutboxStore_claim_ready cfg ex now tbl = Inl DatabaseError"
  using assms by (simp add: OutboxStore_claim_ready_def OutboxStore_claim_ready_mysql_def
      outbox_CLAIM_READY_MYSQL_SQL_def outbox_CLAIM_READY_SQL_def claim_returning_def select_skip_locked_def)

lemma claim_ready_Inr:
  assumes "db_session ex" and "unique_ids tbl" and "OutboxStore_claim_ready cfg ex (utc t) tbl = Inr (ms, tbl')"
  obtains sel rows where
    "select_skip_locked ex (outbox_claimable ex t tbl) col_created_at (outbox_batch_size cfg) tbl = Inr sel"
    and "tbl' = update_where (\<lambda>r. r \<in> set sel) (set_claimed (t + lease_duration cfg) t) tbl"
    and "ms = map (outbox_view ex PROCESSING) rows"
    and "mset rows = mset (map (set_claimed (t + lease_duration cfg) t) sel)"
proof (cases "select_skip_locked ex (outbox_claimable ex t tbl) col_created_at (outbox_batch_size cfg) tbl")
  case (Inl e)
  then show ?thesis using assms claim_ready_negative_batch [OF assms(1)]
    by (auto simp: select_skip_locked_def split: if_splits)
next
  case (Inr sel)
  then show ?thesis using claim_ready_selected [OF session_driver(1) [OF assms(1)] assms(2) Inr] assms(3) that by auto
qed

text \<open>Every record a claim returns is the stored row's.\<close>

lemma claimed_stored:
  assumes "db_session ex" and u: "unique_ids tbl" and "OutboxStore_claim_ready cfg ex (utc t) tbl = Inr (ms, tbl')"
    and m: "m \<in> set ms"
  obtains r where "r \<in> set tbl" and "m = outbox_view ex PROCESSING (set_claimed (t + lease_duration cfg) t r)"
    and "row_of tbl' (rec_id m) = Some (set_claimed (t + lease_duration cfg) t r)"
proof (rule claim_ready_Inr [OF assms(1-3)])
  fix sel rows
  assume sel: "select_skip_locked ex (outbox_claimable ex t tbl) col_created_at (outbox_batch_size cfg) tbl = Inr sel"
    and tbl': "tbl' = update_where (\<lambda>r. r \<in> set sel) (set_claimed (t + lease_duration cfg) t) tbl"
    and ms: "ms = map (outbox_view ex PROCESSING) rows"
    and rows: "mset rows = mset (map (set_claimed (t + lease_duration cfg) t) sel)"
  have "set rows = set_claimed (t + lease_duration cfg) t ` set sel" using mset_eq_setD [OF rows] by simp
  then obtain r where r: "r \<in> set sel" "m = outbox_view ex PROCESSING (set_claimed (t + lease_duration cfg) t r)"
    using m by (auto simp: ms)
  moreover have "r \<in> set tbl" using select_skip_locked_sound(2) [OF sel r(1)] by blast
  moreover from this r have "row_of tbl' (rec_id m) = Some (set_claimed (t + lease_duration cfg) t r)"
    using u by (auto simp: row_of_Some tbl' intro: in_update_where_changed)
  ultimately show thesis using that by blast
qed

interpretation outbox_queue: fifo_queue rec_id col_created_at outbox_batch_size outbox_claimable
  OutboxStore_claim_ready OutboxStore_reclaim_expired
proof (unfold_locales, goal_cases)
  case (1 ex tbl cfg t)
  then obtain sel where
    "select_skip_locked ex (outbox_claimable ex t tbl) col_created_at (outbox_batch_size cfg) tbl = Inr sel"
    by (simp add: select_skip_locked_def)
  then show ?case using claim_ready_selected [OF session_driver(1)] 1 by blast
next
  case (2 ex tbl cfg t ms tbl')
  then show ?case
    by (elim claim_ready_Inr) (auto simp: multiset.map_comp comp_def dest: mset_map_claimed_ids)
next
  case (3 ex t tbl r)
  then show ?case by (simp add: outbox_claimable_def)
next
  case (4 ex t tbl)
  then show ?case
    by (simp add: OutboxStore_reclaim_expired_def db_time_branch lease_expired_def [abs_def] Let_def)
next
  case (5 ex t tbl c)
  then show ?case by (auto simp: outbox_claimable_def list_ex_iff same_key_def unfinished_def)
qed

interpretation outbox_retry: retry_store OutboxStore_mark_retry OutboxStore_mark_failed
  by unfold_locales
    (simp_all add: OutboxStore_mark_retry_def OutboxStore_mark_failed_def db_time_branch Let_def)

lemma mark_published_eq:
  assumes "db_session ex" and "is_aware t"
  shows "OutboxStore_mark_published ex i t tbl =
    Inr (update_where (\<lambda>r. col_id r = i) (set_published (instant t)) tbl)"
  using assms by (simp add: OutboxStore_mark_published_def db_time_branch Let_def)

end
