(* ===== verification/Records.thy ===== *)
theory Records
  imports LeaseQueue
begin

text \<open>
  The abstract view of a table: the record stored under each id.  The locale \<open>record_view\<close> is what a
  store promises about reading a row back; updates of rows are then changes of records, for
  the outbox and the inbox alike.
\<close>

definition records_by :: "('a message_row_scheme \<Rightarrow> error + 'm) \<Rightarrow> 'a message_row_scheme list \<Rightarrow> uuid \<Rightarrow> 'm option" where
  "records_by read tbl i =
     (case row_of tbl i of
        None \<Rightarrow> None
      | Some r \<Rightarrow> (case read r of Inl _ \<Rightarrow> None | Inr m \<Rightarrow> Some m))"

text \<open>Every row has a status that the library knows.\<close>

definition statuses_in :: "('s \<Rightarrow> string) \<Rightarrow> 'a message_row_scheme list \<Rightarrow> bool" where
  "statuses_in as_str tbl \<longleftrightarrow> (\<forall>r \<in> set tbl. \<exists>st. col_status r = as_str st)"

locale record_view =
  fixes rid :: "'m \<Rightarrow> uuid" and as_str :: "'s \<Rightarrow> string"
    and read :: "executor \<Rightarrow> 'a message_row_scheme \<Rightarrow> error + 'm" and view :: "executor \<Rightarrow> 's \<Rightarrow> 'a message_row_scheme \<Rightarrow> 'm"
  assumes read_view: "db_session ex \<Longrightarrow> col_status r = as_str st \<Longrightarrow> read ex r = Inr (view ex st r)"
    and rid_view: "rid (view ex st r) = col_id r"
begin

text \<open>An update of the rows that satisfy \<open>p\<close> is the corresponding change of their records.\<close>

lemma records_update:
  assumes ex: "db_session ex" and known: "statuses_in as_str tbl"
    and id: "\<And>r. col_id (f r) = col_id r"
    and f: "\<And>r st. col_status r = as_str st \<Longrightarrow> read ex (f r) = Inr (g (view ex st r))"
    and p: "\<And>r. r \<in> set tbl \<Longrightarrow> p r \<longleftrightarrow> col_id r \<in> I"
  shows "records_by (read ex) (update_where p f tbl) =
    (\<lambda>i. if i \<in> I then map_option g (records_by (read ex) tbl i) else records_by (read ex) tbl i)"
proof
  fix i
  show "records_by (read ex) (update_where p f tbl) i =
    (if i \<in> I then map_option g (records_by (read ex) tbl i) else records_by (read ex) tbl i)"
  proof (cases "row_of tbl i")
    case None
    then show ?thesis by (simp add: records_by_def row_of_update_where id)
  next
    case (Some r)
    then have r: "r \<in> set tbl" "col_id r = i" by (auto dest: row_of_mem)
    obtain st where st: "col_status r = as_str st" using known r(1) by (auto simp: statuses_in_def)
    show ?thesis
      using Some r p [OF r(1)] f [OF st] read_view [OF ex st]
      by (simp add: records_by_def row_of_update_where id)
  qed
qed

lemma records_update_id:
  assumes "db_session ex" "statuses_in as_str tbl" "\<And>r. col_id (f r) = col_id r"
    "\<And>r st. col_status r = as_str st \<Longrightarrow> read ex (f r) = Inr (g (view ex st r))"
  shows "records_by (read ex) (update_where (\<lambda>r. col_id r = i) f tbl) =
    (records_by (read ex) tbl)(i := map_option g (records_by (read ex) tbl i))"
  using records_update [OF assms, of "\<lambda>r. col_id r = i" "{i}"] by (auto simp: fun_eq_iff)

text \<open>A claim of the rows \<open>sel\<close> that answers \<open>rows\<close>.\<close>

lemma records_claim:
  assumes ex: "db_session ex" and u: "unique_ids tbl" and known: "statuses_in as_str tbl" and sub: "set sel \<subseteq> set tbl"
    and rows: "mset rows = mset (map (set_claimed l t) sel)" and st: "as_str st = ''processing''"
    and mark: "\<And>r st. read ex (set_claimed l t r) = Inr (g (view ex st r))"
  shows "records_by (read ex) (update_where (\<lambda>r. r \<in> set sel) (set_claimed l t) tbl) =
      (\<lambda>i. if i \<in> rid ` set (map (view ex st) rows) then map_option g (records_by (read ex) tbl i) else records_by (read ex) tbl i)"
    and "m \<in> set (map (view ex st) rows) \<Longrightarrow>
      records_by (read ex) (update_where (\<lambda>r. r \<in> set sel) (set_claimed l t) tbl) (rid m) = Some m"
proof -
  have set_rows: "set rows = set_claimed l t ` set sel" using mset_eq_setD [OF rows] by simp
  have ids: "rid ` set (map (view ex st) rows) = col_id ` set sel" by (simp add: set_rows image_image rid_view)
  show "records_by (read ex) (update_where (\<lambda>r. r \<in> set sel) (set_claimed l t) tbl) =
      (\<lambda>i. if i \<in> rid ` set (map (view ex st) rows) then map_option g (records_by (read ex) tbl i) else records_by (read ex) tbl i)"
    unfolding ids
    by (rule records_update [where f = "set_claimed l t" and p = "\<lambda>r. r \<in> set sel", OF ex known])
      (use mark id_in_selected_iff [OF u sub] in auto)
  assume "m \<in> set (map (view ex st) rows)"
  then obtain r where r: "r \<in> set sel" "m = view ex st (set_claimed l t r)" by (auto simp: set_rows)
  then have "row_of (update_where (\<lambda>r. r \<in> set sel) (set_claimed l t) tbl) (rid m) = Some (set_claimed l t r)"
    using u sub by (auto simp: row_of_Some rid_view intro: in_update_where_changed)
  then show "records_by (read ex) (update_where (\<lambda>r. r \<in> set sel) (set_claimed l t) tbl) (rid m) = Some m"
    using read_view [OF ex, of "set_claimed l t r" st] st r(2) by (simp add: records_by_def)
qed

end

end
