(* ===== verification/OutboxCorrect.thy ===== *)
theory OutboxCorrect
  imports OutboxStore Records
begin

text \<open>
  Correctness of the outbox store: what a claim, a reclaim, an append and the settling updates
  do to the table, ordering and exclusive ownership of claimed rows, agreement of the two
  database branches, refinement of the in-memory transitions of \<^verbatim>\<open>outbox/model.py\<close>, and the
  invariant of every table the operations can build.
\<close>

section \<open>A concrete table\<close>

definition example_outbox_row :: "uuid \<Rightarrow> string option \<Rightarrow> int \<Rightarrow> outbox_row" where
  "example_outbox_row i key created = \<lparr>
     col_id = i, col_message_id = (if i = 1 then ''m-1'' else if i = 2 then ''m-2'' else ''m-3''), col_event_type = ''order.created'',
     col_message_key = None, col_ordering_key = key, col_correlation_id = None,
     col_payload = JNull, col_headers = [], col_status = ''pending'', col_attempts = 0,
     col_max_attempts = 10, col_available_at = created, col_lease_until = None,
     col_last_error = None, col_updated_at = created, col_created_at = created,
     col_published_at = None\<rparr>"

text \<open>Two rows of the key \<^verbatim>\<open>k\<close> and one without a key.\<close>

definition example_outbox :: outbox_table where
  "example_outbox =
     [example_outbox_row 1 (Some ''k'') 10, example_outbox_row 2 (Some ''k'') 20, example_outbox_row 3 None 30]"

text \<open>The table after a claim at time 50 under the default configuration.\<close>

definition example_claimed :: outbox_table where
  "example_claimed =
     [set_claimed 30000050 50 (example_outbox_row 1 (Some ''k'') 10), example_outbox_row 2 (Some ''k'') 20,
      set_claimed 30000050 50 (example_outbox_row 3 None 30)]"

definition example_claimed_records :: "executor \<Rightarrow> OutboxMessageRecord list" where
  "example_claimed_records ex =
     map (outbox_view ex PROCESSING)
       [set_claimed 30000050 50 (example_outbox_row 1 (Some ''k'') 10),
        set_claimed 30000050 50 (example_outbox_row 3 None 30)]"

lemmas outbox_eval =
  OutboxStore_claim_ready_def OutboxStore_claim_ready_mysql_def outbox_CLAIM_READY_SQL_def
  outbox_CLAIM_READY_MYSQL_SQL_def claim_returning_def select_skip_locked_def select_order_by_def
  update_returning_def update_where_def outbox_claimable_def text_eq_def set_defs Let_def
  outbox_map_record_def OutboxStatus_from_str_def dialect_name_def OutboxStore_reclaim_expired_def
  rowcount_def aware_utc_opt_def
  example_postgres_def example_mysql_def POSTGRESQL_def MYSQL_def default_PactixConfig_def
  example_outbox_def example_outbox_row_def

lemma example_claim:
  "OutboxStore_claim_ready default_PactixConfig example_postgres (utc 50) example_outbox =
     Inr (example_claimed_records example_postgres, example_claimed)"
  "OutboxStore_claim_ready default_PactixConfig example_mysql (utc 50) example_outbox =
     Inr (example_claimed_records example_mysql, example_claimed)"
  by (simp_all add: outbox_eval example_claimed_def example_claimed_records_def outbox_view_def)

lemma example_unique_ids [simp]: "unique_ids example_outbox" "unique_ids example_claimed"
  by (simp_all add: unique_ids_def example_outbox_def example_claimed_def example_outbox_row_def)

lemma example_claimed_ids [simp]: "rec_id ` set (example_claimed_records ex) = {1, 3}"
  by (simp add: example_claimed_records_def example_outbox_row_def)

section \<open>Claiming\<close>

text \<open>A claim that is answered at time \<open>t\<close> takes at most a batch of distinct rows, each
  pending, due and not locked by another transaction; it sets exactly those to processing
  under a lease of \<^verbatim>\<open>lease_duration\<close>, leaves every other row as it was, and returns the stored
  rows' records.\<close>

theorem outbox_claim_effect:
  assumes "db_session ex" and "unique_ids tbl"
    and "OutboxStore_claim_ready cfg ex (utc t) tbl = Inr (ms, tbl')"
  shows "length ms \<le> nat (outbox_batch_size cfg) \<and> distinct (map rec_id ms)
    \<and> (\<forall>m \<in> set ms. \<exists>r \<in> set tbl. col_status r = ''pending'' \<and> col_available_at r \<le> t
          \<and> \<not> ex_locked ex (col_id r)
          \<and> m = outbox_view ex PROCESSING (set_claimed (t + lease_duration cfg) t r))
    \<and> tbl' = map (\<lambda>r. if col_id r \<in> rec_id ` set ms then set_claimed (t + lease_duration cfg) t r else r) tbl"
proof -
  note effect = outbox_queue.claim_effect [OF assms]
  obtain sel rows where
    sel: "select_skip_locked ex (outbox_claimable ex t tbl) col_created_at (outbox_batch_size cfg) tbl = Inr sel"
    and tbl': "tbl' = update_where (\<lambda>r. r \<in> set sel) (set_claimed (t + lease_duration cfg) t) tbl"
    and ms: "ms = map (outbox_view ex PROCESSING) rows"
    and rows: "mset rows = mset (map (set_claimed (t + lease_duration cfg) t) sel)"
    using claim_ready_Inr [OF assms] by blast
  have sound: "r \<in> set tbl \<and> outbox_claimable ex t tbl r \<and> \<not> ex_locked ex (col_id r)" if "r \<in> set sel" for r
    using select_skip_locked_sound(2) [OF sel that] .
  have set_rows: "set rows = set_claimed (t + lease_duration cfg) t ` set sel"
    using mset_eq_setD [OF rows] by simp
  have "rec_id ` set ms = col_id ` set sel"
    by (auto simp: ms set_rows image_image)
  then have "tbl' = update_where (\<lambda>r. col_id r \<in> rec_id ` set ms) (set_claimed (t + lease_duration cfg) t) tbl"
    using claimed_rows_update [OF assms(2), of sel] sound by (simp add: tbl' subset_iff)
  moreover have "\<forall>m \<in> set ms. \<exists>r \<in> set tbl. col_status r = ''pending'' \<and> col_available_at r \<le> t
      \<and> \<not> ex_locked ex (col_id r) \<and> m = outbox_view ex PROCESSING (set_claimed (t + lease_duration cfg) t r)"
    using sound outbox_queue.ready_due by (fastforce simp: ms set_rows)
  ultimately show ?thesis using effect(1,2) by (simp add: update_where_def)
qed

theorem outbox_claim_effect_witness:
  "example_claimed = map (\<lambda>r. if col_id r \<in> {1, 3} then set_claimed (50 + 30000000) 50 r else r) example_outbox"
proof -
  have "example_claimed = map (\<lambda>r. if col_id r \<in> rec_id ` set (example_claimed_records example_postgres)
      then set_claimed (50 + lease_duration default_PactixConfig) 50 r else r) example_outbox"
    using outbox_claim_effect [OF _ example_unique_ids(1) example_claim(1)] by simp
  then show ?thesis by (simp add: default_PactixConfig_def cong: if_cong)
qed

text \<open>Property C3: exclusive ownership.  While the leases of a claim run, the reclaim and claim of
  any other worker, on either database and with any configuration, takes none of its rows,
  whatever happened to the other rows of the table in between.\<close>

theorem outbox_claim_exclusive:
  assumes "db_session ex" "db_session ex'" and "unique_ids tbl"
    and "OutboxStore_claim_ready cfg ex (utc t) tbl = Inr (ms, tbl1)"
    and "unique_ids tbl2" and "\<And>i. i \<in> rec_id ` set ms \<Longrightarrow> row_of tbl2 i = row_of tbl1 i"
    and "t' \<le> t + lease_duration cfg"
    and "OutboxStore_reclaim_expired ex' (utc t') tbl2 = Inr (n, tbl3)"
    and "OutboxStore_claim_ready cfg' ex' (utc t') tbl3 = Inr (ms', tbl4)"
  shows "rec_id ` set ms \<inter> rec_id ` set ms' = {}"
  using assms by (rule outbox_queue.claim_exclusive)

theorem outbox_claim_exclusive_witness:
  "\<exists>ms' tbl4. OutboxStore_claim_ready default_PactixConfig example_mysql (utc 60) example_claimed = Inr (ms', tbl4)
     \<and> {1, 3} \<inter> rec_id ` set ms' = {}"
proof -
  have r: "OutboxStore_reclaim_expired example_mysql (utc 60) example_claimed = Inr (0, example_claimed)"
    by (simp add: outbox_eval example_claimed_def)
  obtain ms' tbl4 where c: "OutboxStore_claim_ready default_PactixConfig example_mysql (utc 60) example_claimed = Inr (ms', tbl4)"
    using outbox_queue.claim_total [of example_mysql example_claimed default_PactixConfig 60]
    by (auto simp: default_PactixConfig_def)
  have "rec_id ` set (example_claimed_records example_postgres) \<inter> rec_id ` set ms' = {}"
    by (rule outbox_claim_exclusive [OF _ _ _ example_claim(1) _ _ _ r c]) (simp_all add: default_PactixConfig_def)
  with c show ?thesis by simp
qed

text \<open>Property C5: a claim is first in, first out per \<^verbatim>\<open>(event_type, ordering_key)\<close>: every older row
  of a claimed row's key is finished, so at most one creation time of a key is in a batch.\<close>

theorem outbox_claim_fifo:
  assumes "db_session ex" and "unique_ids tbl"
    and "OutboxStore_claim_ready cfg ex (utc t) tbl = Inr (ms, tbl')"
    and "r \<in> set tbl" "col_id r \<in> rec_id ` set ms"
  shows "(\<forall>older \<in> set tbl. same_key ex older r \<and> col_created_at older < col_created_at r
            \<longrightarrow> col_status older \<noteq> ''pending'' \<and> col_status older \<noteq> ''processing'')
    \<and> (\<forall>r' \<in> set tbl. same_key ex r r' \<and> col_id r' \<in> rec_id ` set ms
            \<longrightarrow> col_created_at r' = col_created_at r)"
  using outbox_queue.claimed_is_head [OF assms] outbox_queue.claimed_same_key_tie [OF assms]
  by (auto simp: unfinished_def)

text \<open>Once the head of the key \<^verbatim>\<open>k\<close> is published, its successor is claimed.\<close>

lemma example_second_claim:
  "\<exists>ms tbl'. OutboxStore_claim_ready default_PactixConfig example_mysql (utc 50)
       [set_published 40 (example_outbox_row 1 (Some ''k'') 10), example_outbox_row 2 (Some ''k'') 20] = Inr (ms, tbl')
     \<and> rec_id ` set ms = {2}"
  by (simp add: outbox_eval set_published_def)

theorem outbox_claim_fifo_witness:
  "\<exists>ms tbl'. OutboxStore_claim_ready default_PactixConfig example_mysql (utc 50)
       [set_published 40 (example_outbox_row 1 (Some ''k'') 10), example_outbox_row 2 (Some ''k'') 20] = Inr (ms, tbl')
     \<and> 2 \<in> rec_id ` set ms \<and> col_status (set_published 40 (example_outbox_row 1 (Some ''k'') 10)) \<noteq> ''pending''"
proof -
  let ?older = "set_published 40 (example_outbox_row 1 (Some ''k'') 10)"
  let ?row = "example_outbox_row 2 (Some ''k'') 20"
  obtain ms tbl' where c: "OutboxStore_claim_ready default_PactixConfig example_mysql (utc 50) [?older, ?row] = Inr (ms, tbl')"
    and ms: "rec_id ` set ms = {2}" using example_second_claim by blast
  have "unique_ids [?older, ?row]" "col_id ?row \<in> rec_id ` set ms"
    by (simp_all add: ms unique_ids_def set_published_def example_outbox_row_def)
  moreover have "same_key example_mysql ?older ?row" "col_created_at ?older < col_created_at ?row"
    by (simp_all add: same_key_def text_eq_def set_published_def example_outbox_row_def)
  ultimately have "col_status ?older \<noteq> ''pending''"
    using outbox_claim_fifo [OF mysql_db_session [OF example_mysql_session] _ c, of ?row] by auto
  with c ms show ?thesis by auto
qed

text \<open>The queue never wedges.  When every unfinished row is due and is either pending
  or under a lease that has run out, a pass that finds no row locked reclaims and then claims
  at least one row; the ordering gate cannot block all of them.\<close>

theorem outbox_pass_progress:
  assumes "db_session ex" "\<And>i. \<not> ex_locked ex i" and "unique_ids tbl" and "1 \<le> outbox_batch_size cfg"
    and "\<And>r. r \<in> set tbl \<Longrightarrow> unfinished r \<Longrightarrow>
      (col_status r = ''pending'' \<or> lease_expired t r) \<and> col_available_at r \<le> t"
    and "row \<in> set tbl" "unfinished row"
  shows "\<exists>n tbl1 ms tbl2. OutboxStore_reclaim_expired ex (utc t) tbl = Inr (n, tbl1)
    \<and> OutboxStore_claim_ready cfg ex (utc t) tbl1 = Inr (ms, tbl2) \<and> ms \<noteq> []"
  using assms by (rule outbox_queue.pass_progress)

theorem outbox_pass_progress_witness:
  "\<exists>n tbl1 ms tbl2. OutboxStore_reclaim_expired example_postgres (utc 30000051) example_claimed = Inr (n, tbl1)
    \<and> OutboxStore_claim_ready default_PactixConfig example_postgres (utc 30000051) tbl1 = Inr (ms, tbl2) \<and> ms \<noteq> []"
proof (rule outbox_pass_progress [where row = "example_outbox_row 2 (Some ''k'') 20"])
  show "\<not> ex_locked example_postgres i" for i by (simp add: example_postgres_def)
  show "1 \<le> outbox_batch_size default_PactixConfig" by (simp add: default_PactixConfig_def)
qed (auto simp: example_claimed_def lease_expired_def example_outbox_row_def set_claimed_def unfinished_def
    unique_ids_def)

text \<open>Reclaiming returns to pending exactly the processing rows whose lease ended
  before \<open>t\<close>, reports their number, keeps their attempts and touches nothing else.\<close>

theorem outbox_reclaim_exact:
  assumes "db_session ex"
  shows "OutboxStore_reclaim_expired ex (utc t) tbl =
    Inr (int (length (filter (lease_expired t) tbl)),
         map (\<lambda>r. if lease_expired t r
               then r\<lparr>col_status := ''pending'', col_lease_until := None, col_updated_at := t\<rparr> else r) tbl)"
  using outbox_queue.reclaim_eq [OF assms] by (simp add: rowcount_def update_where_def set_reclaimed_def)

theorem outbox_reclaim_exact_witness:
  "\<exists>tbl. OutboxStore_reclaim_expired example_mysql (utc 30000051) example_claimed = Inr (2, tbl)"
  using outbox_reclaim_exact [of example_mysql 30000051 example_claimed]
  by (simp add: example_claimed_def lease_expired_def set_claimed_def example_outbox_row_def)

section \<open>PostgreSQL and MySQL\<close>

text \<open>Two records that differ at most in the order of their headers.\<close>

definition same_record :: "'a message_record_scheme \<Rightarrow> 'a message_record_scheme \<Rightarrow> bool" where
  "same_record r r' \<longleftrightarrow>
     r\<lparr>rec_headers := []\<rparr> = r'\<lparr>rec_headers := []\<rparr> \<and> map_of (rec_headers r) = map_of (rec_headers r')"

text \<open>
  The server does not take two different event types or ordering keys of the table for equal, as a collation
  that ignores case does.
\<close>

definition keys_distinguished :: "executor \<Rightarrow> outbox_table \<Rightarrow> bool" where
  "keys_distinguished ex tbl \<longleftrightarrow>
     (\<forall>r \<in> set tbl. \<forall>r' \<in> set tbl.
        (text_eq ex (col_event_type r) (col_event_type r') \<longrightarrow> col_event_type r = col_event_type r') \<and>
        (null_text_eq ex (col_ordering_key r) (col_ordering_key r') \<longrightarrow> col_ordering_key r = col_ordering_key r'))"

lemma text_eq_refl [simp]: "text_eq ex a a"
  by (simp add: text_eq_def)

lemma null_text_eq_Some: "null_text_eq ex a b \<longleftrightarrow> (\<exists>x y. a = Some x \<and> b = Some y \<and> text_eq ex x y)"
  by (cases a; cases b) auto

lemma postgres_text_eq: "postgres_driver ex \<Longrightarrow> text_eq ex a b \<longleftrightarrow> a = b"
  by (auto simp: text_eq_def dest: postgresD(4) injD)

lemma keys_distinguished_claimable:
  assumes pg: "postgres_driver pg" and keys: "keys_distinguished my tbl" and r: "r \<in> set tbl"
  shows "outbox_claimable my t tbl r = outbox_claimable pg t tbl r"
proof -
  have "text_eq my (col_event_type q) (col_event_type r) = text_eq pg (col_event_type q) (col_event_type r)"
    and "null_text_eq my (col_ordering_key q) (col_ordering_key r) = null_text_eq pg (col_ordering_key q) (col_ordering_key r)"
    if q: "q \<in> set tbl" for q
  proof -
    note same = keys [unfolded keys_distinguished_def, rule_format, OF q r]
    show "text_eq my (col_event_type q) (col_event_type r) = text_eq pg (col_event_type q) (col_event_type r)"
      using same by (auto simp: postgres_text_eq [OF pg])
    show "null_text_eq my (col_ordering_key q) (col_ordering_key r) = null_text_eq pg (col_ordering_key q) (col_ordering_key r)"
      using same by (cases "col_ordering_key q"; cases "col_ordering_key r") (auto simp: postgres_text_eq [OF pg])
  qed
  then show ?thesis by (auto simp: outbox_claimable_def list_ex_iff)
qed

lemma views_same_record:
  assumes "db_session ex" "db_session ex'" "wf_dict (col_headers r)"
  shows "same_record (outbox_view ex st r) (outbox_view ex' st r)"
  using assms db_session_json [OF assms(1)] db_session_json [OF assms(2)]
  by (simp add: same_record_def outbox_view_def json_faithful_def)

text \<open>Property C21: the two claim branches agree.  On one table, with the same rows locked by others, a PostgreSQL session and a
  MySQL session claim the same rows and leave the same table, and the records they return differ
  at most in the order of their headers, provided MySQL's collation does not take different keys of the
  table for equal.\<close>

theorem outbox_claim_dialects_agree:
  assumes pg: "postgres_session pg" and my: "mysql_session my" and u: "unique_ids tbl"
    and keys: "keys_distinguished my tbl" and locks: "ex_locked my = ex_locked pg"
    and headers: "\<And>r. r \<in> set tbl \<Longrightarrow> wf_dict (col_headers r)" and b: "0 \<le> outbox_batch_size cfg"
  shows "\<exists>ms ms' tbl'. OutboxStore_claim_ready cfg pg (utc t) tbl = Inr (ms, tbl')
    \<and> OutboxStore_claim_ready cfg my (utc t) tbl = Inr (ms', tbl') \<and> mset (map rec_id ms) = mset (map rec_id ms')
    \<and> (\<forall>m \<in> set ms. \<forall>m' \<in> set ms'. rec_id m = rec_id m' \<longrightarrow> same_record m m')"
proof -
  let ?set = "set_claimed (t + lease_duration cfg) t"
  have "filter (outbox_claimable my t tbl) tbl = filter (outbox_claimable pg t tbl) tbl"
    by (rule filter_cong) (simp_all add: keys_distinguished_claimable [OF session_driver(2) [OF pg] keys])
  then have select: "select_skip_locked my (outbox_claimable my t tbl) col_created_at n tbl =
      select_skip_locked pg (outbox_claimable pg t tbl) col_created_at n tbl" for n
    by (simp add: select_skip_locked_def select_order_by_def locks)
  obtain sel where
    sel: "select_skip_locked pg (outbox_claimable pg t tbl) col_created_at (outbox_batch_size cfg) tbl = Inr sel"
    using b by (simp add: select_skip_locked_def)
  obtain rows where claim: "OutboxStore_claim_ready cfg pg (utc t) tbl =
      Inr (map (outbox_view pg PROCESSING) rows, update_where (\<lambda>r. r \<in> set sel) ?set tbl)"
    and rows: "mset rows = mset (map ?set sel)"
    using claim_ready_postgres_selected [OF session_driver(2) [OF pg] u sel] by (elim exE conjE)
  note claim' = claim_ready_mysql_selected [OF session_driver(3) [OF my] u, of t cfg sel, unfolded select, OF sel]
  have "mset (map rec_id (map (outbox_view pg PROCESSING) rows)) = mset (map col_id rows)" by (simp add: comp_def)
  also have "\<dots> = mset (map rec_id (map (outbox_view my PROCESSING) (map ?set sel)))"
    using mset_map_claimed_ids [OF rows] by (simp add: comp_def)
  finally have ids: "mset (map rec_id (map (outbox_view pg PROCESSING) rows)) =
    mset (map rec_id (map (outbox_view my PROCESSING) (map ?set sel)))" .
  have "same_record m m'"
    if m: "m \<in> set (map (outbox_view pg PROCESSING) rows)" "m' \<in> set (map (outbox_view my PROCESSING) (map ?set sel))"
      and id: "rec_id m = rec_id m'" for m m'
  proof -
    obtain r r' where r: "r \<in> set sel" "m = outbox_view pg PROCESSING (?set r)"
      and r': "r' \<in> set sel" "m' = outbox_view my PROCESSING (?set r')"
      using m mset_eq_setD [OF rows] by auto
    have sub: "r \<in> set tbl" "r' \<in> set tbl" using select_skip_locked_sound(2) [OF sel] r(1) r'(1) by simp_all
    have "col_id r = col_id r'" using id by (simp add: r(2) r'(2))
    from unique_ids_inj [OF u sub this] have "r = r'" .
    moreover have "wf_dict (col_headers (?set r))" using headers [OF sub(1)] by (simp add: set_claimed_def)
    ultimately show ?thesis
      unfolding r(2) r'(2) using views_same_record [OF postgres_db_session [OF pg] mysql_db_session [OF my]] by simp
  qed
  then show ?thesis
    by (intro exI conjI ballI impI) (rule claim, rule claim', rule ids)
qed

theorem outbox_claim_dialects_agree_witness:
  "\<exists>ms ms' tbl'. OutboxStore_claim_ready default_PactixConfig (example_postgres\<lparr>ex_rank := \<lambda>i. 10 - i\<rparr>) (utc 50) example_outbox = Inr (ms, tbl')
    \<and> OutboxStore_claim_ready default_PactixConfig example_mysql (utc 50) example_outbox = Inr (ms', tbl')
    \<and> mset (map rec_id ms) = mset (map rec_id ms')"
proof -
  have pg: "postgres_session (example_postgres\<lparr>ex_rank := \<lambda>i. 10 - i\<rparr>)"
    by (simp add: example_postgres_def postgres_session_def driver_defs json_kept_def stores_all_def)
  have keys: "keys_distinguished example_mysql example_outbox"
    by (simp add: keys_distinguished_def example_outbox_def example_outbox_row_def)
  have headers: "wf_dict (col_headers r)" if "r \<in> set example_outbox" for r
    using that by (auto simp: example_outbox_def example_outbox_row_def)
  have locks: "ex_locked example_mysql = ex_locked (example_postgres\<lparr>ex_rank := \<lambda>i. 10 - i\<rparr>)"
    by (simp add: example_mysql_def)
  show ?thesis
    using outbox_claim_dialects_agree [OF pg example_mysql_session example_unique_ids(1) keys _ headers, of default_PactixConfig 50] locks
    by (auto simp: default_PactixConfig_def)
qed

text \<open>Property C40: where they differ: the migrations set no collation, and MySQL's default one ignores case.  Two due messages of one
  event type whose ordering keys differ only as the collation ignores are two keys on PostgreSQL, which claims
  both, and one key on MySQL, which holds the second back until the first is finished.\<close>

theorem outbox_gate_follows_collation:
  assumes pg: "postgres_session pg" and my: "mysql_session my"
    and rows: "col_id r \<noteq> col_id r'" "col_status r = ''pending''" "col_status r' = ''pending''"
      "col_available_at r \<le> t" "col_available_at r' \<le> t" "col_event_type r = col_event_type r'"
      "col_ordering_key r = Some k" "col_ordering_key r' = Some k'" "col_created_at r < col_created_at r'"
    and keys: "k \<noteq> k'" "text_eq my k k'"
    and free: "\<And>i. \<not> ex_locked pg i" "\<And>i. \<not> ex_locked my i" and b: "2 \<le> outbox_batch_size cfg"
  shows "\<exists>ms ms' tbl1 tbl2. OutboxStore_claim_ready cfg pg (utc t) [r, r'] = Inr (ms, tbl1)
    \<and> rec_id ` set ms = {col_id r, col_id r'}
    \<and> OutboxStore_claim_ready cfg my (utc t) [r, r'] = Inr (ms', tbl2) \<and> map rec_id ms' = [col_id r]
    \<and> row_of tbl2 (col_id r') = Some r'"
proof -
  have u: "unique_ids [r, r']" using rows(1) by (simp add: unique_ids_def)
  have "outbox_claimable pg t [r, r'] r" "outbox_claimable pg t [r, r'] r'"
    using rows keys(1) by (simp_all add: outbox_claimable_def postgres_text_eq [OF session_driver(2) [OF pg]])
  then have sel: "select_skip_locked pg (outbox_claimable pg t [r, r']) col_created_at (outbox_batch_size cfg) [r, r'] = Inr [r, r']"
    using b free rows(9) by (simp add: select_skip_locked_def select_order_by_def)
  have "outbox_claimable my t [r, r'] r" "\<not> outbox_claimable my t [r, r'] r'"
    using rows keys(2) by (simp_all add: outbox_claimable_def)
  then have sel': "select_skip_locked my (outbox_claimable my t [r, r']) col_created_at (outbox_batch_size cfg) [r, r'] = Inr [r]"
    using b free by (simp add: select_skip_locked_def select_order_by_def)
  let ?set = "set_claimed (t + lease_duration cfg) t"
  obtain rws tbl1 where claim: "OutboxStore_claim_ready cfg pg (utc t) [r, r'] = Inr (map (outbox_view pg PROCESSING) rws, tbl1)"
    and rws: "mset rws = mset (map ?set [r, r'])"
    using claim_ready_postgres_selected [OF session_driver(2) [OF pg] u sel] by blast
  have "rec_id ` set (map (outbox_view pg PROCESSING) rws) = {col_id r, col_id r'}"
    using mset_eq_setD [OF rws] by (simp add: image_image)
  moreover have "r' \<noteq> r" using rows(1) by auto
  then have "row_of (update_where (\<lambda>x. x \<in> set [r]) ?set [r, r']) (col_id r') = Some r'"
    using rows(1) by (simp add: row_of_def)
  ultimately show ?thesis using claim claim_ready_mysql_selected [OF session_driver(3) [OF my] u sel'] by auto
qed

theorem outbox_gate_follows_collation_witness:
  "\<exists>ms ms' tbl1 tbl2.
     OutboxStore_claim_ready default_PactixConfig example_postgres (utc 50)
       [example_outbox_row 1 (Some ''k'') 10, example_outbox_row 2 (Some ''K'') 20] = Inr (ms, tbl1)
     \<and> rec_id ` set ms = {1, 2}
     \<and> OutboxStore_claim_ready default_PactixConfig example_mysql (utc 50)
       [example_outbox_row 1 (Some ''k'') 10, example_outbox_row 2 (Some ''K'') 20] = Inr (ms', tbl2)
     \<and> map rec_id ms' = [1]"
proof -
  have "lower ''K'' = lower ''k''" by code_simp
  then have "text_eq example_mysql ''k'' ''K''" by (simp add: text_eq_def)
  then show ?thesis
    using outbox_gate_follows_collation [OF example_postgres_session example_mysql_session,
        of "example_outbox_row 1 (Some ''k'') 10" "example_outbox_row 2 (Some ''K'') 20" 50 "''k''" "''K''" default_PactixConfig]
    by (auto simp: example_outbox_row_def default_PactixConfig_def)
qed

section \<open>Refinement of the in-memory transitions\<close>

text \<open>The abstract store: the record stored under an id.\<close>

definition outbox_records :: "executor \<Rightarrow> outbox_table \<Rightarrow> uuid \<Rightarrow> OutboxMessageRecord option" where
  "outbox_records ex = records_by (outbox_map_record ex)"

definition known_statuses :: "outbox_table \<Rightarrow> bool" where
  "known_statuses tbl = list_all (\<lambda>r. col_status r \<in> OutboxStatus_as_str ` {PENDING, PROCESSING, PUBLISHED, OutboxStatus.FAILED}) tbl"

lemma known_statuses_in: "known_statuses tbl \<Longrightarrow> statuses_in OutboxStatus_as_str tbl"
  unfolding known_statuses_def statuses_in_def list_all_iff by blast

interpretation outbox_stored: record_view rec_id OutboxStatus_as_str outbox_map_record outbox_view
  by unfold_locales (simp_all add: outbox_map_record_view)

lemma set_published_simps [simp]:
  "col_id (set_published t r) = col_id r" "col_status (set_published t r) = ''published''"
  "col_attempts (set_published t r) = col_attempts r" "col_message_id (set_published t r) = col_message_id r"
  "col_lease_until (set_published t r) = None" "col_published_at (set_published t r) = Some t"
  by (simp_all add: set_published_def)

lemma settled_record:
  assumes "db_session ex"
  shows "outbox_map_record ex (set_published t r) =
      Inr (OutboxMessageRecord_mark_published (utc t) (utc t) (outbox_view ex st r))"
    and "outbox_map_record ex (set_retry e a t r) =
      Inr (OutboxMessageRecord_mark_retry (utc t) e (utc a) (outbox_view ex st r))"
    and "outbox_map_record ex (set_failed e t r) =
      Inr (OutboxMessageRecord_mark_failed (utc t) e (outbox_view ex st r))"
    and "outbox_map_record ex (set_claimed l t r) =
      Inr (OutboxMessageRecord_mark_processing (utc t) (utc l) (outbox_view ex st r))"
  using outbox_map_record_view [OF session_driver(1) [OF assms], of "set_published t r" PUBLISHED]
    outbox_map_record_view [OF session_driver(1) [OF assms], of "set_retry e a t r" PENDING]
    outbox_map_record_view [OF session_driver(1) [OF assms], of "set_failed e t r" OutboxStatus.FAILED]
    outbox_map_record_view [OF session_driver(1) [OF assms], of "set_claimed l t r" PROCESSING]
  by (simp_all add: outbox_view_def OutboxMessageRecord_mark_published_def OutboxMessageRecord_mark_retry_def
      OutboxMessageRecord_mark_failed_def OutboxMessageRecord_mark_processing_def set_defs set_published_def)

lemma outbox_records_settled:
  assumes ex: "db_session ex" and known: "known_statuses tbl"
  shows "outbox_records ex (update_where (\<lambda>r. col_id r = i) (set_published t) tbl) =
      (outbox_records ex tbl)(i := map_option (OutboxMessageRecord_mark_published (utc t) (utc t)) (outbox_records ex tbl i))"
    and "outbox_records ex (update_where (\<lambda>r. col_id r = i) (set_retry e a t) tbl) =
      (outbox_records ex tbl)(i := map_option (OutboxMessageRecord_mark_retry (utc t) e (utc a)) (outbox_records ex tbl i))"
    and "outbox_records ex (update_where (\<lambda>r. col_id r = i) (set_failed e t) tbl) =
      (outbox_records ex tbl)(i := map_option (OutboxMessageRecord_mark_failed (utc t) e) (outbox_records ex tbl i))"
  unfolding outbox_records_def
  by (rule outbox_stored.records_update_id [OF ex known_statuses_in [OF known]]; simp add: settled_record [OF ex])+

text \<open>Property C18: the store refines the in-memory record.  \<^verbatim>\<open>mark_published\<close>, \<^verbatim>\<open>mark_retry\<close> and
  \<^verbatim>\<open>mark_failed\<close> never raise on a table of known statuses, change the stored record of the given
  id by the method of \<^verbatim>\<open>OutboxMessageRecord\<close> of the same name, and keep every other record.\<close>

theorem outbox_marks_refine:
  assumes "db_session ex" and "known_statuses tbl" and "is_aware now" "is_aware av"
  shows "(\<exists>tbl'. OutboxStore_mark_published ex i now tbl = Inr tbl' \<and> outbox_records ex tbl' =
        (outbox_records ex tbl)(i := map_option
          (OutboxMessageRecord_mark_published (utc (instant now)) (utc (instant now))) (outbox_records ex tbl i)))
    \<and> (\<exists>tbl'. OutboxStore_mark_retry ex now i e av tbl = Inr tbl' \<and> outbox_records ex tbl' =
        (outbox_records ex tbl)(i := map_option
          (OutboxMessageRecord_mark_retry (utc (instant now)) e (utc (instant av))) (outbox_records ex tbl i)))
    \<and> (\<exists>tbl'. OutboxStore_mark_failed ex now i e tbl = Inr tbl' \<and> outbox_records ex tbl' =
        (outbox_records ex tbl)(i := map_option
          (OutboxMessageRecord_mark_failed (utc (instant now)) e) (outbox_records ex tbl i)))"
  by (simp add: mark_published_eq outbox_retry.mark_retry_eq outbox_retry.mark_failed_eq assms
      outbox_records_settled)

lemma example_known_statuses [simp]: "known_statuses example_outbox" "known_statuses example_claimed"
  by (simp_all add: known_statuses_def example_outbox_def example_claimed_def example_outbox_row_def set_claimed_def)

theorem outbox_marks_refine_witness:
  "\<exists>tbl'. OutboxStore_mark_failed example_mysql (Aware 7200000099 7200000000) 1 ''boom'' example_claimed = Inr tbl'
     \<and> outbox_records example_mysql tbl' = (outbox_records example_mysql example_claimed)(1 :=
         map_option (OutboxMessageRecord_mark_failed (utc 99) ''boom'') (outbox_records example_mysql example_claimed 1))"
  using outbox_marks_refine [of example_mysql example_claimed "Aware 7200000099 7200000000" "utc 0" 1 "''boom''"] by simp

text \<open>Property C19: claiming refines \<^verbatim>\<open>OutboxMessageRecord.mark_processing\<close>: the claimed ids' records
  move to processing, the rest stay, and what is returned is what is then stored.\<close>

theorem outbox_claim_refines:
  assumes "db_session ex" and "unique_ids tbl" and "known_statuses tbl"
    and "OutboxStore_claim_ready cfg ex (utc t) tbl = Inr (ms, tbl')"
  shows "outbox_records ex tbl' = (\<lambda>i. if i \<in> rec_id ` set ms
        then map_option (OutboxMessageRecord_mark_processing (utc t) (utc (t + lease_duration cfg))) (outbox_records ex tbl i)
        else outbox_records ex tbl i)
    \<and> (\<forall>m \<in> set ms. outbox_records ex tbl' (rec_id m) = Some m)"
proof -
  obtain sel rows where
    sel: "select_skip_locked ex (outbox_claimable ex t tbl) col_created_at (outbox_batch_size cfg) tbl = Inr sel"
    and tbl': "tbl' = update_where (\<lambda>r. r \<in> set sel) (set_claimed (t + lease_duration cfg) t) tbl"
    and ms: "ms = map (outbox_view ex PROCESSING) rows"
    and rows: "mset rows = mset (map (set_claimed (t + lease_duration cfg) t) sel)"
    using claim_ready_Inr [OF assms(1,2,4)] by blast
  have sub: "set sel \<subseteq> set tbl" using select_skip_locked_sound(2) [OF sel] by blast
  note claimed = outbox_stored.records_claim [where st = PROCESSING
      and g = "OutboxMessageRecord_mark_processing (utc t) (utc (t + lease_duration cfg))",
      OF assms(1,2) known_statuses_in [OF assms(3)] sub rows]
  show ?thesis
    unfolding outbox_records_def tbl' ms
    by (intro conjI ballI claimed) (simp_all add: settled_record(4) [OF assms(1)])
qed

theorem outbox_claim_refines_witness:
  "outbox_records example_postgres example_claimed 1 = Some (hd (example_claimed_records example_postgres))"
proof -
  let ?m = "hd (example_claimed_records example_postgres)"
  have "?m \<in> set (example_claimed_records example_postgres)" "rec_id ?m = 1"
    by (simp_all add: example_claimed_records_def example_outbox_row_def)
  then show ?thesis
    using outbox_claim_refines [OF postgres_db_session [OF example_postgres_session] example_unique_ids(1)
        example_known_statuses(1) example_claim(1)] by metis
qed

section \<open>Appending\<close>

definition pending_outbox_row :: "PactixConfig \<Rightarrow> uuid \<Rightarrow> int \<Rightarrow> MessageEnvelope \<Rightarrow> outbox_row" where
  "pending_outbox_row cfg i t envelope = \<lparr>
     col_id = i, col_message_id = md_message_id (env_metadata envelope),
     col_event_type = md_event_type (env_metadata envelope), col_message_key = md_message_key (env_metadata envelope),
     col_ordering_key = md_ordering_key (env_metadata envelope),
     col_correlation_id = md_correlation_id (env_metadata envelope), col_payload = env_payload envelope,
     col_headers = dict_sorted (md_headers (env_metadata envelope)), col_status = ''pending'',
     col_attempts = 0, col_max_attempts = rp_max_attempts (retry_policy cfg), col_available_at = t,
     col_lease_until = None, col_last_error = None, col_updated_at = t, col_created_at = t,
     col_published_at = None\<rparr>"

lemma pending_values:
  assumes "db_driver ex" and "OutboxMessageRecord_pending i (utc t) (env_metadata env) (env_payload env) (retry_policy cfg) = Inr rec"
  shows "outbox_record_values ex rec (ex_dialect ex) = pending_outbox_row cfg i t env"
  using assms
  by (auto simp: outbox_pending_Inr_iff outbox_record_values_def pending_outbox_row_def db_time_branch Let_def)

lemma pending_view_same:
  assumes "db_session ex" and "wf_dict (md_headers (env_metadata env))"
    and "OutboxMessageRecord_pending i (utc t) (env_metadata env) (env_payload env) (retry_policy cfg) = Inr rec"
  shows "same_record (outbox_view ex PENDING (pending_outbox_row cfg i t env)) rec"
  using assms db_session_json [OF assms(1)]
  by (auto simp: same_record_def outbox_view_def pending_outbox_row_def outbox_pending_Inr_iff
      json_faithful_def map_of_dict_sorted)

lemma append_cases:
  assumes ex: "db_driver ex" and valid: "valid_metadata (env_metadata env)"
  obtains rec where
    "OutboxMessageRecord_pending i (utc t) (env_metadata env) (env_payload env) (retry_policy cfg) = Inr rec"
    and "OutboxStore_append cfg ex i (utc t) env tbl =
      res_bind (outbox_insert ex (pending_outbox_row cfg i t env) tbl) (\<lambda>tbl'.
        Inr (if ex_dialect ex = MYSQL then rec else outbox_view ex PENDING (pending_outbox_row cfg i t env), tbl'))"
proof -
  obtain rec where
    rec: "OutboxMessageRecord_pending i (utc t) (env_metadata env) (env_payload env) (retry_policy cfg) = Inr rec"
    using valid by (simp add: outbox_pending_Inr_iff)
  have "outbox_map_record ex (pending_outbox_row cfg i t env) =
      Inr (outbox_view ex PENDING (pending_outbox_row cfg i t env))"
    by (rule outbox_map_record_view [OF ex]) (simp add: pending_outbox_row_def)
  then have "OutboxStore_append cfg ex i (utc t) env tbl =
      res_bind (outbox_insert ex (pending_outbox_row cfg i t env) tbl) (\<lambda>tbl'.
        Inr (if ex_dialect ex = MYSQL then rec else outbox_view ex PENDING (pending_outbox_row cfg i t env), tbl'))"
    using rec pending_values [OF ex rec]
    by (cases "ex_dialect ex = MYSQL") (simp_all add: OutboxStore_append_def ex Let_def)
  with rec that show thesis by blast
qed

lemma pending_insert_Inr:
  "outbox_insert ex (pending_outbox_row cfg i t env) tbl = Inr tbl' \<longleftrightarrow>
     outbox_fits ex (pending_outbox_row cfg i t env) \<and> tbl' = tbl @ [pending_outbox_row cfg i t env] \<and>
     (\<forall>r \<in> set tbl. col_id r \<noteq> i \<and> \<not> text_eq ex (md_message_id (env_metadata env)) (col_message_id r))"
  by (auto simp: outbox_insert_def insert_unique_Inr outbox_conflict_def pending_outbox_row_def)

lemma pending_fits:
  "outbox_fits ex (pending_outbox_row cfg i t env) \<longleftrightarrow>
     ex_fits ex (md_message_id (env_metadata env)) \<and> ex_fits ex (md_event_type (env_metadata env)) \<and>
     pred_option (ex_fits ex) (md_ordering_key (env_metadata env)) \<and>
     pred_option (ex_fits ex) (md_correlation_id (env_metadata env)) \<and>
     pred_option (ex_text_ok ex) (md_message_key (env_metadata env)) \<and>
     ex_json_ok ex (env_payload env) \<and> ex_json_ok ex (headers_json (dict_sorted (md_headers (env_metadata env)))) \<and>
     ex_int_ok ex 0 \<and> ex_int_ok ex (rp_max_attempts (retry_policy cfg))"
  by (auto simp: outbox_fits_def row_stored_def pending_outbox_row_def)

lemma append_valid:
  "OutboxStore_append cfg ex i now env tbl = Inr x \<Longrightarrow> valid_metadata (env_metadata env)"
  by (auto simp: OutboxStore_append_def outbox_pending_Inr_iff)

text \<open>Property C23: an append succeeds exactly when the metadata is valid, every column can hold its value (the
  indexed texts, the message key, the payload, the headers and the attempt limit) and neither
  the id nor the message id is taken, under the server's text comparison.\<close>

theorem outbox_append_succeeds_iff:
  assumes "db_driver ex"
  shows "(\<exists>rec tbl'. OutboxStore_append cfg ex i (utc t) env tbl = Inr (rec, tbl')) \<longleftrightarrow>
      valid_metadata (env_metadata env)
      \<and> ex_fits ex (md_message_id (env_metadata env)) \<and> ex_fits ex (md_event_type (env_metadata env))
      \<and> pred_option (ex_fits ex) (md_ordering_key (env_metadata env))
      \<and> pred_option (ex_fits ex) (md_correlation_id (env_metadata env))
      \<and> pred_option (ex_text_ok ex) (md_message_key (env_metadata env))
      \<and> ex_json_ok ex (env_payload env) \<and> ex_json_ok ex (headers_json (dict_sorted (md_headers (env_metadata env))))
      \<and> ex_int_ok ex 0 \<and> ex_int_ok ex (rp_max_attempts (retry_policy cfg))
      \<and> (\<forall>r \<in> set tbl. col_id r \<noteq> i \<and> \<not> text_eq ex (md_message_id (env_metadata env)) (col_message_id r))"
proof (cases "valid_metadata (env_metadata env)")
  case True
  then show ?thesis
    by (rule append_cases [OF assms, of env i t cfg tbl]) (auto simp: pending_insert_Inr True pending_fits)
next
  case False
  then show ?thesis using append_valid by blast
qed

text \<open>Property C22: an append adds exactly one row, pending, due at once and without attempts; the
  record returned and the record read back from the row are both the message's fresh pending
  record, on PostgreSQL (\<^verbatim>\<open>RETURNING\<close>) and on MySQL.\<close>

theorem outbox_append_round_trip:
  assumes "db_session ex" and "wf_dict (md_headers (env_metadata env))"
    and app: "OutboxStore_append cfg ex i (utc t) env tbl = Inr (rec, tbl')"
  shows "\<exists>row stored fresh. tbl' = tbl @ [row]
    \<and> col_status row = ''pending'' \<and> col_attempts row = 0 \<and> col_available_at row = t
    \<and> outbox_map_record ex row = Inr stored
    \<and> OutboxMessageRecord_pending i (utc t) (env_metadata env) (env_payload env) (retry_policy cfg) = Inr fresh
    \<and> same_record stored fresh \<and> same_record rec fresh"
proof -
  let ?row = "pending_outbox_row cfg i t env"
  obtain fresh where
    fresh: "OutboxMessageRecord_pending i (utc t) (env_metadata env) (env_payload env) (retry_policy cfg) = Inr fresh"
    and eq: "OutboxStore_append cfg ex i (utc t) env tbl =
      res_bind (outbox_insert ex ?row tbl) (\<lambda>tbl'.
        Inr (if ex_dialect ex = MYSQL then fresh else outbox_view ex PENDING ?row, tbl'))"
    using append_cases [OF session_driver(1) [OF assms(1)] append_valid [OF app]] by blast
  have "outbox_map_record ex ?row = Inr (outbox_view ex PENDING ?row)"
    by (rule outbox_map_record_view [OF session_driver(1) [OF assms(1)]]) (simp add: pending_outbox_row_def)
  moreover have "tbl' = tbl @ [?row]" "rec = fresh \<or> rec = outbox_view ex PENDING ?row"
    using app by (auto simp: eq pending_insert_Inr split: if_splits)
  moreover have "same_record fresh fresh" by (simp add: same_record_def)
  moreover have "col_status ?row = ''pending''" "col_attempts ?row = 0" "col_available_at ?row = t"
    by (simp_all add: pending_outbox_row_def)
  ultimately show ?thesis using fresh pending_view_same [OF assms(1,2) fresh] by blast
qed

definition example_envelope :: MessageEnvelope where
  "example_envelope = \<lparr>
     env_metadata = with_headers [(''b'', ''2''), (''a'', ''1'')] (MessageMetadata_new ''id-1'' ''order.created'' (utc 5)),
     env_payload = JObj [(''total'', JInt 7)]\<rparr>"

lemma example_envelope_valid [simp]:
  "valid_metadata (env_metadata example_envelope)" "wf_dict (md_headers (env_metadata example_envelope))"
  by (simp_all add: example_envelope_def valid_metadata_def builder_defs blank_iff is_space_def code_point_def
      wf_dict_def)

text \<open>The message as it is can be appended on the strict server; with a NUL in its message key or NaN as its payload it cannot.\<close>

theorem outbox_append_succeeds_iff_witness:
  "(\<exists>rec tbl'. OutboxStore_append default_PactixConfig strict_postgres 9 (utc 5) example_envelope example_outbox = Inr (rec, tbl'))
   \<and> \<not> (\<exists>rec tbl'. OutboxStore_append default_PactixConfig strict_postgres 9 (utc 5)
         (example_envelope\<lparr>env_metadata := with_message_key [CHR 0x00] (env_metadata example_envelope)\<rparr>) example_outbox = Inr (rec, tbl'))
   \<and> \<not> (\<exists>rec tbl'. OutboxStore_append default_PactixConfig strict_postgres 9 (utc 5)
         (example_envelope\<lparr>env_payload := JFloat NaN\<rparr>) example_outbox = Inr (rec, tbl'))"
proof -
  note iff = outbox_append_succeeds_iff [of strict_postgres, OF postgres_db_driver [OF strict_postgres_driver]]
  have "valid_metadata (env_metadata example_envelope)" by simp
  moreover have "\<forall>r \<in> set example_outbox. col_id r \<noteq> 9 \<and>
      \<not> text_eq strict_postgres (md_message_id (env_metadata example_envelope)) (col_message_id r)"
    by (simp add: example_outbox_def example_outbox_row_def example_envelope_def builder_defs
        postgres_text_eq [OF strict_postgres_driver])
  moreover have "ex_json_ok strict_postgres (headers_json (dict_sorted (md_headers (env_metadata example_envelope))))"
    by (simp add: strict_postgres_def headers_json_def example_envelope_def builder_defs dict_sorted_def)
  ultimately show ?thesis
    unfolding iff
    by (simp add: strict_postgres_def example_envelope_def builder_defs default_PactixConfig_def default_RetryPolicy_def)
qed

lemma example_append:
  "OutboxStore_append default_PactixConfig example_postgres 9 (utc 5) example_envelope [] =
     Inr (outbox_view example_postgres PENDING (pending_outbox_row default_PactixConfig 9 5 example_envelope),
          [pending_outbox_row default_PactixConfig 9 5 example_envelope])"
proof -
  let ?row = "pending_outbox_row default_PactixConfig 9 5 example_envelope"
  have ins: "outbox_insert example_postgres ?row [] = Inr [?row]"
    unfolding pending_insert_Inr
    by (simp add: outbox_fits_def row_stored_session [of example_postgres] pending_outbox_row_def example_envelope_def builder_defs)
  show ?thesis
    by (rule append_cases [of example_postgres example_envelope 9 5 default_PactixConfig "[]"])
      (simp_all add: ins)
qed

theorem outbox_append_round_trip_witness:
  "\<exists>row stored fresh. [pending_outbox_row default_PactixConfig 9 5 example_envelope] = [row]
     \<and> outbox_map_record example_postgres row = Inr stored
     \<and> OutboxMessageRecord_pending 9 (utc 5) (env_metadata example_envelope) (env_payload example_envelope)
         default_RetryPolicy = Inr fresh
     \<and> same_record stored fresh"
  using outbox_append_round_trip [OF postgres_db_session [OF example_postgres_session] example_envelope_valid(2)
      example_append]
  unfolding append_Nil by (auto simp: default_PactixConfig_def)

section \<open>Every table the store can build\<close>

text \<open>
  One store call by any worker, at any time, under any configuration, in any order: what a
  committed transaction may do to the table.
\<close>

inductive outbox_call :: "executor \<Rightarrow> outbox_table \<Rightarrow> outbox_table \<Rightarrow> bool" for ex where
  append: "OutboxStore_append cfg ex i (utc t) env tbl = Inr (rec, tbl') \<Longrightarrow> outbox_call ex tbl tbl'"
| reclaim: "OutboxStore_reclaim_expired ex (utc t) tbl = Inr (n, tbl') \<Longrightarrow> outbox_call ex tbl tbl'"
| claim: "OutboxStore_claim_ready cfg ex (utc t) tbl = Inr (ms, tbl') \<Longrightarrow> outbox_call ex tbl tbl'"
| published: "OutboxStore_mark_published ex i (utc t) tbl = Inr tbl' \<Longrightarrow> outbox_call ex tbl tbl'"
| retry: "OutboxStore_mark_retry ex (utc t) i e (utc av) tbl = Inr tbl' \<Longrightarrow> outbox_call ex tbl tbl'"
| failed: "OutboxStore_mark_failed ex (utc t) i e tbl = Inr tbl' \<Longrightarrow> outbox_call ex tbl tbl'"

definition outbox_row_ok :: "outbox_row \<Rightarrow> bool" where
  "outbox_row_ok r \<longleftrightarrow>
     col_status r \<in> {''pending'', ''processing'', ''published'', ''failed''} \<and>
     (col_status r = ''processing'' \<longleftrightarrow> col_lease_until r \<noteq> None) \<and>
     (col_status r = ''published'' \<longrightarrow> col_published_at r \<noteq> None) \<and>
     0 \<le> col_attempts r \<and>
     (col_status r = ''failed'' \<longrightarrow> 0 < col_attempts r \<and> col_last_error r \<noteq> None)"

definition outbox_invariant :: "executor \<Rightarrow> outbox_table \<Rightarrow> bool" where
  "outbox_invariant ex tbl \<longleftrightarrow>
     unique_ids tbl \<and> distinct (map (\<lambda>r. ex_collate ex (col_message_id r)) tbl) \<and> list_all outbox_row_ok tbl"

lemma set_keeps_message_id [simp]:
  "col_message_id (set_claimed l n r) = col_message_id r" "col_message_id (set_reclaimed n r) = col_message_id r"
  "col_message_id (set_retry e a n r) = col_message_id r" "col_message_id (set_failed e n r) = col_message_id r"
  by (simp_all add: set_defs)

lemma outbox_row_ok_set:
  "outbox_row_ok r \<Longrightarrow> outbox_row_ok (set_claimed l t r)"
  "outbox_row_ok r \<Longrightarrow> outbox_row_ok (set_reclaimed t r)"
  "outbox_row_ok r \<Longrightarrow> outbox_row_ok (set_retry e a t r)"
  "outbox_row_ok r \<Longrightarrow> outbox_row_ok (set_failed e t r)"
  "outbox_row_ok r \<Longrightarrow> outbox_row_ok (set_published t r)"
  by (auto simp: outbox_row_ok_def set_defs set_published_def)

lemma outbox_invariant_update:
  assumes "outbox_invariant ex tbl" and "\<And>r. col_id (f r) = col_id r"
    and "\<And>r. col_message_id (f r) = col_message_id r" and "\<And>r. outbox_row_ok r \<Longrightarrow> outbox_row_ok (f r)"
  shows "outbox_invariant ex (update_where p f tbl)"
  using assms by (auto simp: outbox_invariant_def map_update_where_keeps list_all_iff set_update_where)

lemma outbox_invariant_set:
  assumes "outbox_invariant ex tbl"
  shows "outbox_invariant ex (update_where p (set_claimed l t) tbl)"
    and "outbox_invariant ex (update_where p (set_reclaimed t) tbl)"
    and "outbox_invariant ex (update_where p (set_retry e a t) tbl)"
    and "outbox_invariant ex (update_where p (set_failed e t) tbl)"
    and "outbox_invariant ex (update_where p (set_published t) tbl)"
  by (rule outbox_invariant_update [OF assms]; simp add: outbox_row_ok_set)+

lemma outbox_invariant_append:
  assumes ex: "db_session ex" and inv: "outbox_invariant ex tbl"
    and app: "OutboxStore_append cfg ex i (utc t) env tbl = Inr (rec, tbl')"
  shows "outbox_invariant ex tbl'"
proof -
  let ?row = "pending_outbox_row cfg i t env"
  have "outbox_insert ex ?row tbl = Inr tbl'"
    by (rule append_cases [OF session_driver(1) [OF ex] append_valid [OF app], of i t cfg tbl]) (use app in auto)
  moreover have "outbox_row_ok ?row" "col_id ?row = i" "col_message_id ?row = md_message_id (env_metadata env)"
    by (simp_all add: outbox_row_ok_def pending_outbox_row_def)
  ultimately show ?thesis
    using inv by (auto simp: pending_insert_Inr outbox_invariant_def unique_ids_def text_eq_def)
qed

lemma outbox_call_invariant:
  assumes "outbox_call ex tbl tbl'" and ex: "db_session ex" and inv: "outbox_invariant ex tbl"
  shows "outbox_invariant ex tbl'"
  using assms(1)
proof cases
  case append
  then show ?thesis using outbox_invariant_append ex inv by blast
next
  case reclaim
  then show ?thesis
    using inv by (auto simp: outbox_queue.reclaim_eq [OF ex] outbox_invariant_set)
next
  case (claim cfg t ms)
  have u: "unique_ids tbl" using inv by (simp add: outbox_invariant_def)
  show ?thesis
    by (rule claim_ready_Inr [OF ex u claim]) (simp add: inv outbox_invariant_set)
next
  case published
  then show ?thesis
    using inv by (auto simp: mark_published_eq [OF ex] outbox_invariant_set)
next
  case retry
  then show ?thesis
    using inv by (auto simp: outbox_retry.mark_retry_eq [OF ex] outbox_invariant_set)
next
  case failed
  then show ?thesis
    using inv by (auto simp: outbox_retry.mark_failed_eq [OF ex] outbox_invariant_set)
qed

text \<open>Property C13: in every table that any sequence of store calls builds from an empty one, ids and
  message ids are unique, every status is a member of the enumeration, a row has a lease exactly
  while it is processing, a published row has its publication time, and a failed row has an
  error and at least one attempt.\<close>

theorem outbox_reachable_invariant:
  assumes "db_session ex" and "(outbox_call ex)\<^sup>*\<^sup>* [] tbl"
  shows "outbox_invariant ex tbl"
  using assms(2)
proof (induction rule: rtranclp_induct)
  case base
  show ?case by (simp add: outbox_invariant_def unique_ids_def)
next
  case (step tbl tbl')
  then show ?case using outbox_call_invariant assms(1) by blast
qed

theorem outbox_reachable_invariant_witness:
  "\<exists>tbl. length tbl = 1 \<and> (outbox_call example_postgres)\<^sup>*\<^sup>* [] tbl \<and> outbox_invariant example_postgres tbl"
proof -
  let ?tbl = "[pending_outbox_row default_PactixConfig 9 5 example_envelope]"
  have "(outbox_call example_postgres)\<^sup>*\<^sup>* [] ?tbl" using example_append by (blast intro: outbox_call.append)
  then have "(outbox_call example_postgres)\<^sup>*\<^sup>* [] ?tbl \<and> outbox_invariant example_postgres ?tbl"
    using outbox_reachable_invariant [of example_postgres ?tbl] by simp
  then show ?thesis by (intro exI [of _ ?tbl]) simp
qed

end
