(* ===== verification/Routing.thy ===== *)
theory Routing
  imports Prelude
begin

text \<open>
  The interface shared by the three tables that map an event type to a destination:
  \<^verbatim>\<open>PublisherRegistry\<close>, \<^verbatim>\<open>KafkaTopicRouter\<close> and \<^verbatim>\<open>HttpEndpointRouter\<close>.  Each keeps a
  dictionary under an \<^verbatim>\<open>asyncio.Lock\<close>, so that registrations and lookups run one at a time.
\<close>

text \<open>
  \<open>usable\<close> are the destinations a lookup hands out: the registry's \<^verbatim>\<open>or\<close> passes over an
  object whose truth value is false.
\<close>

locale router =
  fixes usable :: "'d \<Rightarrow> bool"
    and register :: "string \<Rightarrow> 'd \<Rightarrow> 'r \<Rightarrow> 'r"
    and resolve :: "'r \<Rightarrow> string \<Rightarrow> error + 'd"
  assumes resolve_same: "usable d \<Longrightarrow> resolve (register k d r) k = Inr d"
    and resolve_other: "k' \<noteq> k \<Longrightarrow> resolve (register k d r) k' = resolve r k'"
    and resolve_error: "resolve r k = Inl e \<Longrightarrow> \<exists>s. e = RoutingError s"
begin

text \<open>The last registration of an event type wins, and the order of the others is immaterial.\<close>

lemma last_registration_wins:
  "usable d' \<Longrightarrow> resolve (register k d' (register k d r)) k' = (if k' = k then Inr d' else resolve r k')"
  by (simp add: resolve_same resolve_other)

lemma registrations_commute:
  assumes "k \<noteq> k'" and "usable d" and "usable d'"
  shows "resolve (register k d (register k' d' r)) j = resolve (register k' d' (register k d r)) j"
  using assms by (cases "j = k"; cases "j = k'") (simp_all add: resolve_same resolve_other)

lemma register_fold:
  assumes "usable d"
  shows "resolve (fold (\<lambda>k. register k d) ks r) j = (if j \<in> set ks then Inr d else resolve r j)"
proof (induction ks arbitrary: r)
  case Nil
  then show ?case by simp
next
  case (Cons k ks)
  then show ?case using assms by (cases "j = k") (simp_all add: resolve_same resolve_other)
qed

end

text \<open>A dictionary lookup that raises when the key is absent: two of the three tables.\<close>

definition dict_resolve :: "string \<Rightarrow> (string \<times> 'd) list \<Rightarrow> string \<Rightarrow> error + 'd" where
  "dict_resolve what d k =
     (case map_of d k of
        None \<Rightarrow> Inl (RoutingError (''no '' @ what @ '' registered for '' @ quoted k))
      | Some v \<Rightarrow> Inr v)"

lemma dict_resolve_update:
  "dict_resolve what (AList.update k v d) k' = (if k' = k then Inr v else dict_resolve what d k')"
  by (simp add: dict_resolve_def update_conv')

lemma dict_resolve_error: "dict_resolve what d k = Inl e \<Longrightarrow> \<exists>s. e = RoutingError s"
  by (auto simp: dict_resolve_def split: option.splits)

end
