(* ===== verification/Publisher.thy ===== *)
theory Publisher
  imports OutboxModel Routing
begin

text \<open>
  \<^verbatim>\<open>outbox/publisher.py\<close>: publish outcomes and the registry that finds the publisher of an
  event type.  A publisher is an object of the application: \<open>truthy\<close> is its truth value (the
  registry's \<^verbatim>\<open>or\<close> reads it) and \<open>call\<close> what awaiting its \<^verbatim>\<open>publish\<close> answers or raises.
\<close>

datatype PublishKind = KIND_PUBLISHED | KIND_RETRYABLE | KIND_TERMINAL

record PublishOutcome =
  po_kind :: PublishKind
  po_message :: "string option"

definition PublishOutcome_published :: PublishOutcome where
  "PublishOutcome_published = \<lparr>po_kind = KIND_PUBLISHED, po_message = None\<rparr>"

definition PublishOutcome_retryable :: "string \<Rightarrow> PublishOutcome" where
  "PublishOutcome_retryable msg = \<lparr>po_kind = KIND_RETRYABLE, po_message = Some msg\<rparr>"

definition PublishOutcome_terminal :: "string \<Rightarrow> PublishOutcome" where
  "PublishOutcome_terminal msg = \<lparr>po_kind = KIND_TERMINAL, po_message = Some msg\<rparr>"

definition PublishOutcome_is_published :: "PublishOutcome \<Rightarrow> bool" where
  "PublishOutcome_is_published o' = (po_kind o' = KIND_PUBLISHED)"

definition PublishOutcome_is_retryable :: "PublishOutcome \<Rightarrow> bool" where
  "PublishOutcome_is_retryable o' = (po_kind o' = KIND_RETRYABLE)"

definition PublishOutcome_is_terminal :: "PublishOutcome \<Rightarrow> bool" where
  "PublishOutcome_is_terminal o' = (po_kind o' = KIND_TERMINAL)"

lemmas outcome_tests =
  PublishOutcome_is_published_def PublishOutcome_is_retryable_def PublishOutcome_is_terminal_def

lemmas outcome_defs =
  PublishOutcome_published_def PublishOutcome_retryable_def PublishOutcome_terminal_def

text \<open>\<^verbatim>\<open>outbox_publisher(fn)\<close> wraps an async function as a publisher object.\<close>

datatype FnOutboxPublisher = FnOutboxPublisher (fn_publish: "OutboxMessageRecord \<Rightarrow> error + PublishOutcome")

definition outbox_publisher :: "(OutboxMessageRecord \<Rightarrow> error + PublishOutcome) \<Rightarrow> FnOutboxPublisher" where
  "outbox_publisher publish = FnOutboxPublisher publish"

definition FnOutboxPublisher_publish :: "FnOutboxPublisher \<Rightarrow> OutboxMessageRecord \<Rightarrow> error + PublishOutcome" where
  "FnOutboxPublisher_publish p record = fn_publish p record"

section \<open>The registry\<close>

record 'p PublisherRegistry =
  reg_publishers :: "(string \<times> 'p) list"
  reg_catch_all :: "'p option"

definition PublisherRegistry_new :: "'p PublisherRegistry" where
  "PublisherRegistry_new = \<lparr>reg_publishers = [], reg_catch_all = None\<rparr>"

definition PublisherRegistry_register :: "string \<Rightarrow> 'p \<Rightarrow> 'p PublisherRegistry \<Rightarrow> 'p PublisherRegistry" where
  "PublisherRegistry_register event_type p reg =
     reg\<lparr>reg_publishers := AList.update event_type p (reg_publishers reg)\<rparr>"

fun PublisherRegistry_register_many :: "string list \<Rightarrow> 'p \<Rightarrow> 'p PublisherRegistry \<Rightarrow> 'p PublisherRegistry" where
  "PublisherRegistry_register_many [] p reg = reg"
| "PublisherRegistry_register_many (event_type # event_types) p reg =
     PublisherRegistry_register_many event_types p
       (reg\<lparr>reg_publishers := AList.update event_type p (reg_publishers reg)\<rparr>)"

definition PublisherRegistry_register_all :: "'p \<Rightarrow> 'p PublisherRegistry \<Rightarrow> 'p PublisherRegistry" where
  "PublisherRegistry_register_all p reg = reg\<lparr>reg_catch_all := Some p\<rparr>"

definition PublisherRegistry_resolve ::
  "('p \<Rightarrow> bool) \<Rightarrow> 'p PublisherRegistry \<Rightarrow> string \<Rightarrow> error + 'p" where
  "PublisherRegistry_resolve truthy reg event_type =
     (let publisher =
        (case map_of (reg_publishers reg) event_type of
           Some p \<Rightarrow> if truthy p then Some p else reg_catch_all reg
         | None \<Rightarrow> reg_catch_all reg)
      in case publisher of
           None \<Rightarrow> Inl (RoutingError (''no publisher registered for '' @ quoted event_type))
         | Some p \<Rightarrow> Inr p)"

definition PublisherRegistry_publish ::
  "('p \<Rightarrow> bool) \<Rightarrow> ('p \<Rightarrow> OutboxMessageRecord \<Rightarrow> error + PublishOutcome)
   \<Rightarrow> 'p PublisherRegistry \<Rightarrow> OutboxMessageRecord \<Rightarrow> error + PublishOutcome" where
  "PublisherRegistry_publish truthy call reg record =
     res_bind (PublisherRegistry_resolve truthy reg (rec_event_type record)) (\<lambda>publisher. call publisher record)"

interpretation registry: router truthy PublisherRegistry_register "PublisherRegistry_resolve truthy" for truthy
proof (unfold_locales, goal_cases)
  case (1 d k r)
  then show ?case by (simp add: PublisherRegistry_resolve_def PublisherRegistry_register_def update_conv')
next
  case (2 k' k d r)
  then show ?case
    by (simp add: PublisherRegistry_resolve_def PublisherRegistry_register_def update_conv' split: option.split)
next
  case (3 r k e)
  then show ?case by (auto simp: PublisherRegistry_resolve_def Let_def split: option.splits if_splits)
qed

lemma register_many_fold:
  "PublisherRegistry_register_many ks p reg = fold (\<lambda>k. PublisherRegistry_register k p) ks reg"
  by (induction ks arbitrary: reg) (simp_all add: PublisherRegistry_register_def)

lemma register_keeps_catch_all [simp]:
  "reg_catch_all (PublisherRegistry_register_many ks p reg) = reg_catch_all reg"
  by (induction ks arbitrary: reg) simp_all

lemma resolve_register_all:
  "PublisherRegistry_resolve truthy (PublisherRegistry_register_all q reg) k =
     (case PublisherRegistry_resolve truthy (reg\<lparr>reg_catch_all := None\<rparr>) k of Inl _ \<Rightarrow> Inr q | Inr p \<Rightarrow> Inr p)"
  by (auto simp: PublisherRegistry_resolve_def PublisherRegistry_register_all_def split: option.splits)

text \<open>Exact registrations take precedence over the catch-all whichever was registered
  first, every type of a \<^verbatim>\<open>register_many\<close> call is covered, any other type goes to the catch-all,
  and without a catch-all an unregistered type raises \<^verbatim>\<open>RoutingError\<close>.\<close>

theorem registry_precedence:
  assumes "truthy p"
  shows "PublisherRegistry_resolve truthy
        (PublisherRegistry_register_all q (PublisherRegistry_register_many ks p PublisherRegistry_new)) k
      = (if k \<in> set ks then Inr p else Inr q)
    \<and> PublisherRegistry_resolve truthy
        (PublisherRegistry_register_many ks p (PublisherRegistry_register_all q PublisherRegistry_new)) k
      = (if k \<in> set ks then Inr p else Inr q)
    \<and> PublisherRegistry_resolve truthy (PublisherRegistry_register_many ks p PublisherRegistry_new) k
      = (if k \<in> set ks then Inr p else Inl (RoutingError (''no publisher registered for '' @ quoted k)))"
proof -
  have none: "PublisherRegistry_register_many ks p PublisherRegistry_new\<lparr>reg_catch_all := None\<rparr>
      = PublisherRegistry_register_many ks p PublisherRegistry_new"
    by (intro PublisherRegistry.equality) (simp_all add: PublisherRegistry_new_def)
  have new: "PublisherRegistry_resolve truthy PublisherRegistry_new k =
      Inl (RoutingError (''no publisher registered for '' @ quoted k))"
    "PublisherRegistry_resolve truthy (PublisherRegistry_register_all q PublisherRegistry_new) k = Inr q"
    by (simp_all add: PublisherRegistry_resolve_def PublisherRegistry_register_all_def PublisherRegistry_new_def)
  show ?thesis
    unfolding resolve_register_all none
    by (simp add: register_many_fold registry.register_fold [of truthy p] assms new split: sum.split)
qed

theorem registry_precedence_witness:
  "PublisherRegistry_resolve (\<lambda>_. True)
     (PublisherRegistry_register_all (2 :: nat) (PublisherRegistry_register_many [''a'', ''b''] 1 PublisherRegistry_new)) ''b''
   = Inr 1"
  using registry_precedence [of "\<lambda>_. True" 1 "2 :: nat" "[''a'', ''b'']" "''b''"] by simp

text \<open>A record the transports' examples send.\<close>

definition example_outbox_record :: OutboxMessageRecord where
  "example_outbox_record = \<lparr>
     rec_id = 1, rec_message_id = ''m-1'', rec_event_type = ''order.created'', rec_message_key = None,
     rec_ordering_key = Some ''k'', rec_correlation_id = None, rec_payload = JNull, rec_headers = [(''h'', ''v'')],
     rec_attempts = 0, rec_max_attempts = 10, rec_available_at = utc 5, rec_lease_until = None,
     rec_last_error = None, rec_updated_at = utc 5, ob_status = OutboxStatus.PENDING, ob_created_at = utc 5,
     ob_published_at = None\<rparr>"

end
