(* ===== verification/RunnerLoop.thy ===== *)
theory RunnerLoop
  imports LeaseQueue
begin

text \<open>
  The loop \<^verbatim>\<open>for row in claimed_rows\<close> of both runners, generic in what is done for one row.
  \<open>step k row\<close> is the work on row number \<open>k\<close>: the callbacks, which run outside any transaction,
  and the transaction that records their outcome; it answers the new counters and the table it
  commits, or the exception that ends the pass.  \<open>others k\<close> is what other transactions committed
  before that transaction.
\<close>

fun settle_loop ::
  "(nat \<Rightarrow> 'm \<Rightarrow> 's \<Rightarrow> 't \<Rightarrow> error + ('s \<times> 't)) \<Rightarrow> (nat \<Rightarrow> 't \<Rightarrow> 't) \<Rightarrow> nat \<Rightarrow> 'm list \<Rightarrow> 's \<Rightarrow> 't
   \<Rightarrow> (error + 's) \<times> 't" where
  "settle_loop step others k [] summary tbl = (Inr summary, tbl)"
| "settle_loop step others k (row # rows) summary tbl =
     (let tbl0 = others k tbl
      in case step k row summary tbl0 of
           Inl e \<Rightarrow> (Inl e, tbl0)
         | Inr (summary', tbl') \<Rightarrow> settle_loop step others (k + 1) rows summary' tbl')"

text \<open>\<^verbatim>\<open>outcome.message or ''\<close>\<close>

definition or_empty :: "string option \<Rightarrow> string" where
  "or_empty m = (case m of None \<Rightarrow> [] | Some s \<Rightarrow> s)"

definition sane_policy :: "(pyfloat \<Rightarrow> int \<Rightarrow> error + pyfloat) \<Rightarrow> RetryPolicy \<Rightarrow> bool" where
  "sane_policy fpow policy \<longleftrightarrow> pow_nonneg fpow (rp_multiplier policy) \<and> sane_intervals policy"

text \<open>The environment of a pass: sessions on a supported database, clock readings in UTC and a retry
  policy whose waits are defined.\<close>

definition pass_env ::
  "(pyfloat \<Rightarrow> int \<Rightarrow> error + pyfloat) \<Rightarrow> PactixConfig \<Rightarrow> (nat \<Rightarrow> executor) \<Rightarrow> (nat \<Rightarrow> datetime) \<Rightarrow> bool" where
  "pass_env fpow cfg conn clock \<longleftrightarrow>
     (\<forall>k. db_session (conn k)) \<and> (\<forall>k. \<exists>t. clock k = utc t) \<and> sane_policy fpow (retry_policy cfg)"

lemma pass_envD:
  assumes "pass_env fpow cfg conn clock"
  shows "db_session (conn k)" and "is_aware (clock k)" and "sane_policy fpow (retry_policy cfg)"
proof -
  obtain t where "clock k = utc t" using assms unfolding pass_env_def by blast
  then show "is_aware (clock k)" by simp
qed (use assms in \<open>auto simp: pass_env_def\<close>)

text \<open>A counter that every step raises by one counts the rows of a loop that ends normally.\<close>

lemma settle_loop_counts:
  assumes "\<And>k row s tbl s' tbl'. step k row s tbl = Inr (s', tbl') \<Longrightarrow> tally s' = tally s + (1 :: int) \<and> fixed s' = fixed s"
    and "settle_loop step others k rows s tbl = (Inr s', tbl')"
  shows "tally s' = tally s + int (length rows) \<and> fixed s' = fixed s"
  using assms(2)
proof (induction rows arbitrary: k s tbl)
  case Nil
  then show ?case by simp
next
  case (Cons row rows)
  then obtain s1 tbl1 where
    first: "step k row s (others k tbl) = Inr (s1, tbl1)"
    and loop: "settle_loop step others (k + 1) rows s1 tbl1 = (Inr s', tbl')"
    by (auto simp: Let_def split: sum.splits prod.splits)
  from Cons.IH [OF loop] assms(1) [OF first] show ?case by simp
qed

text \<open>What every step and every concurrent transaction keep, the loop keeps.\<close>

lemma settle_loop_keeps:
  assumes "\<And>k row s tbl s' tbl'. step k row s tbl = Inr (s', tbl') \<Longrightarrow> f tbl' = f tbl" and "\<And>k tbl. f (others k tbl) = f tbl"
    and "settle_loop step others k rows s tbl = (res, tbl')"
  shows "f tbl' = f tbl"
  using assms(3)
proof (induction rows arbitrary: k s tbl)
  case (Cons row rows)
  show ?case
  proof (cases "step k row s (others k tbl)")
    case (Inl e)
    then have "tbl' = others k tbl" using Cons.prems by simp
    then show ?thesis using assms(2) by simp
  next
    case (Inr x)
    then obtain s1 tbl1 where one: "step k row s (others k tbl) = Inr (s1, tbl1)" by (cases x) auto
    then have "settle_loop step others (k + 1) rows s1 tbl1 = (res, tbl')" using Cons.prems by simp
    from Cons.IH [OF this] show ?thesis using assms(1) [OF one] assms(2) by simp
  qed
qed simp

section \<open>What the loop leaves in the table\<close>

text \<open>Other transactions keep ids unique and leave the rows of \<open>I\<close> alone.\<close>

definition others_keep :: "uuid set \<Rightarrow> (nat \<Rightarrow> 'a message_row_scheme list \<Rightarrow> 'a message_row_scheme list) \<Rightarrow> bool" where
  "others_keep I others \<longleftrightarrow>
     (\<forall>k tbl. unique_ids tbl \<longrightarrow> unique_ids (others k tbl) \<and> (\<forall>i \<in> I. row_of (others k tbl) i = row_of tbl i))"

lemma others_keep_id [simp]: "others_keep I (\<lambda>_ tbl. tbl)"
  by (simp add: others_keep_def)

text \<open>The step answers and changes the row \<open>i\<close>, which was \<open>r\<close>, to one that satisfies \<open>P\<close>, and no
  other row.\<close>

definition settles ::
  "('s \<Rightarrow> 'a message_row_scheme list \<Rightarrow> error + ('s \<times> 'a message_row_scheme list)) \<Rightarrow> uuid
   \<Rightarrow> 'a message_row_scheme \<Rightarrow> ('a message_row_scheme \<Rightarrow> bool) \<Rightarrow> bool" where
  "settles step i r P \<longleftrightarrow>
     (\<forall>s tbl. \<exists>s' f. step s tbl = Inr (s', update_where (\<lambda>r. col_id r = i) f tbl)
        \<and> P (f r) \<and> (\<forall>x. col_id (f x) = col_id x))"

lemma settlesI:
  assumes "\<And>s tbl. \<exists>s'. step s tbl = Inr (s', update_where (\<lambda>r. col_id r = i) f tbl)"
    and "P (f r)" and "\<And>x. col_id (f x) = col_id x"
  shows "settles step i r P"
  using assms unfolding settles_def by blast

fun rows_settled ::
  "('m \<Rightarrow> uuid) \<Rightarrow> (nat \<Rightarrow> 'm \<Rightarrow> 'a message_row_scheme \<Rightarrow> bool) \<Rightarrow> nat \<Rightarrow> 'm list
   \<Rightarrow> 'a message_row_scheme list \<Rightarrow> bool" where
  "rows_settled rid P k [] tbl = True"
| "rows_settled rid P k (m # ms) tbl =
     ((\<exists>r. row_of tbl (rid m) = Some r \<and> P k m r) \<and> rows_settled rid P (k + 1) ms tbl)"

lemma rows_settled_nth:
  "rows_settled rid P k ms tbl \<Longrightarrow> j < length ms \<Longrightarrow> \<exists>r. row_of tbl (rid (ms ! j)) = Some r \<and> P (k + j) (ms ! j) r"
proof (induction ms arbitrary: k j)
  case (Cons m ms)
  then show ?case by (cases j) fastforce+
qed simp

lemma settle_loop_round:
  assumes keep: "others_keep I others" and u: "unique_ids tbl"
    and row: "rid row \<in> I" "row_of tbl (rid row) = Some r" and step: "settles (step k row) (rid row) r P"
  obtains s1 tbl1 r' where
    "settle_loop step others k (row # rows) s tbl = settle_loop step others (k + 1) rows s1 tbl1"
    and "unique_ids tbl1" and "P r'"
    and "\<And>i. i \<in> I \<Longrightarrow> row_of tbl1 i = (if i = rid row then Some r' else row_of tbl i)"
proof -
  note kept = keep [unfolded others_keep_def, rule_format, OF u, of k]
  obtain s1 f where eq: "step k row s (others k tbl) = Inr (s1, update_where (\<lambda>r. col_id r = rid row) f (others k tbl))"
    and P: "P (f r)" and f: "\<And>x. col_id (f x) = col_id x"
    using step unfolding settles_def by blast
  let ?tbl1 = "update_where (\<lambda>r. col_id r = rid row) f (others k tbl)"
  have "row_of ?tbl1 i = (if i = rid row then Some (f r) else row_of tbl i)" if "i \<in> I" for i
    using kept that row(2) u by (cases "row_of tbl i") (auto simp: row_of_update_where f dest: row_of_mem)
  moreover have "unique_ids ?tbl1" using kept f by simp
  ultimately show thesis using that [of s1 ?tbl1 "f r"] eq P by simp
qed

text \<open>A loop whose first \<open>m\<close> steps settle their rows and whose next step, if there is one, raises.\<close>

lemma settle_loop_effect:
  assumes keep: "others_keep I others"
    and "distinct (map rid rows)" and "rid ` set rows \<subseteq> I" and "unique_ids tbl"
    and "\<And>row. row \<in> set rows \<Longrightarrow> row_of tbl (rid row) = Some (src row)"
    and "m \<le> length rows"
    and "\<And>j. j < m \<Longrightarrow> settles (step (k + j) (rows ! j)) (rid (rows ! j)) (src (rows ! j)) (P (k + j) (rows ! j))"
    and "m < length rows \<Longrightarrow> (\<And>s tbl. step (k + m) (rows ! m) s tbl = Inl e)"
  shows "\<exists>res tbl'. settle_loop step others k rows s tbl = (res, tbl')
    \<and> (if m = length rows then \<exists>s'. res = Inr s' else res = Inl e)
    \<and> rows_settled rid P k (take m rows) tbl'
    \<and> (\<forall>i \<in> I. i \<notin> rid ` set (take m rows) \<longrightarrow> row_of tbl' i = row_of tbl i)"
  using assms(2-)
proof (induction rows arbitrary: k m s tbl)
  case Nil
  then show ?case by simp
next
  case (Cons row rows)
  show ?case
  proof (cases m)
    case 0
    with Cons.prems(7) have "step k row s (others k tbl) = Inl e" by simp
    with 0 keep [unfolded others_keep_def, rule_format, OF Cons.prems(3), of k] show ?thesis by simp
  next
    case (Suc m')
    have rid: "rid row \<in> I" "rid row \<notin> rid ` set rows" using Cons.prems(1,2) by auto
    have src: "row_of tbl (rid row) = Some (src row)" using Cons.prems(4) by simp
    have step: "settles (step k row) (rid row) (src row) (P k row)" using Cons.prems(6) [of 0] Suc by simp
    obtain s1 tbl1 r1 where
      first: "settle_loop step others k (row # rows) s tbl = settle_loop step others (k + 1) rows s1 tbl1"
      and u1: "unique_ids tbl1" and P: "P k row r1"
      and row1: "\<And>i. i \<in> I \<Longrightarrow> row_of tbl1 i = (if i = rid row then Some r1 else row_of tbl i)"
      by (rule settle_loop_round [where rid = rid and step = step and k = k and rows = rows and s = s, OF keep Cons.prems(3) rid(1) src step]) blast
    have "\<exists>res tbl'. settle_loop step others (k + 1) rows s1 tbl1 = (res, tbl')
      \<and> (if m' = length rows then \<exists>s'. res = Inr s' else res = Inl e)
      \<and> rows_settled rid P (k + 1) (take m' rows) tbl'
      \<and> (\<forall>i \<in> I. i \<notin> rid ` set (take m' rows) \<longrightarrow> row_of tbl' i = row_of tbl1 i)"
    proof (rule Cons.IH)
      show "row_of tbl1 (rid x) = Some (src x)" if x: "x \<in> set rows" for x
      proof -
        have "rid x \<in> rid ` set rows" using x by simp
        then have "rid x \<in> I" "rid x \<noteq> rid row" using Cons.prems(2) rid(2) by auto
        with row1 Cons.prems(4) [of x] x show ?thesis by simp
      qed
      show "settles (step (k + 1 + j) (rows ! j)) (rid (rows ! j)) (src (rows ! j)) (P (k + 1 + j) (rows ! j))"
        if "j < m'" for j using Cons.prems(6) [of "Suc j"] that Suc by simp
    qed (use Cons.prems(1,2,5,7) Suc u1 in auto)
    then obtain res tbl' where
      loop: "settle_loop step others (k + 1) rows s1 tbl1 = (res, tbl')"
      and res: "if m' = length rows then \<exists>s'. res = Inr s' else res = Inl e"
      and later: "rows_settled rid P (k + 1) (take m' rows) tbl'"
      and rest: "\<forall>i \<in> I. i \<notin> rid ` set (take m' rows) \<longrightarrow> row_of tbl' i = row_of tbl1 i"
      by blast
    have "rid row \<notin> rid ` set (take m' rows)" using rid(2) by (auto dest: in_set_takeD)
    then have "row_of tbl' (rid row) = Some r1" using rest row1 rid(1) by simp
    moreover have "\<forall>i \<in> I. i \<notin> rid ` set (take m (row # rows)) \<longrightarrow> row_of tbl' i = row_of tbl i"
      using rest row1 Suc by auto
    ultimately show ?thesis using loop first res P later Suc by auto
  qed
qed

end
