(* ===== verification/OutboxRunner.thy ===== *)
theory OutboxRunner
  imports OutboxCorrect Publisher RunnerLoop
begin

text \<open>
  \<^verbatim>\<open>outbox/runner.py\<close>: one pass of the outbox worker.  The table is the committed state of
  the database.  Every \<^verbatim>\<open>engine.begin()\<close> block commits when it ends and rolls back when it
  raises; an exception leaves the pass with what was committed before it.  Parameters:
  \<^item> \<open>conn\<close>: the connection of the claim (number 0) and of the update of row \<open>k\<close> (number \<open>k + 1\<close>);
  \<^item> \<open>clock\<close>: the readings of \<^verbatim>\<open>datetime.now(UTC)\<close>: number 0 for the claim, \<open>2k + 1\<close> in the
    runner and \<open>2k + 2\<close> in the store for row \<open>k\<close>;
  \<^item> \<open>call\<close>: what the publisher answers for row \<open>k\<close>;
  \<^item> \<open>others\<close>: what other transactions committed before the update of row \<open>k\<close>.
\<close>

record RunSummary =
  reclaimed :: int
  claimed :: int
  published :: int
  retry_scheduled :: int
  failed :: int

text \<open>The transaction that records the outcome of one row.\<close>

definition OutboxRunner_record ::
  "(pyfloat \<Rightarrow> int \<Rightarrow> error + pyfloat) \<Rightarrow> PactixConfig \<Rightarrow> executor \<Rightarrow> datetime \<Rightarrow> datetime
   \<Rightarrow> OutboxMessageRecord \<Rightarrow> PublishOutcome \<Rightarrow> RunSummary \<Rightarrow> outbox_table
   \<Rightarrow> error + (RunSummary \<times> outbox_table)" where
  "OutboxRunner_record fpow cfg ex t1 t2 row outcome summary tbl =
     (if PublishOutcome_is_published outcome then
        res_bind (OutboxStore_mark_published ex (rec_id row) t1 tbl) (\<lambda>tbl'.
          Inr (summary\<lparr>published := published summary + 1\<rparr>, tbl'))
      else if PublishOutcome_is_retryable outcome then
        res_bind (handle_retryable_failure fpow (retry_policy cfg)
            (OutboxStore_mark_retry ex t2) (OutboxStore_mark_failed ex t2)
            (rec_id row) (rec_attempts row) (rec_max_attempts row) (or_empty (po_message outcome)) t1 tbl)
          (\<lambda>(action, tbl').
            Inr (if action = RETRY_SCHEDULED
                 then summary\<lparr>retry_scheduled := retry_scheduled summary + 1\<rparr>
                 else summary\<lparr>failed := failed summary + 1\<rparr>, tbl'))
      else
        res_bind (OutboxStore_mark_failed ex t2 (rec_id row) (or_empty (po_message outcome)) tbl) (\<lambda>tbl'.
          Inr (summary\<lparr>failed := failed summary + 1\<rparr>, tbl')))"

text \<open>The body of the loop for row number \<open>k\<close>.\<close>

definition OutboxRunner_row ::
  "(pyfloat \<Rightarrow> int \<Rightarrow> error + pyfloat) \<Rightarrow> PactixConfig
   \<Rightarrow> (nat \<Rightarrow> OutboxMessageRecord \<Rightarrow> error + PublishOutcome) \<Rightarrow> (nat \<Rightarrow> executor) \<Rightarrow> (nat \<Rightarrow> datetime)
   \<Rightarrow> nat \<Rightarrow> OutboxMessageRecord \<Rightarrow> RunSummary \<Rightarrow> outbox_table \<Rightarrow> error + (RunSummary \<times> outbox_table)" where
  "OutboxRunner_row fpow cfg publish conn clock k row summary tbl =
     res_bind (publish k row) (\<lambda>outcome.
       OutboxRunner_record fpow cfg (conn (k + 1)) (clock (2 * k + 1)) (clock (2 * k + 2)) row outcome summary tbl)"

definition OutboxRunner_run_once ::
  "(pyfloat \<Rightarrow> int \<Rightarrow> error + pyfloat) \<Rightarrow> PactixConfig \<Rightarrow> ('p \<Rightarrow> bool)
   \<Rightarrow> (nat \<Rightarrow> 'p \<Rightarrow> OutboxMessageRecord \<Rightarrow> error + PublishOutcome) \<Rightarrow> 'p PublisherRegistry
   \<Rightarrow> (nat \<Rightarrow> executor) \<Rightarrow> (nat \<Rightarrow> datetime) \<Rightarrow> (nat \<Rightarrow> outbox_table \<Rightarrow> outbox_table)
   \<Rightarrow> outbox_table \<Rightarrow> (error + RunSummary) \<times> outbox_table" where
  "OutboxRunner_run_once fpow cfg truthy call reg conn clock others tbl =
     (let now = clock 0
      in case res_bind (OutboxStore_reclaim_expired (conn 0) now tbl) (\<lambda>(n, tbl1).
             res_bind (OutboxStore_claim_ready cfg (conn 0) now tbl1) (\<lambda>(rows, tbl2). Inr (n, rows, tbl2))) of
           Inl e \<Rightarrow> (Inl e, tbl)
         | Inr (n, rows, tbl2) \<Rightarrow>
             settle_loop (OutboxRunner_row fpow cfg (\<lambda>k. PublisherRegistry_publish truthy (call k) reg) conn clock) others 0 rows
               \<lparr>reclaimed = n, claimed = int (length rows), published = 0, retry_scheduled = 0, failed = 0\<rparr> tbl2)"

section \<open>Recording one outcome\<close>

text \<open>What the specification asks of a claimed row \<open>r\<close> once its outcome is recorded as \<open>r'\<close>.\<close>

definition row_settled ::
  "RetryPolicy \<Rightarrow> int \<Rightarrow> int \<Rightarrow> PublishOutcome \<Rightarrow> outbox_row \<Rightarrow> outbox_row \<Rightarrow> bool" where
  "row_settled policy t1 t2 outcome r r' =
     (case po_kind outcome of
        KIND_PUBLISHED \<Rightarrow> r' = set_published t1 r
      | KIND_RETRYABLE \<Rightarrow>
          if col_attempts r + 1 < col_max_attempts r
          then \<exists>us. 0 \<le> us \<and> us \<le> rp_max_interval policy \<and>
                 r' = set_retry (or_empty (po_message outcome)) (t1 + us) t2 r
          else r' = set_failed (or_empty (po_message outcome)) t2 r
      | KIND_TERMINAL \<Rightarrow> r' = set_failed (or_empty (po_message outcome)) t2 r)"

definition settled_total :: "RunSummary \<Rightarrow> int" where
  "settled_total s = published s + retry_scheduled s + failed s"

text \<open>Recording never raises; it changes the row of the record and no other, as specified.\<close>

lemma record_effect:
  assumes ex: "db_session ex" and aware: "is_aware t1" "is_aware t2" and pol: "sane_policy fpow (retry_policy cfg)"
    and row: "rec_attempts row = col_attempts r" "rec_max_attempts row = col_max_attempts r"
  obtains f s' where
    "OutboxRunner_record fpow cfg ex t1 t2 row outcome s tbl = Inr (s', update_where (\<lambda>r. col_id r = rec_id row) f tbl)"
    and "row_settled (retry_policy cfg) (instant t1) (instant t2) outcome r (f r)"
    and "\<And>r. col_id (f r) = col_id r"
    and "settled_total s' = settled_total s + 1" "claimed s' = claimed s" "reclaimed s' = reclaimed s"
proof (cases "po_kind outcome")
  case KIND_PUBLISHED
  then show thesis
    by (intro that [of "s\<lparr>published := published s + 1\<rparr>" "set_published (instant t1)"])
      (simp_all add: OutboxRunner_record_def outcome_tests mark_published_eq [OF ex aware(1)] row_settled_def
        settled_total_def)
next
  case KIND_TERMINAL
  then show thesis
    by (intro that [of "s\<lparr>failed := failed s + 1\<rparr>" "set_failed (or_empty (po_message outcome)) (instant t2)"])
      (simp_all add: OutboxRunner_record_def outcome_tests outbox_retry.mark_failed_eq [OF ex aware(2)] row_settled_def
        settled_total_def)
next
  case KIND_RETRYABLE
  let ?e = "or_empty (po_message outcome)"
  show thesis
  proof (cases "col_attempts r + 1 < col_max_attempts r")
    case False
    then have "handle_retryable_failure fpow (retry_policy cfg) (OutboxStore_mark_retry ex t2) (OutboxStore_mark_failed ex t2)
        (rec_id row) (rec_attempts row) (rec_max_attempts row) ?e t1 tbl
        = Inr (RetryAction.FAILED, update_where (\<lambda>r. col_id r = rec_id row) (set_failed ?e (instant t2)) tbl)"
      by (intro outbox_retry.handle_failed [OF ex aware(2)]) (simp add: row)
    with KIND_RETRYABLE False show thesis
      by (intro that [of "s\<lparr>failed := failed s + 1\<rparr>" "set_failed ?e (instant t2)"])
        (simp_all add: OutboxRunner_record_def outcome_tests row_settled_def settled_total_def)
  next
    case True
    then have "rec_attempts row + 1 < rec_max_attempts row" by (simp add: row)
    then obtain us where us: "0 \<le> us" "us \<le> rp_max_interval (retry_policy cfg)"
      and eq: "handle_retryable_failure fpow (retry_policy cfg) (OutboxStore_mark_retry ex t2) (OutboxStore_mark_failed ex t2)
        (rec_id row) (rec_attempts row) (rec_max_attempts row) ?e t1 tbl
        = Inr (RETRY_SCHEDULED, update_where (\<lambda>r. col_id r = rec_id row) (set_retry ?e (instant t1 + us) (instant t2)) tbl)"
      using outbox_retry.handle_retried [OF ex aware _ pol [unfolded sane_policy_def, THEN conjunct1]
          pol [unfolded sane_policy_def, THEN conjunct2]] by blast
    with KIND_RETRYABLE True us show thesis
      by (intro that [of "s\<lparr>retry_scheduled := retry_scheduled s + 1\<rparr>" "set_retry ?e (instant t1 + us) (instant t2)"])
        (auto simp: OutboxRunner_record_def outcome_tests row_settled_def settled_total_def)
  qed
qed

section \<open>The loop over the claimed rows\<close>

lemma row_accounting:
  assumes "OutboxRunner_row fpow cfg publish conn clock k row s tbl = Inr (s', tbl')"
  shows "settled_total s' = settled_total s + 1 \<and> (claimed s', reclaimed s') = (claimed s, reclaimed s)"
  using assms by (auto simp: OutboxRunner_row_def OutboxRunner_record_def settled_total_def split: if_splits)

lemma row_settles:
  assumes env: "pass_env fpow cfg conn clock" and pub: "publish k row = Inr outcome"
    and row: "rec_attempts row = col_attempts r" "rec_max_attempts row = col_max_attempts r"
  shows "settles (OutboxRunner_row fpow cfg publish conn clock k row) (rec_id row) r
    (row_settled (retry_policy cfg) (instant (clock (2 * k + 1))) (instant (clock (2 * k + 2))) outcome r)"
  unfolding settles_def
proof (intro allI)
  fix s tbl
  show "\<exists>s' f. OutboxRunner_row fpow cfg publish conn clock k row s tbl =
        Inr (s', update_where (\<lambda>r. col_id r = rec_id row) f tbl)
      \<and> row_settled (retry_policy cfg) (instant (clock (2 * k + 1))) (instant (clock (2 * k + 2))) outcome r (f r)
      \<and> (\<forall>x. col_id (f x) = col_id x)"
    by (rule record_effect [OF pass_envD(1,2,2,3) [OF env] row, of "k + 1" "2 * k + 1" "2 * k + 2" outcome s tbl])
      (auto simp: OutboxRunner_row_def pub)
qed

lemma outbox_record_cases:
  assumes "db_session ex" "is_aware t1" "is_aware t2"
    and "OutboxRunner_record fpow cfg ex t1 t2 m outcome s tbl = Inr (s', tbl')"
  obtains (published) "PublishOutcome_is_published outcome"
      "tbl' = update_where (\<lambda>r. col_id r = rec_id m) (set_published (instant t1)) tbl"
    | (retried) e av where "rec_attempts m + 1 < rec_max_attempts m"
      "tbl' = update_where (\<lambda>r. col_id r = rec_id m) (set_retry e av (instant t2)) tbl"
    | (failed) e where "tbl' = update_where (\<lambda>r. col_id r = rec_id m) (set_failed e (instant t2)) tbl"
proof (cases "PublishOutcome_is_published outcome")
  case True
  with assms published show thesis by (auto simp: OutboxRunner_record_def mark_published_eq)
next
  case notpub: False
  show thesis
  proof (cases "PublishOutcome_is_retryable outcome")
    case True
    with notpub assms(4) obtain a where
      "handle_retryable_failure fpow (retry_policy cfg) (OutboxStore_mark_retry ex t2) (OutboxStore_mark_failed ex t2)
        (rec_id m) (rec_attempts m) (rec_max_attempts m) (or_empty (po_message outcome)) t1 tbl = Inr (a, tbl')"
      by (auto simp: OutboxRunner_record_def)
    with assms(1-3) show thesis by (cases rule: outbox_retry.handle_cases) (use retried failed in auto)
  next
    case False
    with notpub assms failed show thesis by (auto simp: OutboxRunner_record_def outbox_retry.mark_failed_eq)
  qed
qed

lemma outbox_record_one_row:
  assumes "db_session ex" "is_aware t1" "is_aware t2"
    and "OutboxRunner_record fpow cfg ex t1 t2 m outcome s tbl = Inr (s', tbl')"
  shows "one_row_update (rec_id m) tbl tbl'"
  using assms by (cases rule: outbox_record_cases) (simp_all add: one_row_updateI)

lemma outbox_row_one_row:
  assumes "\<And>j. db_session (conn j)" "\<And>j. is_aware (clock j)"
    and "OutboxRunner_row fpow cfg publish conn clock k m s tbl = Inr (s', tbl')"
  shows "one_row_update (rec_id m) tbl tbl'"
proof -
  obtain outcome where "OutboxRunner_record fpow cfg (conn (k + 1)) (clock (2 * k + 1)) (clock (2 * k + 2)) m outcome s tbl = Inr (s', tbl')"
    using assms(3) by (auto simp: OutboxRunner_row_def)
  then show ?thesis by (rule outbox_record_one_row [OF assms(1,2,2)])
qed

section \<open>A whole pass\<close>

text \<open>A pass whose first \<open>m\<close> publisher calls answer and whose next one, if there is one, raises.\<close>

abbreviation settled_outcome ::
  "PactixConfig \<Rightarrow> (nat \<Rightarrow> datetime) \<Rightarrow> (nat \<Rightarrow> PublishOutcome) \<Rightarrow> outbox_table \<Rightarrow> nat \<Rightarrow> OutboxMessageRecord
   \<Rightarrow> outbox_row \<Rightarrow> bool" where
  "settled_outcome cfg clock oc tbl2 k m \<equiv>
     row_settled (retry_policy cfg) (instant (clock (2 * k + 1))) (instant (clock (2 * k + 2))) (oc k)
       (the (row_of tbl2 (rec_id m)))"

lemma run_once_effect:
  assumes env: "pass_env fpow cfg conn clock" and t: "clock 0 = utc t" and u: "unique_ids tbl"
    and reclaim: "OutboxStore_reclaim_expired (conn 0) (utc t) tbl = Inr (n, tbl1)"
    and claim: "OutboxStore_claim_ready cfg (conn 0) (utc t) tbl1 = Inr (ms, tbl2)"
    and keep: "others_keep I others" "rec_id ` set ms \<subseteq> I" and m: "m \<le> length ms"
    and pub: "\<And>k. k < m \<Longrightarrow> PublisherRegistry_publish truthy (call k) reg (ms ! k) = Inr (oc k)"
    and raise: "m < length ms \<Longrightarrow> PublisherRegistry_publish truthy (call m) reg (ms ! m) = Inl e"
  shows "\<exists>res tbl'. OutboxRunner_run_once fpow cfg truthy call reg conn clock others tbl = (res, tbl')
    \<and> (if m = length ms then \<exists>s. res = Inr s else res = Inl e)
    \<and> rows_settled rec_id (settled_outcome cfg clock oc tbl2) 0 (take m ms) tbl'
    \<and> (\<forall>i \<in> I. i \<notin> rec_id ` set (take m ms) \<longrightarrow> row_of tbl' i = row_of tbl2 i)"
proof -
  have ex: "db_session (conn 0)" by (rule pass_envD [OF env])
  have u1: "unique_ids tbl1" using reclaim u outbox_queue.reclaim_effect(2) [OF ex] by blast
  note effect = outbox_queue.claim_effect [OF ex u1 claim]
  let ?src = "\<lambda>m. the (row_of tbl2 (rec_id m))"
  let ?step = "OutboxRunner_row fpow cfg (\<lambda>k. PublisherRegistry_publish truthy (call k) reg) conn clock"
  have src: "row_of tbl2 (rec_id x) = Some (?src x)" "rec_attempts x = col_attempts (?src x)"
    "rec_max_attempts x = col_max_attempts (?src x)" if "x \<in> set ms" for x
    by (rule claimed_stored [OF ex u1 claim that], simp add: outbox_view_def)+
  have ok: "settles (?step (0 + j) (ms ! j)) (rec_id (ms ! j)) (?src (ms ! j)) (settled_outcome cfg clock oc tbl2 (0 + j) (ms ! j))"
    if "j < m" for j
    using row_settles [OF env, of "\<lambda>k. PublisherRegistry_publish truthy (call k) reg" j "ms ! j" "oc j" "?src (ms ! j)"]
      pub [OF that] src(2,3) [of "ms ! j"] m that by simp
  have bad: "?step (0 + m) (ms ! m) s tbl = Inl e" if "m < length ms" for s tbl
    using raise [OF that] by (simp add: OutboxRunner_row_def)
  let ?s = "\<lparr>reclaimed = n, claimed = int (length ms), published = 0, retry_scheduled = 0, failed = 0\<rparr>"
  have run: "OutboxRunner_run_once fpow cfg truthy call reg conn clock others tbl = settle_loop ?step others 0 ms ?s tbl2"
    by (simp add: OutboxRunner_run_once_def t reclaim claim)
  show ?thesis
    unfolding run by (rule settle_loop_effect [OF keep(1) effect(2) keep(2) effect(3) src(1) m ok bad])
qed

lemma run_once_accounting:
  assumes "OutboxStore_reclaim_expired (conn 0) (clock 0) tbl = Inr (n, tbl1)"
    and "OutboxStore_claim_ready cfg (conn 0) (clock 0) tbl1 = Inr (ms, tbl2)"
    and "OutboxRunner_run_once fpow cfg truthy call reg conn clock others tbl = (Inr s, tbl')"
  shows "reclaimed s = n \<and> claimed s = int (length ms) \<and> published s + retry_scheduled s + failed s = claimed s"
  using assms(3) settle_loop_counts [where tally = settled_total and fixed = "\<lambda>s. (claimed s, reclaimed s)",
      OF row_accounting]
  by (fastforce simp: OutboxRunner_run_once_def assms(1,2) settled_total_def)

text \<open>Property C6: a pass whose publishers all answer returns a summary that counts every claimed row
  exactly once as published, rescheduled or failed, and leaves each claimed row as its outcome
  asks: published; or pending again with one more attempt, due within \<^verbatim>\<open>max_interval\<close>; or failed,
  when the outcome is terminal or the attempts are used up.  Other workers may change all other
  rows meanwhile.\<close>

theorem outbox_run_once_settles:
  assumes "pass_env fpow cfg conn clock" and t: "clock 0 = utc t" and "unique_ids tbl"
    and reclaim: "OutboxStore_reclaim_expired (conn 0) (utc t) tbl = Inr (n, tbl1)"
    and claim: "OutboxStore_claim_ready cfg (conn 0) (utc t) tbl1 = Inr (ms, tbl2)"
    and "others_keep (rec_id ` set ms) others"
    and "\<And>k. k < length ms \<Longrightarrow> PublisherRegistry_publish truthy (call k) reg (ms ! k) = Inr (oc k)"
  shows "\<exists>s tbl'. OutboxRunner_run_once fpow cfg truthy call reg conn clock others tbl = (Inr s, tbl')
    \<and> reclaimed s = n \<and> claimed s = int (length ms)
    \<and> published s + retry_scheduled s + failed s = claimed s
    \<and> (\<forall>k < length ms. \<exists>r'. row_of tbl' (rec_id (ms ! k)) = Some r' \<and>
         row_settled (retry_policy cfg) (instant (clock (2 * k + 1))) (instant (clock (2 * k + 2))) (oc k)
           (the (row_of tbl2 (rec_id (ms ! k)))) r')"
proof -
  from run_once_effect [OF assms(1-6) subset_refl order_refl assms(7)] obtain s tbl' where
    run: "OutboxRunner_run_once fpow cfg truthy call reg conn clock others tbl = (Inr s, tbl')"
    and settled: "rows_settled rec_id (settled_outcome cfg clock oc tbl2) 0 ms tbl'"
    by auto
  from run_once_accounting [OF reclaim [folded t] claim [folded t] run] run rows_settled_nth [OF settled]
  show ?thesis by auto
qed

text \<open>Property C16: an exception of a publisher (a \<^verbatim>\<open>RoutingError\<close> for an unregistered event type
  included) ends the pass, and no message is lost: rows settled before it stay settled, and every
  other claimed row is still processing under its lease, which any later reclaim past the lease
  takes back.\<close>

theorem outbox_run_once_interrupted:
  assumes "pass_env fpow cfg conn clock" and t: "clock 0 = utc t" and "unique_ids tbl"
    and reclaim: "OutboxStore_reclaim_expired (conn 0) (utc t) tbl = Inr (n, tbl1)"
    and claim: "OutboxStore_claim_ready cfg (conn 0) (utc t) tbl1 = Inr (ms, tbl2)"
    and "others_keep (rec_id ` set ms) others" and m: "m < length ms"
    and pub: "\<And>k. k < m \<Longrightarrow> PublisherRegistry_publish truthy (call k) reg (ms ! k) = Inr (oc k)"
    and raise: "PublisherRegistry_publish truthy (call m) reg (ms ! m) = Inl e"
  shows "\<exists>tbl'. OutboxRunner_run_once fpow cfg truthy call reg conn clock others tbl = (Inl e, tbl')
    \<and> (\<forall>k < m. \<exists>r'. row_of tbl' (rec_id (ms ! k)) = Some r' \<and>
         row_settled (retry_policy cfg) (instant (clock (2 * k + 1))) (instant (clock (2 * k + 2))) (oc k)
           (the (row_of tbl2 (rec_id (ms ! k)))) r')
    \<and> (\<forall>k < length ms. m \<le> k \<longrightarrow> (\<exists>r. row_of tbl' (rec_id (ms ! k)) = Some r \<and> col_status r = ''processing''
         \<and> (\<forall>t'. lease_expired t' r \<longleftrightarrow> t + lease_duration cfg < t')))"
proof -
  have ex: "db_session (conn 0)" by (rule pass_envD [OF assms(1)])
  have u1: "unique_ids tbl1" using reclaim assms(3) outbox_queue.reclaim_effect(2) [OF ex] by blast
  from run_once_effect [OF assms(1-6) subset_refl less_imp_le [OF m] pub raise] m obtain tbl' where
    run: "OutboxRunner_run_once fpow cfg truthy call reg conn clock others tbl = (Inl e, tbl')"
    and settled: "rows_settled rec_id (settled_outcome cfg clock oc tbl2) 0 (take m ms) tbl'"
    and rest: "\<forall>i \<in> rec_id ` set ms. i \<notin> rec_id ` set (take m ms) \<longrightarrow> row_of tbl' i = row_of tbl2 i"
    by auto
  have left: "\<exists>r. row_of tbl' (rec_id (ms ! k)) = Some r \<and> col_status r = ''processing''
      \<and> (\<forall>t'. lease_expired t' r \<longleftrightarrow> t + lease_duration cfg < t')" if k: "k < length ms" "m \<le> k" for k
  proof -
    have "distinct (map rec_id ms)" by (rule outbox_queue.claim_effect(2) [OF ex u1 claim])
    then have "rec_id (ms ! k) \<notin> rec_id ` set (take m ms)"
      using k by (auto simp: in_set_conv_nth distinct_conv_nth)
    then have same: "row_of tbl' (rec_id (ms ! k)) = row_of tbl2 (rec_id (ms ! k))" using rest k by simp
    show ?thesis
      unfolding same by (rule claimed_stored [OF ex u1 claim nth_mem [OF k(1)]]) (simp add: lease_expired_def)
  qed
  have "\<exists>r'. row_of tbl' (rec_id (ms ! k)) = Some r' \<and>
      row_settled (retry_policy cfg) (instant (clock (2 * k + 1))) (instant (clock (2 * k + 2))) (oc k)
        (the (row_of tbl2 (rec_id (ms ! k)))) r'" if "k < m" for k
    using rows_settled_nth [OF settled, of k] that m by simp
  with run left show ?thesis by blast
qed

section \<open>Two concrete passes\<close>

text \<open>The first row is published, the second answers that it should be retried.\<close>

definition example_call :: "nat \<Rightarrow> nat \<Rightarrow> OutboxMessageRecord \<Rightarrow> error + PublishOutcome" where
  "example_call k p m =
     Inr (if k = 0 then PublishOutcome_published else PublishOutcome_retryable ''broker down'')"

definition example_registry :: "nat PublisherRegistry" where
  "example_registry = PublisherRegistry_register ''order.created'' 1 PublisherRegistry_new"

abbreviation example_clock :: "nat \<Rightarrow> datetime" where
  "example_clock \<equiv> \<lambda>k. utc (50 + int k)"

lemma example_pass_env: "pass_env example_pow default_PactixConfig (\<lambda>_. example_postgres) example_clock"
  by (simp add: pass_env_def sane_policy_def default_PactixConfig_def)

lemma example_reclaim:
  "OutboxStore_reclaim_expired example_postgres (utc 50) example_outbox = Inr (0, example_outbox)"
  by (simp add: outbox_eval)

lemma example_records_simps [simp]:
  "length (example_claimed_records ex) = 2" "rec_id (example_claimed_records ex ! 0) = 1"
  "rec_event_type (example_claimed_records ex ! 0) = ''order.created''"
  "rec_event_type (example_claimed_records ex ! Suc 0) = ''order.created''"
  by (simp_all add: example_claimed_records_def example_outbox_row_def outbox_view_def set_claimed_def)

theorem outbox_run_once_settles_witness:
  "\<exists>s tbl' r'. OutboxRunner_run_once example_pow default_PactixConfig (\<lambda>_. True) example_call example_registry
       (\<lambda>_. example_postgres) example_clock (\<lambda>_ tbl. tbl) example_outbox = (Inr s, tbl')
     \<and> claimed s = 2 \<and> published s + retry_scheduled s + failed s = 2
     \<and> row_of tbl' 1 = Some r' \<and> col_status r' = ''published''"
proof -
  let ?oc = "\<lambda>k. if k = 0 then PublishOutcome_published else PublishOutcome_retryable ''broker down''"
  have pub: "PublisherRegistry_publish (\<lambda>_. True) (example_call k) example_registry (example_claimed_records example_postgres ! k)
      = Inr (?oc k)" if "k < length (example_claimed_records example_postgres)" for k
    using that by (auto simp: PublisherRegistry_publish_def PublisherRegistry_resolve_def example_registry_def example_call_def
        PublisherRegistry_register_def PublisherRegistry_new_def less_2_cases_iff)
  have clock0: "example_clock 0 = utc 50" by simp
  from outbox_run_once_settles [OF example_pass_env clock0 example_unique_ids(1) example_reclaim example_claim(1) others_keep_id pub]
  obtain s tbl' where
    run: "OutboxRunner_run_once example_pow default_PactixConfig (\<lambda>_. True) example_call example_registry
       (\<lambda>_. example_postgres) example_clock (\<lambda>_ tbl. tbl) example_outbox = (Inr s, tbl')"
    and s: "claimed s = 2" "published s + retry_scheduled s + failed s = claimed s"
    and settled: "\<forall>k < length (example_claimed_records example_postgres). \<exists>r'.
      row_of tbl' (rec_id (example_claimed_records example_postgres ! k)) = Some r' \<and>
      row_settled (retry_policy default_PactixConfig) (instant (example_clock (2 * k + 1))) (instant (example_clock (2 * k + 2)))
        (?oc k) (the (row_of example_claimed (rec_id (example_claimed_records example_postgres ! k)))) r'"
    by auto
  from settled [rule_format, of 0] obtain r' where "row_of tbl' 1 = Some r'" "col_status r' = ''published''"
    by (auto simp: row_settled_def outcome_defs)
  with run s show ?thesis by auto
qed

theorem outbox_run_once_interrupted_witness:
  "\<exists>tbl' r. OutboxRunner_run_once example_pow default_PactixConfig (\<lambda>_. True) example_call PublisherRegistry_new
       (\<lambda>_. example_postgres) example_clock (\<lambda>_ tbl. tbl) example_outbox
     = (Inl (RoutingError (''no publisher registered for '' @ quoted ''order.created'')), tbl')
     \<and> row_of tbl' 1 = Some r \<and> col_status r = ''processing'' \<and> lease_expired 30000051 r"
proof -
  have clock0: "example_clock 0 = utc 50" by simp
  have raise: "PublisherRegistry_publish (\<lambda>_. True) (example_call 0) PublisherRegistry_new (example_claimed_records example_postgres ! 0)
      = Inl (RoutingError (''no publisher registered for '' @ quoted ''order.created''))"
    by (simp add: PublisherRegistry_publish_def PublisherRegistry_resolve_def PublisherRegistry_new_def)
  have len: "0 < length (example_claimed_records example_postgres)" by simp
  have lease: "50 + lease_duration default_PactixConfig < 30000051" by (simp add: default_PactixConfig_def)
  from outbox_run_once_interrupted [where call = example_call and m = 0 and conn = "\<lambda>_. example_postgres"
      and clock = example_clock and others = "\<lambda>_ tbl. tbl", OF example_pass_env clock0 example_unique_ids(1) example_reclaim example_claim(1)
      others_keep_id len _ raise] len lease
  show ?thesis by fastforce
qed

end
