(* ===== verification/Wakeup.thy ===== *)
theory Wakeup
  imports OutboxRunner
begin

text \<open>
  \<^verbatim>\<open>outbox/wakeup.py\<close>: the wake signals, the fallback schedule, the debounced notifier, the
  PostgreSQL listener and the loop that drains the outbox on every wake.  \<^verbatim>\<open>asyncio\<close>, the
  engine and the driver are outside the repository: what they answer is a parameter of each
  definition.  \<open>open_conns\<close> counts the connections checked out of the engine's pool.
\<close>

definition MAX_PASSES_PER_WAKE :: nat where
  "MAX_PASSES_PER_WAKE = 100"

section \<open>The in-process signal\<close>

text \<open>An \<^verbatim>\<open>asyncio.Event\<close> is its flag.\<close>

record LocalWakeup =
  lw_event :: bool

definition LocalWakeup_new :: LocalWakeup where
  "LocalWakeup_new = \<lparr>lw_event = False\<rparr>"

definition LocalWakeup_wake :: "LocalWakeup \<Rightarrow> LocalWakeup" where
  "LocalWakeup_wake w = w\<lparr>lw_event := True\<rparr>"

text \<open>
  How \<^verbatim>\<open>asyncio.wait_for(event.wait(), timeout)\<close> ends: the event was set, the time was up, or
  the waiting task was cancelled; in the last two cases the event may have been set meanwhile.
\<close>

datatype wait_end = Signalled | TimedOut bool | Cancelled bool

definition LocalWakeup_wait :: "wait_end \<Rightarrow> LocalWakeup \<Rightarrow> (error + bool) \<times> LocalWakeup" where
  "LocalWakeup_wait outcome w =
     (case outcome of
        Signalled \<Rightarrow> (Inr True, w\<lparr>lw_event := False\<rparr>)
      | TimedOut set_meanwhile \<Rightarrow> (Inr False, w\<lparr>lw_event := False\<rparr>)
      | Cancelled set_meanwhile \<Rightarrow>
          (Inl (CancelledError), w\<lparr>lw_event := lw_event w \<or> set_meanwhile\<rparr>))"

section \<open>The fallback schedule\<close>

record FallbackBackoff =
  fb_initial_seconds :: pyfloat
  fb_max_seconds :: pyfloat
  fb_multiplier :: pyfloat
  fb_current_seconds :: pyfloat

definition FallbackBackoff_new :: "WakeupPolicy \<Rightarrow> FallbackBackoff" where
  "FallbackBackoff_new policy = \<lparr>
     fb_initial_seconds = total_seconds (wp_fallback_initial_interval policy),
     fb_max_seconds = total_seconds (wp_fallback_max_interval policy),
     fb_multiplier = wp_fallback_multiplier policy,
     fb_current_seconds = total_seconds (wp_fallback_initial_interval policy)\<rparr>"

definition FallbackBackoff_record_work_found :: "FallbackBackoff \<Rightarrow> FallbackBackoff" where
  "FallbackBackoff_record_work_found b = b\<lparr>fb_current_seconds := fb_initial_seconds b\<rparr>"

definition FallbackBackoff_record_idle :: "FallbackBackoff \<Rightarrow> FallbackBackoff" where
  "FallbackBackoff_record_idle b =
     b\<lparr>fb_current_seconds := f_min (f_mul (fb_current_seconds b) (fb_multiplier b)) (fb_max_seconds b)\<rparr>"

section \<open>The PostgreSQL listener\<close>

record PostgresWakeListener =
  pl_channel :: string
  pl_conn :: bool
  pl_event :: bool

definition PostgresWakeListener_new :: "string \<Rightarrow> PostgresWakeListener" where
  "PostgresWakeListener_new channel = \<lparr>pl_channel = channel, pl_conn = False, pl_event = False\<rparr>"

definition PostgresWakeListener_on_notify :: "PostgresWakeListener \<Rightarrow> PostgresWakeListener" where
  "PostgresWakeListener_on_notify l = l\<lparr>pl_event := True\<rparr>"

text \<open>
  What the engine and the driver answer: \<open>connect\<close> checks a connection out, \<open>attach\<close> is
  \<^verbatim>\<open>get_raw_connection\<close> and \<^verbatim>\<open>add_listener\<close>, \<open>close\<close> gives the connection back.  An exception of \<open>close\<close> replaces the
  one being handled; the pool then discards the connection, which is no longer checked out either way.
\<close>

definition PostgresWakeListener_ensure_listener ::
  "error + unit \<Rightarrow> error + unit \<Rightarrow> error + unit \<Rightarrow> PostgresWakeListener \<Rightarrow> int
   \<Rightarrow> (error + unit) \<times> PostgresWakeListener \<times> int" where
  "PostgresWakeListener_ensure_listener connect attach close l open_conns =
     (if pl_conn l then (Inr (), l, open_conns)
      else case connect of
             Inl e \<Rightarrow> (Inl e, l, open_conns)
           | Inr _ \<Rightarrow>
               (case attach of
                  Inl e \<Rightarrow> (case close of Inl e' \<Rightarrow> Inl e' | Inr _ \<Rightarrow> Inl e, l, open_conns + 1 - 1)
                | Inr _ \<Rightarrow> (Inr (), l\<lparr>pl_conn := True\<rparr>, open_conns + 1)))"

definition PostgresWakeListener_wait ::
  "error + unit \<Rightarrow> error + unit \<Rightarrow> error + unit \<Rightarrow> wait_end \<Rightarrow> PostgresWakeListener \<Rightarrow> int
   \<Rightarrow> (error + bool) \<times> PostgresWakeListener \<times> int" where
  "PostgresWakeListener_wait connect attach close outcome l open_conns =
     (case PostgresWakeListener_ensure_listener connect attach close l open_conns of
        (Inl e, l', n) \<Rightarrow> (Inl e, l', n)
      | (Inr _, l', n) \<Rightarrow>
          (case outcome of
             Signalled \<Rightarrow> (Inr True, l'\<lparr>pl_event := False\<rparr>, n)
           | TimedOut set_meanwhile \<Rightarrow> (Inr False, l'\<lparr>pl_event := False\<rparr>, n)
           | Cancelled set_meanwhile \<Rightarrow>
               (Inl (CancelledError), l'\<lparr>pl_event := pl_event l' \<or> set_meanwhile\<rparr>, n)))"

text \<open>\<open>detach\<close> is \<^verbatim>\<open>get_raw_connection\<close> and \<^verbatim>\<open>remove_listener\<close>; the connection is closed whether or not it raises.\<close>

definition PostgresWakeListener_aclose ::
  "error + unit \<Rightarrow> error + unit \<Rightarrow> PostgresWakeListener \<Rightarrow> int \<Rightarrow> (error + unit) \<times> PostgresWakeListener \<times> int" where
  "PostgresWakeListener_aclose detach close l open_conns =
     (if \<not> pl_conn l then (Inr (), l\<lparr>pl_conn := False\<rparr>, open_conns)
      else (case close of Inl e \<Rightarrow> Inl e | Inr _ \<Rightarrow> detach, l\<lparr>pl_conn := False\<rparr>, open_conns - 1))"

section \<open>The debounced notifier\<close>

record CoalescedNotifier =
  cn_channel :: string
  cn_coalesce_seconds :: pyfloat
  cn_last_notified :: "pyfloat option"

definition CoalescedNotifier_new :: "string \<Rightarrow> int \<Rightarrow> CoalescedNotifier" where
  "CoalescedNotifier_new channel coalesce_interval = \<lparr>
     cn_channel = channel,
     cn_coalesce_seconds = total_seconds coalesce_interval,
     cn_last_notified = None\<rparr>"

text \<open>
  \<open>now\<close> is \<^verbatim>\<open>time.monotonic()\<close>, \<open>execute\<close> what the \<^verbatim>\<open>pg_notify\<close> transaction answers.  The result
  says whether a notification was sent.
\<close>

definition CoalescedNotifier_notify ::
  "pyfloat \<Rightarrow> error + unit \<Rightarrow> CoalescedNotifier \<Rightarrow> (error + bool) \<times> CoalescedNotifier" where
  "CoalescedNotifier_notify now execute n =
     (if (case cn_last_notified n of
            None \<Rightarrow> False
          | Some prev \<Rightarrow> f_less (f_sub now prev) (cn_coalesce_seconds n))
      then (Inr False, n)
      else case execute of
             Inl e \<Rightarrow> (Inl e, n)
           | Inr _ \<Rightarrow> (Inr True, n\<lparr>cn_last_notified := Some now\<rparr>))"

section \<open>The loop\<close>

text \<open>Passes are numbered; \<open>run_once j\<close> is the \<open>j\<close>-th pass of the drain on the committed table.\<close>

fun drain_from ::
  "nat \<Rightarrow> (nat \<Rightarrow> 't \<Rightarrow> (error + RunSummary) \<times> 't) \<Rightarrow> nat \<Rightarrow> bool \<Rightarrow> 't \<Rightarrow> (error + bool) \<times> 't" where
  "drain_from 0 run_once j found_work tbl = (Inr found_work, tbl)"
| "drain_from (Suc n) run_once j found_work tbl =
     (case run_once j tbl of
        (Inl e, tbl') \<Rightarrow> (Inl e, tbl')
      | (Inr summary, tbl') \<Rightarrow>
          if claimed summary = 0 then (Inr found_work, tbl')
          else drain_from n run_once (j + 1) True tbl')"

definition WakeupRunner_drain ::
  "(nat \<Rightarrow> 't \<Rightarrow> (error + RunSummary) \<times> 't) \<Rightarrow> 't \<Rightarrow> (error + bool) \<times> 't" where
  "WakeupRunner_drain run_once tbl = drain_from MAX_PASSES_PER_WAKE run_once 0 False tbl"

definition WakeupRunner_make_listener :: "string \<Rightarrow> WakeupPolicy \<Rightarrow> PostgresWakeListener option" where
  "WakeupRunner_make_listener engine_dialect policy =
     (if engine_dialect \<noteq> ''postgresql'' \<or> wp_notify_mode policy = OFF then None
      else Some (PostgresWakeListener_new (wp_channel policy)))"

text \<open>The state of a run: the signals, the schedule, the pool and the table.\<close>

record 't wake_state =
  ws_local :: "LocalWakeup option"
  ws_listener :: "PostgresWakeListener option"
  ws_backoff :: FallbackBackoff
  ws_open_conns :: int
  ws_table :: 't

text \<open>
  One \<^verbatim>\<open>asyncio.wait\<close>: how the task of each waiter ends (a task still pending when the wait is
  over is cancelled), and whether the wait itself was cancelled.  Exceptions of finished tasks
  are raised again by \<^verbatim>\<open>task.result()\<close>; those of cancelled tasks are gathered and dropped.
\<close>

record wake_env =
  we_local :: wait_end
  we_connect :: "error + unit"
  we_attach :: "error + unit"
  we_close :: "error + unit"
  we_notify :: wait_end
  we_interrupted :: bool

definition WakeupRunner_wait_for_wake :: "wake_env \<Rightarrow> 't wake_state \<Rightarrow> (error + unit) \<times> 't wake_state" where
  "WakeupRunner_wait_for_wake env st =
     (let st1 = (case ws_local st of
            None \<Rightarrow> st
          | Some w \<Rightarrow> st\<lparr>ws_local := Some (snd (LocalWakeup_wait (we_local env) w))\<rparr>);
          (listened, st2) = (case ws_listener st1 of
            None \<Rightarrow> (Inr False, st1)
          | Some l \<Rightarrow>
              let (r, l', n) = PostgresWakeListener_wait (we_connect env) (we_attach env) (we_close env) (we_notify env) l (ws_open_conns st1)
              in (r, st1\<lparr>ws_listener := Some l', ws_open_conns := n\<rparr>))
      in if we_interrupted env then (Inl (CancelledError), st2)
         else case listened of
                Inl e \<Rightarrow> (if e = CancelledError then Inr () else Inl e, st2)
              | Inr _ \<Rightarrow> (Inr (), st2))"

text \<open>One iteration: wait, drain, adapt the schedule; an exception ends the loop.\<close>

definition WakeupRunner_iteration ::
  "wake_env \<Rightarrow> (nat \<Rightarrow> 't \<Rightarrow> (error + RunSummary) \<times> 't) \<Rightarrow> 't wake_state \<Rightarrow> (error + unit) \<times> 't wake_state" where
  "WakeupRunner_iteration env run_once st =
     (case WakeupRunner_wait_for_wake env st of
        (Inl e, st1) \<Rightarrow> (Inl e, st1)
      | (Inr _, st1) \<Rightarrow>
          (case WakeupRunner_drain run_once (ws_table st1) of
             (Inl e, tbl') \<Rightarrow> (Inl e, st1\<lparr>ws_table := tbl'\<rparr>)
           | (Inr found, tbl') \<Rightarrow>
               (Inr (), st1\<lparr>ws_table := tbl', ws_backoff :=
                  (if found then FallbackBackoff_record_work_found (ws_backoff st1)
                   else FallbackBackoff_record_idle (ws_backoff st1))\<rparr>)))"

text \<open>The loop over a finite list of iterations: \<open>None\<close> when none of them raised.\<close>

fun WakeupRunner_loop ::
  "(wake_env \<times> (nat \<Rightarrow> 't \<Rightarrow> (error + RunSummary) \<times> 't)) list \<Rightarrow> 't wake_state \<Rightarrow> error option \<times> 't wake_state" where
  "WakeupRunner_loop [] st = (None, st)"
| "WakeupRunner_loop ((env, run_once) # iterations) st =
     (case WakeupRunner_iteration env run_once st of
        (Inl e, st') \<Rightarrow> (Some e, st')
      | (Inr _, st') \<Rightarrow> WakeupRunner_loop iterations st')"

text \<open>
  \<^verbatim>\<open>run\<close>: the disabled policy raises before anything is set up; an exception leaves through the
  \<^verbatim>\<open>finally\<close> that closes the listener (whose own exception, if any, replaces it).
\<close>

definition WakeupRunner_run ::
  "WakeupPolicy \<Rightarrow> LocalWakeup option \<Rightarrow> string \<Rightarrow> error + unit \<Rightarrow> error + unit
   \<Rightarrow> (wake_env \<times> (nat \<Rightarrow> 't \<Rightarrow> (error + RunSummary) \<times> 't)) list \<Rightarrow> int \<Rightarrow> 't \<Rightarrow> error option \<times> 't wake_state" where
  "WakeupRunner_run policy local engine_dialect detach close iterations open_conns tbl =
     (let st = \<lparr>ws_local = local, ws_listener = None, ws_backoff = FallbackBackoff_new policy,
                ws_open_conns = open_conns, ws_table = tbl\<rparr>
      in if \<not> wp_enabled policy then (Some (ValidationError ''wakeup policy is disabled''), st)
         else
           case WakeupRunner_loop iterations (st\<lparr>ws_listener := WakeupRunner_make_listener engine_dialect policy\<rparr>) of
             (None, st') \<Rightarrow> (None, st')
           | (Some e, st') \<Rightarrow>
               (case ws_listener st' of
                  None \<Rightarrow> (Some e, st')
                | Some l \<Rightarrow>
                    let (closed, l', n) = PostgresWakeListener_aclose detach close l (ws_open_conns st')
                    in (Some (case closed of Inl e' \<Rightarrow> e' | Inr _ \<Rightarrow> e),
                        st'\<lparr>ws_listener := Some l', ws_open_conns := n\<rparr>)))"

section \<open>Draining ends\<close>

text \<open>The table after \<open>j\<close> passes.\<close>

primrec passes :: "(nat \<Rightarrow> 't \<Rightarrow> (error + RunSummary) \<times> 't) \<Rightarrow> nat \<Rightarrow> 't \<Rightarrow> 't" where
  "passes run_once 0 tbl = tbl"
| "passes run_once (Suc j) tbl = snd (run_once j (passes run_once j tbl))"

definition pass_found :: "(nat \<Rightarrow> 't \<Rightarrow> (error + RunSummary) \<times> 't) \<Rightarrow> nat \<Rightarrow> 't \<Rightarrow> bool" where
  "pass_found run_once j tbl =
     (case fst (run_once j (passes run_once j tbl)) of Inl _ \<Rightarrow> False | Inr s \<Rightarrow> claimed s \<noteq> 0)"

lemma drain_from_answers:
  assumes "drain_from n run_once j found (passes run_once j tbl) = (Inr found', tbl')"
  shows "\<exists>m \<le> n. (\<forall>i. j \<le> i \<and> i < j + m \<longrightarrow> pass_found run_once i tbl) \<and> found' = (found \<or> 0 < m)
    \<and> (m = n \<and> tbl' = passes run_once (j + n) tbl
       \<or> m < n \<and> (\<exists>s. run_once (j + m) (passes run_once (j + m) tbl) = (Inr s, tbl') \<and> claimed s = 0))"
  using assms
proof (induction n arbitrary: j found)
  case 0
  then show ?case by auto
next
  case (Suc n)
  obtain r tbl1 where one: "run_once j (passes run_once j tbl) = (r, tbl1)" by fastforce
  then obtain s where s: "r = Inr s" using Suc.prems by (cases r) auto
  show ?case
  proof (cases "claimed s = 0")
    case True
    with Suc.prems one s show ?thesis by (intro exI [of _ 0]) auto
  next
    case False
    have "drain_from n run_once (Suc j) True (passes run_once (Suc j) tbl) = (Inr found', tbl')"
      using Suc.prems one s False by simp
    from Suc.IH [OF this] obtain m where m: "m \<le> n"
      "\<forall>i. Suc j \<le> i \<and> i < Suc j + m \<longrightarrow> pass_found run_once i tbl" "found'"
      "m = n \<and> tbl' = passes run_once (Suc j + n) tbl
       \<or> m < n \<and> (\<exists>s. run_once (Suc j + m) (passes run_once (Suc j + m) tbl) = (Inr s, tbl') \<and> claimed s = 0)"
      by auto
    have "pass_found run_once j tbl" using one s False by (simp add: pass_found_def)
    with m(2) have "\<forall>i. j \<le> i \<and> i < j + Suc m \<longrightarrow> pass_found run_once i tbl"
      by (metis Suc_leI add_Suc add_Suc_right le_neq_implies_less)
    with m show ?thesis by (intro exI [of _ "Suc m"]) auto
  qed
qed

text \<open>Property C29: a drain that is not ended by an exception makes at most 100 passes; it stops exactly
  at the first pass that claims nothing, or after 100 passes that all claimed something, and it
  reports work exactly when its first pass claimed something.\<close>

theorem drain_stops:
  assumes "WakeupRunner_drain run_once tbl = (Inr found, tbl')"
  shows "\<exists>n \<le> 100. (\<forall>j < n. pass_found run_once j tbl) \<and> found = (0 < n)
    \<and> (n = 100 \<and> tbl' = passes run_once 100 tbl
       \<or> n < 100 \<and> (\<exists>s. run_once n (passes run_once n tbl) = (Inr s, tbl') \<and> claimed s = 0))"
  using drain_from_answers [of 100 run_once 0 False tbl found tbl'] assms
  by (auto simp: WakeupRunner_drain_def MAX_PASSES_PER_WAKE_def)

theorem drain_stops_witness:
  "WakeupRunner_drain (\<lambda>j n. (Inr \<lparr>reclaimed = 0, claimed = n, published = n, retry_scheduled = 0, failed = 0\<rparr>, (0 :: int))) 3
     = (Inr True, 0)
   \<and> pass_found (\<lambda>j n. (Inr \<lparr>reclaimed = 0, claimed = n, published = n, retry_scheduled = 0, failed = 0\<rparr>, (0 :: int))) 0 3"
proof -
  let ?run = "\<lambda>j n. (Inr \<lparr>reclaimed = 0, claimed = n, published = n, retry_scheduled = 0, failed = 0\<rparr>, (0 :: int))"
  have max: "MAX_PASSES_PER_WAKE = Suc (Suc 98)" by (simp add: MAX_PASSES_PER_WAKE_def)
  have run: "WakeupRunner_drain ?run 3 = (Inr True, 0)" unfolding WakeupRunner_drain_def max drain_from.simps by simp
  from drain_stops [OF run] obtain n where "\<forall>j < n. pass_found ?run j 3" "True = (0 < n)" by (elim exE conjE)
  with run show ?thesis by simp
qed

section \<open>The fallback schedule\<close>

lemma idle_default_step:
  assumes "0 \<le> k" "k \<le> 60"
  shows "f_min (f_mul (Fin (of_int k)) (Fin 2)) (Fin 60) = Fin (of_int (min (2 * k) 60))"
proof -
  have "fl_rat (of_int (k * 2)) = of_int (k * 2)" using assms by (intro fl_rat_of_int) auto
  moreover have "\<bar>of_int (k * 2) :: rat\<bar> < pow2 1024"
  proof -
    have "of_int (k * 2) < (of_int 128 :: rat)" using assms by (simp only: of_int_less_iff)
    moreover have "(of_int 128 :: rat) = pow2 7" by (simp add: pow2_def)
    moreover have "pow2 7 < pow2 1024" by (simp add: pow2_less_iff)
    ultimately show ?thesis using assms by simp
  qed
  ultimately have "f_mul (Fin (of_int k)) (Fin 2) = Fin (of_int (2 * k))"
    using fl_Fin [of "of_int (k * 2)"] by (simp add: mult.commute)
  moreover have "(60 :: rat) < of_int (2 * k) \<longleftrightarrow> 60 < 2 * k"
    by (metis of_int_less_iff of_int_numeral)
  ultimately show ?thesis by (auto simp: f_min_def min_def)
qed

abbreviation default_backoff :: "int \<Rightarrow> FallbackBackoff" where
  "default_backoff k \<equiv>
     \<lparr>fb_initial_seconds = Fin 1, fb_max_seconds = Fin 60, fb_multiplier = Fin 2, fb_current_seconds = Fin (of_int k)\<rparr>"

lemma default_backoff_idle:
  "0 \<le> k \<Longrightarrow> k \<le> 60 \<Longrightarrow> FallbackBackoff_record_idle (default_backoff k) = default_backoff (min (2 * k) 60)"
  using idle_default_step [of k] by (simp add: FallbackBackoff_record_idle_def del: f_mul.simps)

lemma default_backoff_new:
  "FallbackBackoff_new default_WakeupPolicy = default_backoff 1"
  using total_seconds_whole [of 1] total_seconds_whole [of 60]
  by (simp add: FallbackBackoff_new_def default_WakeupPolicy_def)

text \<open>Under the default wakeup policy the fallback wait after \<open>n\<close> idle wakes in a row is
  exactly \<open>min (2 ^ n) 60\<close> seconds, and one wake that finds work brings it back to one second.\<close>

lemma default_fallback_schedule:
  "fb_current_seconds ((FallbackBackoff_record_idle ^^ n) (FallbackBackoff_new default_WakeupPolicy))
     = Fin (of_int (min (2 ^ n) 60))
   \<and> fb_current_seconds (FallbackBackoff_record_work_found
       ((FallbackBackoff_record_idle ^^ n) (FallbackBackoff_new default_WakeupPolicy))) = Fin 1"
proof -
  have "(FallbackBackoff_record_idle ^^ n) (FallbackBackoff_new default_WakeupPolicy) = default_backoff (min (2 ^ n) 60)"
  proof (induction n)
    case 0
    then show ?case by (simp add: default_backoff_new)
  next
    case (Suc n)
    have "min (2 * min (2 ^ n) 60) 60 = (min (2 ^ Suc n) 60 :: int)" by auto
    moreover have "FallbackBackoff_record_idle (default_backoff (min (2 ^ n) 60)) = default_backoff (min (2 * min (2 ^ n) 60) 60)"
      by (rule default_backoff_idle) auto
    ultimately show ?case by (simp only: funpow.simps(2) comp_apply Suc.IH)
  qed
  then show ?thesis by (simp add: FallbackBackoff_record_work_found_def)
qed

section \<open>Debouncing\<close>

text \<open>The times at which a sequence of \<^verbatim>\<open>notify\<close> calls sends.\<close>

fun sent_times :: "(pyfloat \<times> (error + unit)) list \<Rightarrow> CoalescedNotifier \<Rightarrow> pyfloat list" where
  "sent_times [] n = []"
| "sent_times ((now, execute) # calls) n =
     (case CoalescedNotifier_notify now execute n of
        (Inr True, n') \<Rightarrow> now # sent_times calls n'
      | (_, n') \<Rightarrow> sent_times calls n')"

fun spaced :: "pyfloat \<Rightarrow> pyfloat list \<Rightarrow> bool" where
  "spaced gap (x # y # ys) = (\<not> f_less (f_sub y x) gap \<and> spaced gap (y # ys))"
| "spaced gap _ = True"

lemma notify_cases:
  obtains (quiet) "CoalescedNotifier_notify now execute n = (Inr False, n)"
    | (failed) e where "CoalescedNotifier_notify now execute n = (Inl e, n)"
    | (sent) "CoalescedNotifier_notify now execute n = (Inr True, n\<lparr>cn_last_notified := Some now\<rparr>)"
        "\<And>prev. cn_last_notified n = Some prev \<Longrightarrow> \<not> f_less (f_sub now prev) (cn_coalesce_seconds n)"
proof (cases "case cn_last_notified n of None \<Rightarrow> False | Some prev \<Rightarrow> f_less (f_sub now prev) (cn_coalesce_seconds n)")
  case True
  with quiet show thesis by (simp add: CoalescedNotifier_notify_def)
next
  case False
  with failed sent show thesis
    by (cases execute) (auto simp: CoalescedNotifier_notify_def split: option.splits)
qed

lemma sent_times_spaced:
  "spaced (cn_coalesce_seconds n) (case cn_last_notified n of None \<Rightarrow> sent_times calls n
     | Some prev \<Rightarrow> prev # sent_times calls n)"
proof (induction calls arbitrary: n)
  case Nil
  then show ?case by (simp split: option.split)
next
  case (Cons call calls)
  obtain now execute where call: "call = (now, execute)" by fastforce
  show ?case
  proof (cases rule: notify_cases [of now execute n])
    case quiet
    with Cons.IH [of n] show ?thesis by (cases "cn_last_notified n") (simp_all add: call)
  next
    case (failed e)
    with Cons.IH [of n] show ?thesis by (cases "cn_last_notified n") (simp_all add: call)
  next
    case sent
    with Cons.IH [of "n\<lparr>cn_last_notified := Some now\<rparr>"] show ?thesis by (cases "cn_last_notified n") (simp_all add: call)
  qed
qed

text \<open>Whatever the calls and their failures, two notifications that follow one another
  are at least the coalesce interval apart on the clock the notifier reads, and a failed attempt
  does not count as one.\<close>

theorem notifier_spaces_notifications:
  "spaced (total_seconds interval) (sent_times calls (CoalescedNotifier_new channel interval))
   \<and> snd (CoalescedNotifier_notify now (Inl e) n) = n"
  using sent_times_spaced [of "CoalescedNotifier_new channel interval" calls]
  by (simp add: CoalescedNotifier_new_def CoalescedNotifier_notify_def)

section \<open>Connections are returned\<close>

text \<open>The pool holds the caller's connections and the listener's, if it has one.\<close>

definition pool_ok :: "int \<Rightarrow> 't wake_state \<Rightarrow> bool" where
  "pool_ok base st \<longleftrightarrow>
     ws_open_conns st = base + (case ws_listener st of None \<Rightarrow> 0 | Some l \<Rightarrow> if pl_conn l then 1 else 0)"

lemma listener_wait_conns:
  assumes "PostgresWakeListener_wait connect attach close outcome l n = (r, l', n')"
  shows "n' - (if pl_conn l' then 1 else 0) = n - (if pl_conn l then 1 else 0)"
  using assms
  by (auto simp: PostgresWakeListener_wait_def PostgresWakeListener_ensure_listener_def
      split: sum.splits wait_end.splits if_splits)

lemma wait_for_wake_pool:
  assumes "pool_ok base st" and "WakeupRunner_wait_for_wake env st = (r, st')"
  shows "pool_ok base st'"
proof -
  obtain st1 where st1: "st1 = (case ws_local st of None \<Rightarrow> st
      | Some w \<Rightarrow> st\<lparr>ws_local := Some (snd (LocalWakeup_wait (we_local env) w))\<rparr>)" by simp
  have same: "ws_listener st1 = ws_listener st" "ws_open_conns st1 = ws_open_conns st"
    by (simp_all add: st1 split: option.split)
  show ?thesis
  proof (cases "ws_listener st")
    case None
    then have "st' = st1"
      using assms(2) same by (auto simp: WakeupRunner_wait_for_wake_def st1 [symmetric] Let_def split: if_splits)
    with None assms(1) same show ?thesis by (simp add: pool_ok_def)
  next
    case (Some l)
    obtain r' l' n where w: "PostgresWakeListener_wait (we_connect env) (we_attach env) (we_close env) (we_notify env) l (ws_open_conns st) = (r', l', n)"
      by (metis prod_cases3)
    then have "st' = st1\<lparr>ws_listener := Some l', ws_open_conns := n\<rparr>"
      using assms(2) Some same
      by (auto simp: WakeupRunner_wait_for_wake_def st1 [symmetric] Let_def split: if_splits sum.splits)
    with listener_wait_conns [OF w] Some assms(1) show ?thesis by (simp add: pool_ok_def)
  qed
qed

lemma loop_pool:
  assumes "pool_ok base st" and "WakeupRunner_loop iterations st = (r, st')"
  shows "pool_ok base st'"
  using assms
proof (induction iterations st rule: WakeupRunner_loop.induct)
  case (1 st)
  then show ?case by simp
next
  case (2 env run_once iterations st)
  obtain r1 st1 where i: "WakeupRunner_iteration env run_once st = (r1, st1)" by fastforce
  obtain r0 st0 where w: "WakeupRunner_wait_for_wake env st = (r0, st0)" by fastforce
  have "pool_ok base st0" using wait_for_wake_pool [OF 2(2) w] .
  then have "pool_ok base st1"
    using i w by (auto simp: WakeupRunner_iteration_def pool_ok_def split: sum.splits prod.splits)
  with 2 i show ?case by (auto split: sum.splits)
qed

text \<open>Property C28: however a run ends (cancelled, a failing database, a failing listener set-up, a
  failing close), no connection it checked out of the engine's pool is still checked out.\<close>

theorem wakeup_run_returns_connections:
  assumes "WakeupRunner_run policy local dialect detach close iterations open_conns tbl = (Some e, st)"
  shows "ws_open_conns st = open_conns"
proof (cases "wp_enabled policy")
  case False
  then show ?thesis using assms by (auto simp: WakeupRunner_run_def)
next
  case True
  let ?st = "\<lparr>ws_local = local, ws_listener = WakeupRunner_make_listener dialect policy,
    ws_backoff = FallbackBackoff_new policy, ws_open_conns = open_conns, ws_table = tbl\<rparr>"
  obtain r st' where loop: "WakeupRunner_loop iterations ?st = (r, st')" by fastforce
  have "pool_ok open_conns ?st"
    by (simp add: pool_ok_def WakeupRunner_make_listener_def PostgresWakeListener_new_def)
  from loop_pool [OF this loop] have ok: "pool_ok open_conns st'" .
  show ?thesis
    using assms True loop ok
    by (auto simp: WakeupRunner_run_def Let_def pool_ok_def PostgresWakeListener_aclose_def
        split: option.splits if_splits prod.splits)
qed

definition example_wake_env :: wake_env where
  "example_wake_env = \<lparr>we_local = Cancelled False, we_connect = Inr (), we_attach = Inr (), we_close = Inr (),
     we_notify = Cancelled True, we_interrupted = True\<rparr>"

theorem wakeup_run_returns_connections_witness:
  "\<exists>st. WakeupRunner_run (default_WakeupPolicy\<lparr>wp_enabled := True\<rparr>) None ''postgresql'' (Inl (CallbackError ''gone'')) (Inr ())
       [(example_wake_env, \<lambda>_ tbl. (Inl DatabaseError, tbl))] 5 ([] :: outbox_table) = (Some (CallbackError ''gone''), st)
     \<and> ws_open_conns st = 5"
proof -
  obtain st where run: "WakeupRunner_run (default_WakeupPolicy\<lparr>wp_enabled := True\<rparr>) None ''postgresql'' (Inl (CallbackError ''gone'')) (Inr ())
       [(example_wake_env, \<lambda>_ tbl. (Inl DatabaseError, tbl))] 5 ([] :: outbox_table) = (Some (CallbackError ''gone''), st)"
    by (simp add: WakeupRunner_run_def WakeupRunner_make_listener_def default_WakeupPolicy_def WakeupRunner_iteration_def
        WakeupRunner_wait_for_wake_def PostgresWakeListener_wait_def PostgresWakeListener_ensure_listener_def
        PostgresWakeListener_new_def example_wake_env_def PostgresWakeListener_aclose_def)
  with wakeup_run_returns_connections [OF run] show ?thesis by blast
qed

end
