(* ===== verification/Drain.thy ===== *)
theory Drain
  imports Wakeup
begin

text \<open>
  The outbox runner under the wakeup loop: a drain whose publishers answer publishes everything
  that is due.  Each pass claims at least the oldest unfinished row, so that a hundred passes
  are enough for a hundred rows, whatever their ordering keys.
\<close>

definition open_ids :: "'a message_row_scheme list \<Rightarrow> uuid set" where
  "open_ids tbl = {i. \<exists>r. row_of tbl i = Some r \<and> unfinished r}"

lemma finite_open_ids [simp]: "finite (open_ids tbl)"
  by (rule finite_subset [of _ "col_id ` set tbl"]) (auto simp: open_ids_def dest: row_of_mem)

text \<open>No lease and no schedule holds an unfinished row back at time \<open>t\<close>.\<close>

definition all_due :: "int \<Rightarrow> 'a message_row_scheme list \<Rightarrow> bool" where
  "all_due t tbl \<longleftrightarrow> list_all (\<lambda>r. unfinished r \<longrightarrow>
     (col_status r = ''pending'' \<or> lease_expired t r) \<and> col_available_at r \<le> t) tbl"

lemma all_due_row:
  assumes "unique_ids tbl"
  shows "all_due t tbl \<longleftrightarrow> (\<forall>i r. row_of tbl i = Some r \<longrightarrow> unfinished r \<longrightarrow>
     (col_status r = ''pending'' \<or> lease_expired t r) \<and> col_available_at r \<le> t)"
  using assms by (auto simp: all_due_def list_all_iff row_of_Some)

text \<open>Unfinished rows stay unfinished or are published, and finished rows are not touched.\<close>

definition publishing_progress :: "outbox_table \<Rightarrow> outbox_table \<Rightarrow> bool" where
  "publishing_progress tbl tbl' \<longleftrightarrow> open_ids tbl' \<subseteq> open_ids tbl
     \<and> (\<forall>i \<in> open_ids tbl - open_ids tbl'. \<exists>r. row_of tbl' i = Some r \<and> col_status r = ''published'')
     \<and> (\<forall>i r. row_of tbl i = Some r \<longrightarrow> \<not> unfinished r \<longrightarrow> row_of tbl' i = Some r)"

lemma publishing_progress_refl: "publishing_progress tbl tbl"
  by (simp add: publishing_progress_def)

lemma publishing_progress_trans:
  assumes "publishing_progress tbl tbl1" "publishing_progress tbl1 tbl'"
  shows "publishing_progress tbl tbl'"
proof -
  have "\<exists>r. row_of tbl' i = Some r \<and> col_status r = ''published''" if i: "i \<in> open_ids tbl" "i \<notin> open_ids tbl'" for i
  proof (cases "i \<in> open_ids tbl1")
    case False
    then obtain r where r: "row_of tbl1 i = Some r" "col_status r = ''published''"
      using assms(1) i(1) unfolding publishing_progress_def by blast
    then have "\<not> unfinished r" by (simp add: unfinished_def)
    with r show ?thesis using assms(2) unfolding publishing_progress_def by blast
  qed (use assms(2) i(2) in \<open>auto simp: publishing_progress_def\<close>)
  then show ?thesis using assms unfolding publishing_progress_def by blast
qed

text \<open>Every call of a publisher answers that the message is published.\<close>

definition all_publish ::
  "('p \<Rightarrow> bool) \<Rightarrow> (nat \<Rightarrow> 'p \<Rightarrow> OutboxMessageRecord \<Rightarrow> error + PublishOutcome) \<Rightarrow> 'p PublisherRegistry \<Rightarrow> bool" where
  "all_publish truthy call reg \<longleftrightarrow>
     (\<forall>k m. \<exists>oc. PublisherRegistry_publish truthy (call k) reg m = Inr oc \<and> po_kind oc = KIND_PUBLISHED)"

lemma run_once_ids:
  assumes env: "pass_env fpow cfg conn clock" and t: "clock 0 = utc t"
    and "OutboxStore_reclaim_expired (conn 0) (utc t) tbl = Inr (n, tbl1)"
    and "OutboxStore_claim_ready cfg (conn 0) (utc t) tbl1 = Inr (ms, tbl2)"
    and "OutboxRunner_run_once fpow cfg truthy call reg conn clock (\<lambda>_ tbl. tbl) tbl = (res, tbl')"
  shows "map col_id tbl' = map col_id tbl2"
proof (rule settle_loop_keeps [where f = "map col_id"])
  show "settle_loop (OutboxRunner_row fpow cfg (\<lambda>k. PublisherRegistry_publish truthy (call k) reg) conn clock) (\<lambda>_ tbl. tbl) 0 ms
      \<lparr>reclaimed = n, claimed = int (length ms), published = 0, retry_scheduled = 0, failed = 0\<rparr> tbl2 = (res, tbl')"
    using assms(3-5) by (simp add: OutboxRunner_run_once_def t)
  show "map col_id tb = map col_id ta"
    if "OutboxRunner_row fpow cfg (\<lambda>k. PublisherRegistry_publish truthy (call k) reg) conn clock k row s ta = Inr (s', tb)"
    for k row s ta s' tb
    using outbox_row_one_row [OF pass_envD(1) [OF env] pass_envD(2) [OF env] that] by (auto simp: one_row_update_def map_update_where_keeps)
qed simp

text \<open>Every call of a publisher answers, whatever it answers.\<close>

definition all_answer ::
  "('p \<Rightarrow> bool) \<Rightarrow> (nat \<Rightarrow> 'p \<Rightarrow> OutboxMessageRecord \<Rightarrow> error + PublishOutcome) \<Rightarrow> 'p PublisherRegistry \<Rightarrow> bool" where
  "all_answer truthy call reg \<longleftrightarrow> (\<forall>k m. \<exists>oc. PublisherRegistry_publish truthy (call k) reg m = Inr oc)"

text \<open>The rows after a pass of one worker: the claimed rows are settled by their outcomes, the others as
  reclaiming left them.\<close>

lemma answered_pass_rows:
  assumes env: "pass_env fpow cfg conn clock" and t: "clock 0 = utc t" and u: "unique_ids tbl"
    and answer: "all_answer truthy call reg" and batch: "1 \<le> outbox_batch_size cfg"
  obtains s tbl' ms tbl2 oc where "OutboxRunner_run_once fpow cfg truthy call reg conn clock (\<lambda>_ tbl. tbl) tbl = (Inr s, tbl')"
    and "unique_ids tbl'" and "claimed s = int (length ms)"
    and "OutboxStore_claim_ready cfg (conn 0) (utc t) (update_where (lease_expired t) (set_reclaimed t) tbl) = Inr (ms, tbl2)"
    and "rec_id ` set ms \<subseteq> open_ids tbl"
    and "\<And>k. k < length ms \<Longrightarrow> PublisherRegistry_publish truthy (call k) reg (ms ! k) = Inr (oc k)"
    and "\<And>k. k < length ms \<Longrightarrow> \<exists>l r r'. row_of tbl (rec_id (ms ! k)) = Some r \<and> row_of tbl' (rec_id (ms ! k)) = Some r'
      \<and> row_settled (retry_policy cfg) (instant (clock (2 * k + 1))) (instant (clock (2 * k + 2))) (oc k)
          (set_claimed l t (reclaimed_at t r)) r'"
    and "\<And>i. i \<notin> rec_id ` set ms \<Longrightarrow>
      row_of tbl' i = map_option (reclaimed_at t) (row_of tbl i)"
proof -
  have ex: "db_session (conn 0)" by (rule pass_envD [OF env])
  define tbl1 where "tbl1 = update_where (lease_expired t) (set_reclaimed t) tbl"
  have reclaim: "OutboxStore_reclaim_expired (conn 0) (utc t) tbl = Inr (rowcount (lease_expired t) tbl, tbl1)"
    by (simp add: outbox_queue.reclaim_eq [OF ex] tbl1_def)
  have u1: "unique_ids tbl1" using u by (simp add: tbl1_def)
  obtain ms tbl2 where claim: "OutboxStore_claim_ready cfg (conn 0) (utc t) tbl1 = Inr (ms, tbl2)"
    using outbox_queue.claim_total [OF ex u1] batch by fastforce
  note rows = outbox_queue.pass_rows [OF ex u reclaim claim]
  obtain oc where oc: "\<And>k. PublisherRegistry_publish truthy (call k) reg (ms ! k) = Inr (oc k)"
    using answer unfolding all_answer_def
    by (metis (no_types) choice [of "\<lambda>k oc. PublisherRegistry_publish truthy (call k) reg (ms ! k) = Inr oc"])
  obtain s tbl' where run: "OutboxRunner_run_once fpow cfg truthy call reg conn clock (\<lambda>_ tbl. tbl) tbl = (Inr s, tbl')"
    and settled: "rows_settled rec_id (settled_outcome cfg clock oc tbl2) 0 ms tbl'"
    and rest: "\<And>i. i \<notin> rec_id ` set ms \<Longrightarrow> row_of tbl' i = row_of tbl2 i"
    using run_once_effect [OF env t u reclaim claim, of UNIV "\<lambda>_ tbl. tbl" "length ms" truthy call reg oc] oc by auto
  show thesis
  proof (rule that [OF run _ _ _ _ oc])
    show "unique_ids tbl'"
      using run_once_ids [OF env t reclaim claim run] outbox_queue.claim_effect(3) [OF ex u1 claim] by (simp add: unique_ids_def)
    show "claimed s = int (length ms)" using run_once_accounting [OF _ _ run, unfolded t, OF reclaim claim] by simp
    show "OutboxStore_claim_ready cfg (conn 0) (utc t) (update_where (lease_expired t) (set_reclaimed t) tbl) = Inr (ms, tbl2)"
      using claim by (simp add: tbl1_def)
    show "rec_id ` set ms \<subseteq> open_ids tbl" using rows(1) by (fastforce simp: open_ids_def)
    show "\<exists>l r r'. row_of tbl (rec_id (ms ! k)) = Some r \<and> row_of tbl' (rec_id (ms ! k)) = Some r'
        \<and> row_settled (retry_policy cfg) (instant (clock (2 * k + 1))) (instant (clock (2 * k + 2))) (oc k)
            (set_claimed l t (reclaimed_at t r)) r'" if k: "k < length ms" for k
      using rows(1) [OF imageI [OF nth_mem [OF k]]] rows_settled_nth [OF settled k] by force
    show "row_of tbl' i = map_option (reclaimed_at t) (row_of tbl i)" if "i \<notin> rec_id ` set ms" for i
      using that by (simp add: rest rows(2))
  qed
qed

lemma publishing_pass_rows:
  assumes env: "pass_env fpow cfg conn clock" and t: "clock 0 = utc t" and u: "unique_ids tbl"
    and pub: "all_publish truthy call reg" and batch: "1 \<le> outbox_batch_size cfg"
  obtains s tbl' ms tbl2 where "OutboxRunner_run_once fpow cfg truthy call reg conn clock (\<lambda>_ tbl. tbl) tbl = (Inr s, tbl')"
    and "unique_ids tbl'" and "claimed s = int (length ms)"
    and "OutboxStore_claim_ready cfg (conn 0) (utc t) (update_where (lease_expired t) (set_reclaimed t) tbl) = Inr (ms, tbl2)"
    and "rec_id ` set ms \<subseteq> open_ids tbl"
    and "\<And>i. i \<in> rec_id ` set ms \<Longrightarrow> \<exists>r. row_of tbl' i = Some r \<and> col_status r = ''published''"
    and "\<And>i. i \<notin> rec_id ` set ms \<Longrightarrow>
      row_of tbl' i = map_option (reclaimed_at t) (row_of tbl i)"
proof -
  have answer: "all_answer truthy call reg" using pub by (auto simp: all_publish_def all_answer_def)
  show thesis
  proof (rule answered_pass_rows [OF env t u answer batch])
    fix s tbl' ms tbl2 oc
    assume rows: "OutboxRunner_run_once fpow cfg truthy call reg conn clock (\<lambda>_ tbl. tbl) tbl = (Inr s, tbl')"
        "unique_ids tbl'" "claimed s = int (length ms)"
        "OutboxStore_claim_ready cfg (conn 0) (utc t) (update_where (lease_expired t) (set_reclaimed t) tbl) = Inr (ms, tbl2)"
        "rec_id ` set ms \<subseteq> open_ids tbl"
      and oc: "\<And>k. k < length ms \<Longrightarrow> PublisherRegistry_publish truthy (call k) reg (ms ! k) = Inr (oc k)"
      and settled: "\<And>k. k < length ms \<Longrightarrow> \<exists>l r r'. row_of tbl (rec_id (ms ! k)) = Some r \<and> row_of tbl' (rec_id (ms ! k)) = Some r'
        \<and> row_settled (retry_policy cfg) (instant (clock (2 * k + 1))) (instant (clock (2 * k + 2))) (oc k)
            (set_claimed l t (reclaimed_at t r)) r'"
      and rest: "\<And>i. i \<notin> rec_id ` set ms \<Longrightarrow>
        row_of tbl' i = map_option (reclaimed_at t) (row_of tbl i)"
    have "\<exists>r. row_of tbl' i = Some r \<and> col_status r = ''published''" if "i \<in> rec_id ` set ms" for i
    proof -
      from that obtain k where k: "k < length ms" "i = rec_id (ms ! k)" by (auto simp: in_set_conv_nth)
      obtain oc' where "PublisherRegistry_publish truthy (call k) reg (ms ! k) = Inr oc'" "po_kind oc' = KIND_PUBLISHED"
        using pub unfolding all_publish_def by blast
      then have "po_kind (oc k) = KIND_PUBLISHED" using oc [OF k(1)] by simp
      with settled [OF k(1)] k(2) show ?thesis by (auto simp: row_settled_def set_published_def)
    qed
    from that [OF rows this rest] show thesis .
  qed
qed

lemma all_due_later:
  fixes tbl :: "'a message_row_scheme list"
  shows "all_due t tbl \<Longrightarrow> t \<le> t' \<Longrightarrow> all_due t' tbl"
proof -
  assume "all_due t tbl" "t \<le> t'"
  moreover from this(2) have "lease_expired t r \<Longrightarrow> lease_expired t' r" for r :: "'a message_row_scheme"
    by (cases "col_lease_until r") (auto simp: lease_expired_def)
  ultimately show ?thesis by (fastforce simp: all_due_def list_all_iff)
qed

lemma all_dueD:
  "all_due t tbl \<Longrightarrow> r \<in> set tbl \<Longrightarrow> unfinished r \<Longrightarrow> (col_status r = ''pending'' \<or> lease_expired t r) \<and> col_available_at r \<le> t"
  by (auto simp: all_due_def list_all_iff)

lemma reclaimed_due:
  assumes "all_due t tbl" "row_of tbl i = Some r" "unfinished r"
  shows "col_status (reclaimed_at t r) = ''pending'' \<and> col_available_at (reclaimed_at t r) \<le> t"
  using all_dueD [OF assms(1) _ assms(3)] row_of_mem [OF assms(2)] by (auto simp: reclaimed_at_def set_defs)

lemma outbox_pass_takes:
  assumes ex: "db_session ex" "\<And>i. \<not> ex_locked ex i" and u: "unique_ids tbl" and due: "all_due t tbl"
    and batch: "1 \<le> outbox_batch_size cfg" and op: "open_ids tbl \<noteq> {}"
    and claim: "OutboxStore_claim_ready cfg ex (utc t) (update_where (lease_expired t) (set_reclaimed t) tbl) = Inr (ms, tbl2)"
  shows "ms \<noteq> []"
proof -
  obtain i r where "row_of tbl i = Some r" "unfinished r" using op by (auto simp: open_ids_def)
  then show ?thesis
    using outbox_queue.pass_progress [OF ex u batch all_dueD [OF due], of r] row_of_mem claim
    by (fastforce simp: outbox_queue.reclaim_eq [OF ex(1)])
qed

text \<open>A pass publishes something as long as something is unfinished.\<close>

lemma publishing_pass:
  assumes env: "pass_env fpow cfg conn clock" and t: "clock 0 = utc t" and free: "\<And>i. \<not> ex_locked (conn 0) i"
    and u: "unique_ids tbl" and due: "all_due t tbl"
    and pub: "all_publish truthy call reg" and batch: "1 \<le> outbox_batch_size cfg"
  obtains s tbl' where "OutboxRunner_run_once fpow cfg truthy call reg conn clock (\<lambda>_ tbl. tbl) tbl = (Inr s, tbl')"
    and "unique_ids tbl'" and "all_due t tbl'" and "claimed s \<noteq> 0 \<longleftrightarrow> open_ids tbl \<noteq> {}"
    and "open_ids tbl \<noteq> {} \<Longrightarrow> card (open_ids tbl') < card (open_ids tbl)"
    and "publishing_progress tbl tbl'"
proof (rule publishing_pass_rows [OF env t u pub batch])
  fix s tbl' ms tbl2
  assume run: "OutboxRunner_run_once fpow cfg truthy call reg conn clock (\<lambda>_ tbl. tbl) tbl = (Inr s, tbl')"
    and u': "unique_ids tbl'" and claimed: "claimed s = int (length ms)"
    and claim: "OutboxStore_claim_ready cfg (conn 0) (utc t) (update_where (lease_expired t) (set_reclaimed t) tbl) = Inr (ms, tbl2)"
    and sub: "rec_id ` set ms \<subseteq> open_ids tbl"
    and published: "\<And>i. i \<in> rec_id ` set ms \<Longrightarrow> \<exists>r. row_of tbl' i = Some r \<and> col_status r = ''published''"
    and rest: "\<And>i. i \<notin> rec_id ` set ms \<Longrightarrow>
      row_of tbl' i = map_option (reclaimed_at t) (row_of tbl i)"
  have op: "open_ids tbl' = open_ids tbl - rec_id ` set ms"
  proof -
    have "i \<in> open_ids tbl' \<longleftrightarrow> i \<in> open_ids tbl" if "i \<notin> rec_id ` set ms" for i
      using rest [OF that] by (cases "row_of tbl i") (auto simp: open_ids_def)
    moreover have "i \<notin> open_ids tbl'" if "i \<in> rec_id ` set ms" for i
      using published [OF that] by (auto simp: open_ids_def unfinished_def)
    ultimately show ?thesis by blast
  qed
  have some: "ms \<noteq> [] \<longleftrightarrow> open_ids tbl \<noteq> {}"
    using outbox_pass_takes [OF pass_envD(1) [OF env] free u due batch _ claim] sub by auto
  show thesis
  proof (rule that [OF run u'])
    have "(col_status r = ''pending'' \<or> lease_expired t r) \<and> col_available_at r \<le> t"
      if r: "row_of tbl' i = Some r" "unfinished r" for i r
    proof -
      have "i \<notin> rec_id ` set ms" using r published [of i] by (auto simp: unfinished_def)
      from rest [OF this] r reclaimed_due [OF due] show ?thesis by (cases "row_of tbl i") auto
    qed
    then show "all_due t tbl'" by (simp add: all_due_row [OF u'])
    show "claimed s \<noteq> 0 \<longleftrightarrow> open_ids tbl \<noteq> {}" using some by (simp add: claimed)
    show "card (open_ids tbl') < card (open_ids tbl)" if ne: "open_ids tbl \<noteq> {}"
    proof -
      obtain m where "m \<in> set ms" using ne some by (cases ms) auto
      then have "open_ids tbl - rec_id ` set ms \<subset> open_ids tbl" using sub by blast
      then show ?thesis unfolding op by (intro psubset_card_mono) simp_all
    qed
    have "row_of tbl' i = Some r" if r: "row_of tbl i = Some r" "\<not> unfinished r" for i r
    proof -
      have "i \<notin> rec_id ` set ms" using sub r by (auto simp: open_ids_def)
      then show ?thesis using rest r by (simp add: reclaimed_at_finished)
    qed
    then show "publishing_progress tbl tbl'" using published by (auto simp: publishing_progress_def op)
  qed
qed

text \<open>The passes of a drain: session and clock of each, on a supported database without row locks.\<close>

definition drain_env ::
  "(pyfloat \<Rightarrow> int \<Rightarrow> error + pyfloat) \<Rightarrow> PactixConfig \<Rightarrow> (nat \<Rightarrow> nat \<Rightarrow> executor) \<Rightarrow> (nat \<Rightarrow> nat \<Rightarrow> datetime) \<Rightarrow> (nat \<Rightarrow> int) \<Rightarrow> bool" where
  "drain_env fpow cfg conn clock t \<longleftrightarrow>
     (\<forall>j. pass_env fpow cfg (conn j) (clock j) \<and> clock j 0 = utc (t j) \<and> (\<forall>i. \<not> ex_locked (conn j 0) i)) \<and> mono t"

lemma drain_from_publishes:
  assumes env: "drain_env fpow cfg conn clock t" and pub: "all_publish truthy call reg" and batch: "1 \<le> outbox_batch_size cfg"
    and "unique_ids tbl" "all_due (t j) tbl" "card (open_ids tbl) \<le> n"
  defines "run \<equiv> \<lambda>j. OutboxRunner_run_once fpow cfg truthy call reg (conn j) (clock j) (\<lambda>_ tbl. tbl)"
  shows "\<exists>tbl'. drain_from n run j found tbl = (Inr (found \<or> open_ids tbl \<noteq> {}), tbl')
    \<and> publishing_progress tbl tbl' \<and> open_ids tbl' = {}"
  using assms(4-6)
proof (induction n arbitrary: j tbl found)
  case 0
  then show ?case by (simp add: publishing_progress_refl)
next
  case (Suc n)
  have e: "pass_env fpow cfg (conn j) (clock j)" "clock j 0 = utc (t j)" "\<not> ex_locked (conn j 0) i" for i
    using env by (auto simp: drain_env_def)
  obtain s tbl1 where
    one: "OutboxRunner_run_once fpow cfg truthy call reg (conn j) (clock j) (\<lambda>_ tbl. tbl) tbl = (Inr s, tbl1)"
    and u1: "unique_ids tbl1" and due1: "all_due (t j) tbl1" and c: "claimed s \<noteq> 0 \<longleftrightarrow> open_ids tbl \<noteq> {}"
    and less: "open_ids tbl \<noteq> {} \<Longrightarrow> card (open_ids tbl1) < card (open_ids tbl)" and step: "publishing_progress tbl tbl1"
    by (rule publishing_pass [OF e Suc.prems(1,2) pub batch]) blast
  show ?case
  proof (cases "open_ids tbl = {}")
    case True
    with c one step show ?thesis by (auto simp: run_def publishing_progress_def)
  next
    case False
    have "mono t" using env by (simp add: drain_env_def)
    then have "all_due (t (j + 1)) tbl1" using all_due_later [OF due1] by (simp add: monoD)
    from Suc.IH [OF u1 this, of True] less [OF False] Suc.prems(3) obtain tbl' where
      "drain_from n run (j + 1) True tbl1 = (Inr True, tbl')" "publishing_progress tbl1 tbl'" "open_ids tbl' = {}" by auto
    moreover from this(1) have "drain_from (Suc n) run j found tbl = (Inr True, tbl')" using one c False by (simp add: run_def)
    ultimately show ?thesis using False publishing_progress_trans [OF step] by auto
  qed
qed

text \<open>Property C11: a drain publishes everything.  When the publishers answer, at most a hundred rows
  are unfinished, and none of them is scheduled for later, leased or locked, then one drain of the
  wakeup loop returns, reports that it found work exactly when there was some, leaves every
  unfinished row published whatever its ordering key, and does not touch the finished ones.\<close>

theorem drain_publishes_everything:
  assumes "drain_env fpow cfg conn clock t" and "all_publish truthy call reg" and "1 \<le> outbox_batch_size cfg"
    and "unique_ids tbl" and "all_due (t 0) tbl" and "card (open_ids tbl) \<le> 100"
  shows "\<exists>tbl'. WakeupRunner_drain (\<lambda>j. OutboxRunner_run_once fpow cfg truthy call reg (conn j) (clock j) (\<lambda>_ tbl. tbl)) tbl
      = (Inr (open_ids tbl \<noteq> {}), tbl')
    \<and> (\<forall>i \<in> open_ids tbl. \<exists>r. row_of tbl' i = Some r \<and> col_status r = ''published'')
    \<and> (\<forall>i r. row_of tbl i = Some r \<longrightarrow> \<not> unfinished r \<longrightarrow> row_of tbl' i = Some r)"
  using drain_from_publishes [OF assms(1-6), of False]
  by (auto simp: WakeupRunner_drain_def MAX_PASSES_PER_WAKE_def publishing_progress_def)

definition example_catch_all :: "nat PublisherRegistry" where
  "example_catch_all = PublisherRegistry_register_all 0 PublisherRegistry_new"

lemma example_catch_all_publishes: "all_publish (\<lambda>_. True) (\<lambda>_ _ _. Inr PublishOutcome_published) example_catch_all"
  by (simp add: all_publish_def example_catch_all_def PublisherRegistry_register_all_def PublisherRegistry_new_def
      PublisherRegistry_publish_def PublisherRegistry_resolve_def outcome_defs)

lemma example_drain_env:
  "drain_env example_pow default_PactixConfig (\<lambda>_ _. example_postgres) (\<lambda>j k. utc (50 + int j)) (\<lambda>j. 50 + int j)"
proof -
  have "\<not> ex_locked example_postgres i" for i by (simp add: example_postgres_def)
  then show ?thesis by (auto simp: drain_env_def pass_env_def sane_policy_def default_PactixConfig_def mono_def)
qed

theorem drain_publishes_everything_witness:
  "\<exists>tbl' r. WakeupRunner_drain (\<lambda>j. OutboxRunner_run_once example_pow default_PactixConfig (\<lambda>_. True)
        (\<lambda>_ _ _. Inr PublishOutcome_published) example_catch_all (\<lambda>_. example_postgres) (\<lambda>k. utc (50 + int j)) (\<lambda>_ tbl. tbl))
        [pending_outbox_row default_PactixConfig 9 5 example_envelope] = (Inr True, tbl')
     \<and> row_of tbl' 9 = Some r \<and> col_status r = ''published''"
proof -
  let ?tbl = "[pending_outbox_row default_PactixConfig 9 5 example_envelope]"
  have op: "open_ids ?tbl = {9}" by (auto simp: open_ids_def row_of_def pending_outbox_row_def unfinished_def)
  have "all_due (50 + int 0) ?tbl" by (simp add: all_due_def pending_outbox_row_def)
  from drain_publishes_everything [OF example_drain_env example_catch_all_publishes _ _ this] op
  show ?thesis by (auto simp: default_PactixConfig_def unique_ids_def)
qed

end
