(* ===== verification/InboxModel.thy ===== *)
theory InboxModel
  imports OutboxModel
begin

text \<open>
  \<^verbatim>\<open>inbox/model.py\<close>: the lifecycle states of an inbox row and the in-memory record with its
  transitions.  \<open>new_id\<close> and \<open>now\<close> are what \<^verbatim>\<open>uuid.uuid4()\<close> and \<^verbatim>\<open>_utcnow()\<close> return.
\<close>

datatype InboxStatus = PENDING | PROCESSING | PROCESSED | FAILED

fun InboxStatus_as_str :: "InboxStatus \<Rightarrow> string" where
  "InboxStatus_as_str PENDING = ''pending''"
| "InboxStatus_as_str PROCESSING = ''processing''"
| "InboxStatus_as_str PROCESSED = ''processed''"
| "InboxStatus_as_str FAILED = ''failed''"

definition InboxStatus_from_str :: "string \<Rightarrow> error + InboxStatus" where
  "InboxStatus_from_str v =
     (if v = ''pending'' then Inr PENDING
      else if v = ''processing'' then Inr PROCESSING
      else if v = ''processed'' then Inr PROCESSED
      else if v = ''failed'' then Inr FAILED
      else Inl (PersistenceError (''unknown inbox status '' @ quoted v)))"

interpretation inbox_status: str_enum InboxStatus_as_str InboxStatus_from_str
proof (standard, goal_cases)
  case (1 x)
  then show ?case by (cases x) (simp_all add: InboxStatus_from_str_def)
next
  case (2 s x)
  then show ?case by (auto simp: InboxStatus_from_str_def split: if_splits)
qed

text \<open>The three text enumerations the library reads back (notify mode, outbox status,
  inbox status) round trip, and any other text is refused with the library's own error.\<close>

lemma enums_round_trip:
  "NotifyMode_from_str (NotifyMode_as_str m) = Inr m
   \<and> OutboxStatus_from_str (OutboxStatus_as_str o') = Inr o'
   \<and> InboxStatus_from_str (InboxStatus_as_str i) = Inr i
   \<and> (NotifyMode_from_str s \<in> range Inr \<or> NotifyMode_from_str s = Inl (ValidationError (''unknown notify mode '' @ quoted s)))
   \<and> ((\<exists>x. OutboxStatus_from_str s = Inr x \<and> OutboxStatus_as_str x = s)
      \<or> OutboxStatus_from_str s = Inl (PersistenceError (''unknown outbox status '' @ quoted s)))
   \<and> ((\<exists>x. InboxStatus_from_str s = Inr x \<and> InboxStatus_as_str x = s)
      \<or> InboxStatus_from_str s = Inl (PersistenceError (''unknown inbox status '' @ quoted s)))"
  using notify_mode.from_as outbox_status.from_as inbox_status.from_as
  by (simp add: NotifyMode_from_str_def OutboxStatus_from_str_def InboxStatus_from_str_def)

section \<open>The record\<close>

record InboxMessageRecord = message_record +
  ib_source :: string
  ib_status :: InboxStatus
  ib_received_at :: datetime
  ib_processed_at :: "datetime option"

definition InboxMessageRecord_pending ::
  "uuid \<Rightarrow> datetime \<Rightarrow> string \<Rightarrow> MessageMetadata \<Rightarrow> json \<Rightarrow> RetryPolicy \<Rightarrow> error + InboxMessageRecord" where
  "InboxMessageRecord_pending new_id now source metadata payload policy =
     (if blank source then Inl (ValidationError ''source must not be empty'')
      else res_bind (MessageEnvelope_new metadata payload) (\<lambda>envelope. Inr \<lparr>
       rec_id = new_id,
       rec_message_id = md_message_id (env_metadata envelope),
       rec_event_type = md_event_type (env_metadata envelope),
       rec_message_key = md_message_key (env_metadata envelope),
       rec_ordering_key = md_ordering_key (env_metadata envelope),
       rec_correlation_id = md_correlation_id (env_metadata envelope),
       rec_payload = env_payload envelope,
       rec_headers = md_headers (env_metadata envelope),
       rec_attempts = 0,
       rec_max_attempts = rp_max_attempts policy,
       rec_available_at = now,
       rec_lease_until = None,
       rec_last_error = None,
       rec_updated_at = now,
       ib_source = source,
       ib_status = PENDING,
       ib_received_at = now,
       ib_processed_at = None\<rparr>))"

definition InboxMessageRecord_mark_processing ::
  "datetime \<Rightarrow> datetime \<Rightarrow> InboxMessageRecord \<Rightarrow> InboxMessageRecord" where
  "InboxMessageRecord_mark_processing now lease_until r =
     r\<lparr>ib_status := PROCESSING, rec_lease_until := Some lease_until, rec_updated_at := now\<rparr>"

definition InboxMessageRecord_mark_retry ::
  "datetime \<Rightarrow> string \<Rightarrow> datetime \<Rightarrow> InboxMessageRecord \<Rightarrow> InboxMessageRecord" where
  "InboxMessageRecord_mark_retry now err available_at r =
     r\<lparr>ib_status := PENDING, rec_attempts := rec_attempts r + 1, rec_available_at := available_at,
       rec_lease_until := None, rec_last_error := Some err, rec_updated_at := now\<rparr>"

definition InboxMessageRecord_mark_failed ::
  "datetime \<Rightarrow> string \<Rightarrow> InboxMessageRecord \<Rightarrow> InboxMessageRecord" where
  "InboxMessageRecord_mark_failed now err r =
     r\<lparr>ib_status := FAILED, rec_attempts := rec_attempts r + 1, rec_lease_until := None,
       rec_last_error := Some err, rec_updated_at := now\<rparr>"

definition InboxMessageRecord_mark_processed ::
  "datetime \<Rightarrow> datetime \<Rightarrow> InboxMessageRecord \<Rightarrow> InboxMessageRecord" where
  "InboxMessageRecord_mark_processed now processed_at r =
     r\<lparr>ib_status := PROCESSED, rec_lease_until := None, ib_processed_at := Some processed_at,
       rec_updated_at := now\<rparr>"

lemma inbox_pending_Inr_iff:
  "InboxMessageRecord_pending i now source m p policy = Inr r \<longleftrightarrow>
     \<not> blank source \<and> valid_metadata m \<and> r = \<lparr>
       rec_id = i, rec_message_id = md_message_id m, rec_event_type = md_event_type m,
       rec_message_key = md_message_key m, rec_ordering_key = md_ordering_key m,
       rec_correlation_id = md_correlation_id m, rec_payload = p, rec_headers = md_headers m,
       rec_attempts = 0, rec_max_attempts = rp_max_attempts policy, rec_available_at = now,
       rec_lease_until = None, rec_last_error = None, rec_updated_at = now, ib_source = source,
       ib_status = PENDING, ib_received_at = now, ib_processed_at = None\<rparr>"
  by (auto simp: InboxMessageRecord_pending_def MessageEnvelope_new_Inr_iff)

lemma inbox_pending_Inl:
  "InboxMessageRecord_pending i now source m p policy = Inl e \<Longrightarrow> \<exists>s. e = ValidationError s"
  by (auto simp: InboxMessageRecord_pending_def res_bind_eq_Inl split: if_splits dest: MessageEnvelope_new_Inl)

end
