(* ===== verification/InboxStore.thy ===== *)
theory InboxStore
  imports InboxModel LeaseQueue
begin

text \<open>
  \<^verbatim>\<open>inbox/store.py\<close>: storing received messages once per \<^verbatim>\<open>(source, message_id)\<close>, claiming with
  and without the ordering gate, reclaiming and settling inbox rows, on PostgreSQL and on MySQL.
\<close>

section \<open>Row and record conversion\<close>

definition inbox_record_values :: "executor \<Rightarrow> InboxMessageRecord \<Rightarrow> string \<Rightarrow> inbox_row" where
  "inbox_record_values ex r dialect =
     (let ts = (\<lambda>v. ex_bind_ts ex (if dialect = MYSQL then naive_utc (ex_local_offset ex) v else v))
      in \<lparr>col_id = rec_id r,
          col_message_id = rec_message_id r,
          col_event_type = rec_event_type r,
          col_message_key = rec_message_key r,
          col_ordering_key = rec_ordering_key r,
          col_correlation_id = rec_correlation_id r,
          col_payload = rec_payload r,
          col_headers = dict_sorted (rec_headers r),
          col_status = InboxStatus_as_str (ib_status r),
          col_attempts = rec_attempts r,
          col_max_attempts = rec_max_attempts r,
          col_available_at = ts (rec_available_at r),
          col_lease_until = map_option ts (rec_lease_until r),
          col_last_error = rec_last_error r,
          col_updated_at = ts (rec_updated_at r),
          col_source = ib_source r,
          col_received_at = ts (ib_received_at r),
          col_processed_at = map_option ts (ib_processed_at r)\<rparr>)"

definition inbox_map_record :: "executor \<Rightarrow> inbox_row \<Rightarrow> error + InboxMessageRecord" where
  "inbox_map_record ex row =
     res_bind (InboxStatus_from_str (col_status row)) (\<lambda>status. Inr \<lparr>
       rec_id = col_id row,
       rec_message_id = col_message_id row,
       rec_event_type = col_event_type row,
       rec_message_key = col_message_key row,
       rec_ordering_key = col_ordering_key row,
       rec_correlation_id = col_correlation_id row,
       rec_payload = ex_fetch_payload ex (col_payload row),
       rec_headers = ex_fetch_headers ex (col_headers row),
       rec_attempts = col_attempts row,
       rec_max_attempts = col_max_attempts row,
       rec_available_at = aware_utc (ex_fetch_ts ex (col_available_at row)),
       rec_lease_until = aware_utc_opt (map_option (ex_fetch_ts ex) (col_lease_until row)),
       rec_last_error = col_last_error row,
       rec_updated_at = aware_utc (ex_fetch_ts ex (col_updated_at row)),
       ib_source = col_source row,
       ib_status = status,
       ib_received_at = aware_utc (ex_fetch_ts ex (col_received_at row)),
       ib_processed_at = aware_utc_opt (map_option (ex_fetch_ts ex) (col_processed_at row))\<rparr>)"

section \<open>Receiving\<close>

record ReceiveOutcome =
  ro_record :: InboxMessageRecord
  ro_inserted :: bool

definition ReceiveOutcome_is_inserted :: "ReceiveOutcome \<Rightarrow> bool" where
  "ReceiveOutcome_is_inserted out = ro_inserted out"

definition ReceiveOutcome_is_duplicate :: "ReceiveOutcome \<Rightarrow> bool" where
  "ReceiveOutcome_is_duplicate out = (\<not> ro_inserted out)"

text \<open>The unique constraint on \<^verbatim>\<open>(source, message_id)\<close>, compared under the server's collation.\<close>

definition inbox_same_message :: "executor \<Rightarrow> inbox_row \<Rightarrow> inbox_row \<Rightarrow> bool" where
  "inbox_same_message ex r r' =
     (text_eq ex (col_source r) (col_source r') \<and> text_eq ex (col_message_id r) (col_message_id r'))"

definition inbox_conflict :: "executor \<Rightarrow> inbox_row \<Rightarrow> inbox_row \<Rightarrow> bool" where
  "inbox_conflict ex r r' = (col_id r = col_id r' \<or> inbox_same_message ex r r')"

definition inbox_fits :: "executor \<Rightarrow> inbox_row \<Rightarrow> bool" where
  "inbox_fits ex r =
     (ex_fits ex (col_source r) \<and> ex_fits ex (col_message_id r) \<and> ex_fits ex (col_event_type r) \<and>
      pred_option (ex_fits ex) (col_ordering_key r) \<and> pred_option (ex_fits ex) (col_correlation_id r) \<and>
      row_stored ex r)"

text \<open>
  \<^verbatim>\<open>INSERT ... ON CONFLICT (source, message_id) DO UPDATE SET source = inbox_message.source
  RETURNING *, (xmax = 0)\<close>: the stored row on a conflict, the new row otherwise; a clash of
  primary keys is not the arbiter's and raises.
\<close>

definition inbox_upsert :: "executor \<Rightarrow> inbox_row \<Rightarrow> inbox_table \<Rightarrow> error + (inbox_row \<times> bool \<times> inbox_table)" where
  "inbox_upsert ex r tbl =
     (if \<not> inbox_fits ex r then Inl DataError
      else case find (inbox_same_message ex r) tbl of
             Some old \<Rightarrow> Inr (old, False, tbl)
           | None \<Rightarrow> res_bind (insert_unique (inbox_conflict ex) r tbl) (\<lambda>tbl'. Inr (r, True, tbl')))"

text \<open>
  \<^verbatim>\<open>INSERT IGNORE\<close>: values too long for a column are cut, a row that violates a unique constraint
  is dropped; the result is the row count (a received row has no attempts and no error).  An invalid JSON document is an error all the same.
\<close>

definition inbox_clipped :: "executor \<Rightarrow> inbox_row \<Rightarrow> inbox_row" where
  "inbox_clipped ex r = r\<lparr>
     col_source := ex_clip ex (col_source r), col_message_id := ex_clip ex (col_message_id r),
     col_event_type := ex_clip ex (col_event_type r),
     col_message_key := map_option (ex_clip_text ex) (col_message_key r),
     col_max_attempts := ex_clip_int ex (col_max_attempts r),
     col_ordering_key := map_option (ex_clip ex) (col_ordering_key r),
     col_correlation_id := map_option (ex_clip ex) (col_correlation_id r)\<rparr>"

definition inbox_insert_ignore :: "executor \<Rightarrow> inbox_row \<Rightarrow> inbox_table \<Rightarrow> int \<times> inbox_table" where
  "inbox_insert_ignore ex r tbl =
     (case insert_unique (inbox_conflict ex) (inbox_clipped ex r) tbl of
        Inl _ \<Rightarrow> (0, tbl) | Inr tbl' \<Rightarrow> (1, tbl'))"

definition InboxStore_save_received_mysql ::
  "executor \<Rightarrow> InboxMessageRecord \<Rightarrow> inbox_row \<Rightarrow> inbox_table \<Rightarrow> error + (ReceiveOutcome \<times> inbox_table)" where
  "InboxStore_save_received_mysql ex record vals tbl =
     (if \<not> (ex_json_ok ex (col_payload vals) \<and> ex_json_ok ex (headers_json (col_headers vals))) then Inl DataError else
      let (rowcount, tbl') = inbox_insert_ignore ex vals tbl
      in if rowcount = 1 then Inr (\<lparr>ro_record = record, ro_inserted = True\<rparr>, tbl')
         else
           case filter (\<lambda>r. text_eq ex (col_source r) (ib_source record) \<and>
                            text_eq ex (col_message_id r) (rec_message_id record)) tbl' of
             [] \<Rightarrow> Inl NoResultFound
           | [row] \<Rightarrow> res_bind (inbox_map_record ex row) (\<lambda>existing.
               Inr (\<lparr>ro_record = existing, ro_inserted = False\<rparr>, tbl'))
           | _ \<Rightarrow> Inl MultipleResultsFound)"

definition InboxStore_save_received ::
  "PactixConfig \<Rightarrow> executor \<Rightarrow> uuid \<Rightarrow> datetime \<Rightarrow> string \<Rightarrow> MessageEnvelope \<Rightarrow> inbox_table
   \<Rightarrow> error + (ReceiveOutcome \<times> inbox_table)" where
  "InboxStore_save_received cfg ex new_id now source envelope tbl =
     res_bind (InboxMessageRecord_pending new_id now source (env_metadata envelope) (env_payload envelope)
                 (retry_policy cfg)) (\<lambda>record.
     res_bind (dialect_name ex) (\<lambda>dialect.
       let vals = inbox_record_values ex record dialect
       in if dialect = MYSQL then InboxStore_save_received_mysql ex record vals tbl
          else res_bind (inbox_upsert ex vals tbl) (\<lambda>(row, inserted, tbl').
                 res_bind (inbox_map_record ex row) (\<lambda>stored.
                   Inr (\<lparr>ro_record = stored, ro_inserted = inserted\<rparr>, tbl')))))"

section \<open>Reading\<close>

definition InboxStore_list_by_status ::
  "executor \<Rightarrow> InboxStatus \<Rightarrow> inbox_table \<Rightarrow> error + InboxMessageRecord list" where
  "InboxStore_list_by_status ex status tbl =
     res_map (inbox_map_record ex)
       (select_order_by (\<lambda>r. col_status r = InboxStatus_as_str status) col_received_at tbl)"

section \<open>Reclaiming and claiming\<close>

definition InboxStore_reclaim_expired ::
  "executor \<Rightarrow> datetime \<Rightarrow> inbox_table \<Rightarrow> error + (int \<times> inbox_table)" where
  "InboxStore_reclaim_expired ex now tbl =
     res_bind (dialect_name ex) (\<lambda>dialect.
       let now' = ex_bind_ts ex (if dialect = MYSQL then naive_utc (ex_local_offset ex) now else now);
           expired = (\<lambda>r. col_status r = ''processing'' \<and> null_less (col_lease_until r) now')
       in Inr (rowcount expired tbl, update_where expired (set_reclaimed now') tbl))"

definition inbox_claimable_fifo :: "executor \<Rightarrow> int \<Rightarrow> inbox_table \<Rightarrow> inbox_row \<Rightarrow> bool" where
  "inbox_claimable_fifo ex now tbl candidate =
     (col_status candidate = ''pending'' \<and>
      col_available_at candidate \<le> now \<and>
      (col_ordering_key candidate = None \<or>
       \<not> list_ex (\<lambda>older.
           text_eq ex (col_event_type older) (col_event_type candidate) \<and>
           null_text_eq ex (col_ordering_key older) (col_ordering_key candidate) \<and>
           col_received_at older < col_received_at candidate \<and>
           (col_status older = ''pending'' \<or> col_status older = ''processing'')) tbl))"

definition inbox_claimable_unordered :: "executor \<Rightarrow> int \<Rightarrow> inbox_table \<Rightarrow> inbox_row \<Rightarrow> bool" where
  "inbox_claimable_unordered ex now tbl candidate =
     (col_status candidate = ''pending'' \<and> col_available_at candidate \<le> now)"

type_synonym inbox_claim_query =
  "executor \<Rightarrow> int \<Rightarrow> int \<Rightarrow> int \<Rightarrow> inbox_table \<Rightarrow> error + (inbox_row list \<times> inbox_table)"

type_synonym inbox_select_query = "executor \<Rightarrow> int \<Rightarrow> int \<Rightarrow> inbox_table \<Rightarrow> error + inbox_row list"

definition inbox_CLAIM_READY_FIFO_SQL :: inbox_claim_query where
  "inbox_CLAIM_READY_FIFO_SQL ex now limit lease_until tbl =
     claim_returning ex (inbox_claimable_fifo ex now tbl) col_received_at limit lease_until now tbl"

definition inbox_CLAIM_READY_UNORDERED_SQL :: inbox_claim_query where
  "inbox_CLAIM_READY_UNORDERED_SQL ex now limit lease_until tbl =
     claim_returning ex (inbox_claimable_unordered ex now tbl) col_received_at limit lease_until now tbl"

definition inbox_CLAIM_READY_FIFO_MYSQL_SQL :: inbox_select_query where
  "inbox_CLAIM_READY_FIFO_MYSQL_SQL ex now limit tbl =
     select_skip_locked ex (inbox_claimable_fifo ex now tbl) col_received_at limit tbl"

definition inbox_CLAIM_READY_UNORDERED_MYSQL_SQL :: inbox_select_query where
  "inbox_CLAIM_READY_UNORDERED_MYSQL_SQL ex now limit tbl =
     select_skip_locked ex (inbox_claimable_unordered ex now tbl) col_received_at limit tbl"

definition InboxStore_claim ::
  "PactixConfig \<Rightarrow> executor \<Rightarrow> datetime \<Rightarrow> inbox_claim_query \<Rightarrow> inbox_table
   \<Rightarrow> error + (InboxMessageRecord list \<times> inbox_table)" where
  "InboxStore_claim cfg ex now query tbl =
     (let lease_until = dt_add now (lease_duration cfg)
      in res_bind (query ex (ex_bind_ts ex now) (inbox_batch_size cfg) (ex_bind_ts ex lease_until) tbl)
           (\<lambda>(rows, tbl').
             res_bind (res_map (inbox_map_record ex) rows) (\<lambda>records. Inr (records, tbl'))))"

definition InboxStore_claim_mysql ::
  "PactixConfig \<Rightarrow> executor \<Rightarrow> datetime \<Rightarrow> inbox_select_query \<Rightarrow> inbox_table
   \<Rightarrow> error + (InboxMessageRecord list \<times> inbox_table)" where
  "InboxStore_claim_mysql cfg ex now query tbl =
     (let db_now = ex_bind_ts ex (naive_utc (ex_local_offset ex) now);
          lease_until = dt_add now (lease_duration cfg)
      in res_bind (query ex db_now (inbox_batch_size cfg) tbl) (\<lambda>rows.
           if rows = [] then Inr ([], tbl)
           else
             let tbl' = update_where (\<lambda>r. col_id r \<in> set (map col_id rows))
                   (set_claimed (ex_bind_ts ex (naive_utc (ex_local_offset ex) lease_until)) db_now) tbl
             in res_bind (res_map (\<lambda>row. res_bind (inbox_map_record ex row) (\<lambda>record.
                    Inr (record\<lparr>ib_status := PROCESSING, rec_lease_until := Some lease_until,
                                rec_updated_at := now\<rparr>))) rows)
                  (\<lambda>records. Inr (records, tbl'))))"

definition InboxStore_claim_ready ::
  "PactixConfig \<Rightarrow> executor \<Rightarrow> datetime \<Rightarrow> inbox_table \<Rightarrow> error + (InboxMessageRecord list \<times> inbox_table)" where
  "InboxStore_claim_ready cfg ex now tbl =
     res_bind (dialect_name ex) (\<lambda>dialect.
       if dialect = MYSQL then InboxStore_claim_mysql cfg ex now inbox_CLAIM_READY_FIFO_MYSQL_SQL tbl
       else InboxStore_claim cfg ex now inbox_CLAIM_READY_FIFO_SQL tbl)"

definition InboxStore_claim_ready_unordered ::
  "PactixConfig \<Rightarrow> executor \<Rightarrow> datetime \<Rightarrow> inbox_table \<Rightarrow> error + (InboxMessageRecord list \<times> inbox_table)" where
  "InboxStore_claim_ready_unordered cfg ex now tbl =
     res_bind (dialect_name ex) (\<lambda>dialect.
       if dialect = MYSQL then InboxStore_claim_mysql cfg ex now inbox_CLAIM_READY_UNORDERED_MYSQL_SQL tbl
       else InboxStore_claim cfg ex now inbox_CLAIM_READY_UNORDERED_SQL tbl)"

section \<open>Settling\<close>

definition set_processed :: "int \<Rightarrow> inbox_row \<Rightarrow> inbox_row" where
  "set_processed t r =
     r\<lparr>col_status := ''processed'', col_lease_until := None, col_processed_at := Some t,
       col_updated_at := t\<rparr>"

definition InboxStore_mark_processed ::
  "executor \<Rightarrow> uuid \<Rightarrow> datetime \<Rightarrow> inbox_table \<Rightarrow> error + inbox_table" where
  "InboxStore_mark_processed ex i processed_at tbl =
     res_bind (dialect_name ex) (\<lambda>dialect.
       let t = (if dialect = MYSQL then naive_utc (ex_local_offset ex) processed_at else processed_at)
       in Inr (update_where (\<lambda>r. col_id r = i) (set_processed (ex_bind_ts ex t)) tbl))"

definition InboxStore_mark_retry ::
  "executor \<Rightarrow> datetime \<Rightarrow> uuid \<Rightarrow> string \<Rightarrow> datetime \<Rightarrow> inbox_table \<Rightarrow> error + inbox_table" where
  "InboxStore_mark_retry ex now i err available_at tbl =
     res_bind (dialect_name ex) (\<lambda>dialect.
       let norm = (\<lambda>v. if dialect = MYSQL then naive_utc (ex_local_offset ex) v else v)
       in update_attempt ex i
            (set_retry err (ex_bind_ts ex (norm available_at)) (ex_bind_ts ex (norm now))) tbl)"

definition InboxStore_mark_failed ::
  "executor \<Rightarrow> datetime \<Rightarrow> uuid \<Rightarrow> string \<Rightarrow> inbox_table \<Rightarrow> error + inbox_table" where
  "InboxStore_mark_failed ex now i err tbl =
     res_bind (dialect_name ex) (\<lambda>dialect.
       let updated_at = (if dialect = MYSQL then naive_utc (ex_local_offset ex) now else now)
       in update_attempt ex i (set_failed err (ex_bind_ts ex updated_at)) tbl)"

section \<open>The record a row stores\<close>

definition inbox_view :: "executor \<Rightarrow> InboxStatus \<Rightarrow> inbox_row \<Rightarrow> InboxMessageRecord" where
  "inbox_view ex st row = \<lparr>
     rec_id = col_id row, rec_message_id = col_message_id row, rec_event_type = col_event_type row,
     rec_message_key = col_message_key row, rec_ordering_key = col_ordering_key row,
     rec_correlation_id = col_correlation_id row, rec_payload = ex_fetch_payload ex (col_payload row),
     rec_headers = ex_fetch_headers ex (col_headers row),
     rec_attempts = col_attempts row, rec_max_attempts = col_max_attempts row,
     rec_available_at = utc (col_available_at row), rec_lease_until = map_option utc (col_lease_until row),
     rec_last_error = col_last_error row, rec_updated_at = utc (col_updated_at row),
     ib_source = col_source row, ib_status = st,
     ib_received_at = utc (col_received_at row), ib_processed_at = map_option utc (col_processed_at row)\<rparr>"

lemma inbox_map_record_view:
  assumes "db_driver ex" and "col_status row = InboxStatus_as_str st"
  shows "inbox_map_record ex row = Inr (inbox_view ex st row)"
  using assms by (simp add: inbox_map_record_def inbox_view_def inbox_status.from_as)

lemma rec_id_inbox_view [simp]: "rec_id (inbox_view ex st row) = col_id row"
  by (simp add: inbox_view_def)

lemma inbox_claimed_view:
  "(inbox_view ex st row)\<lparr>ib_status := PROCESSING, rec_lease_until := Some (utc l), rec_updated_at := utc t\<rparr>
    = inbox_view ex PROCESSING (set_claimed l t row)"
  by (simp add: inbox_view_def set_claimed_def)

section \<open>Both claim modes are lease queues\<close>

text \<open>The two branches, for any WHERE clause \<open>ready\<close> that asks for pending rows.\<close>

lemma inbox_claim_mysql_selected:
  assumes ex: "mysql_session ex" and u: "unique_ids tbl"
    and query: "\<And>n tbl. query ex t n tbl = select_skip_locked ex (ready ex t tbl) col_received_at n tbl"
    and ready: "\<And>r. ready ex t tbl r \<Longrightarrow> col_status r = ''pending''"
    and sel: "select_skip_locked ex (ready ex t tbl) col_received_at (inbox_batch_size cfg) tbl = Inr sel"
  shows "InboxStore_claim_mysql cfg ex (utc t) query tbl =
    Inr (map (inbox_view ex PROCESSING) (map (set_claimed (t + lease_duration cfg) t) sel),
         update_where (\<lambda>r. r \<in> set sel) (set_claimed (t + lease_duration cfg) t) tbl)"
proof -
  note db = mysql_db_session [OF ex]
  have bind: "ex_bind_ts ex (Naive w) = w" for w using mysqlD [OF session_driver(3) [OF ex]] by simp
  have sound: "r \<in> set tbl" "col_status r = ''pending''" if "r \<in> set sel" for r
    using select_skip_locked_sound(2) [OF sel that] ready by blast+
  have rows: "res_map (\<lambda>row. res_bind (inbox_map_record ex row) (\<lambda>record.
        Inr (record\<lparr>ib_status := PROCESSING, rec_lease_until := Some (utc (t + lease_duration cfg)),
                    rec_updated_at := utc t\<rparr>))) sel
      = Inr (map (\<lambda>row. inbox_view ex PROCESSING (set_claimed (t + lease_duration cfg) t row)) sel)"
    by (rule res_map_total) (simp add: sound inbox_map_record_view [OF session_driver(1) [OF db], of _ PENDING] inbox_claimed_view)
  have upd: "update_where (\<lambda>r. col_id r \<in> set (map col_id sel)) f tbl = update_where (\<lambda>r. r \<in> set sel) f tbl" for f
    using claimed_rows_update [OF u] sound(1) by blast
  show ?thesis
    using sel rows upd
    by (auto simp: InboxStore_claim_mysql_def query bind update_where_none comp_def Let_def)
qed

lemma inbox_claim_postgres_selected:
  assumes ex: "postgres_session ex" and u: "unique_ids tbl"
    and query: "\<And>n l tbl. query ex t n l tbl = claim_returning ex (ready ex t tbl) col_received_at n l t tbl"
    and sel: "select_skip_locked ex (ready ex t tbl) col_received_at (inbox_batch_size cfg) tbl = Inr sel"
  shows "\<exists>rows. InboxStore_claim cfg ex (utc t) query tbl =
      Inr (map (inbox_view ex PROCESSING) rows,
           update_where (\<lambda>r. r \<in> set sel) (set_claimed (t + lease_duration cfg) t) tbl)
    \<and> mset rows = mset (map (set_claimed (t + lease_duration cfg) t) sel)"
proof -
  note db = postgres_db_session [OF ex]
  have bind: "ex_bind_ts ex (Aware w off) = w - off" for w off using postgresD [OF session_driver(2) [OF ex]] by simp
  obtain rows where claim: "claim_returning ex (ready ex t tbl) col_received_at (inbox_batch_size cfg)
        (t + lease_duration cfg) t tbl
      = Inr (rows, update_where (\<lambda>r. r \<in> set sel) (set_claimed (t + lease_duration cfg) t) tbl)"
    and rows: "mset rows = mset (map (set_claimed (t + lease_duration cfg) t) sel)"
    using claim_returning_spec [OF u sel] by blast
  have "col_status r = ''processing''" if "r \<in> set rows" for r
    using mset_eq_setD [OF rows] that by auto
  then have "res_map (inbox_map_record ex) rows = Inr (map (inbox_view ex PROCESSING) rows)"
    by (intro res_map_total) (simp add: inbox_map_record_view [OF session_driver(1) [OF db]])
  with claim rows show ?thesis by (auto simp: InboxStore_claim_def bind query)
qed

lemma inbox_claim_branch_selected:
  assumes ex: "db_session ex" and u: "unique_ids tbl"
    and pgq: "\<And>n l tbl. pgq ex t n l tbl = claim_returning ex (ready ex t tbl) col_received_at n l t tbl"
    and myq: "\<And>n tbl. myq ex t n tbl = select_skip_locked ex (ready ex t tbl) col_received_at n tbl"
    and ready: "\<And>r. ready ex t tbl r \<Longrightarrow> col_status r = ''pending''"
    and sel: "select_skip_locked ex (ready ex t tbl) col_received_at (inbox_batch_size cfg) tbl = Inr sel"
  shows "\<exists>rows. (if ex_dialect ex = MYSQL then InboxStore_claim_mysql cfg ex (utc t) myq tbl
        else InboxStore_claim cfg ex (utc t) pgq tbl) =
      Inr (map (inbox_view ex PROCESSING) rows,
           update_where (\<lambda>r. r \<in> set sel) (set_claimed (t + lease_duration cfg) t) tbl)
    \<and> mset rows = mset (map (set_claimed (t + lease_duration cfg) t) sel)"
  using ex unfolding db_session_def
proof
  assume pg: "postgres_session ex"
  then have "ex_dialect ex \<noteq> MYSQL" using postgresD(1) by fastforce
  with inbox_claim_postgres_selected [where query = pgq and ready = ready and t = t, OF pg u pgq sel] show ?thesis by simp
next
  assume my: "mysql_session ex"
  then have "ex_dialect ex = MYSQL" using mysqlD(1) by fastforce
  with inbox_claim_mysql_selected [where query = myq and ready = ready and t = t, OF my u myq ready sel]
  show ?thesis by (intro exI [of _ "map (set_claimed (t + lease_duration cfg) t) sel"]) simp
qed

lemma inbox_claim_selected:
  assumes ex: "db_session ex" and u: "unique_ids tbl"
    and sel: "select_skip_locked ex (inbox_claimable_fifo ex t tbl) col_received_at (inbox_batch_size cfg) tbl = Inr sel"
  shows "\<exists>rows. InboxStore_claim_ready cfg ex (utc t) tbl =
      Inr (map (inbox_view ex PROCESSING) rows,
           update_where (\<lambda>r. r \<in> set sel) (set_claimed (t + lease_duration cfg) t) tbl)
    \<and> mset rows = mset (map (set_claimed (t + lease_duration cfg) t) sel)"
  unfolding InboxStore_claim_ready_def dialect_name_session [OF session_driver(1) [OF ex]] res_bind_Inr
  by (rule inbox_claim_branch_selected [where ready = inbox_claimable_fifo, OF ex u _ _ _ sel])
    (simp_all add: inbox_CLAIM_READY_FIFO_SQL_def inbox_CLAIM_READY_FIFO_MYSQL_SQL_def inbox_claimable_fifo_def)

lemma inbox_claim_unordered_selected:
  assumes ex: "db_session ex" and u: "unique_ids tbl"
    and sel: "select_skip_locked ex (inbox_claimable_unordered ex t tbl) col_received_at (inbox_batch_size cfg) tbl = Inr sel"
  shows "\<exists>rows. InboxStore_claim_ready_unordered cfg ex (utc t) tbl =
      Inr (map (inbox_view ex PROCESSING) rows,
           update_where (\<lambda>r. r \<in> set sel) (set_claimed (t + lease_duration cfg) t) tbl)
    \<and> mset rows = mset (map (set_claimed (t + lease_duration cfg) t) sel)"
  unfolding InboxStore_claim_ready_unordered_def dialect_name_session [OF session_driver(1) [OF ex]] res_bind_Inr
  by (rule inbox_claim_branch_selected [where ready = inbox_claimable_unordered, OF ex u _ _ _ sel])
    (simp_all add: inbox_CLAIM_READY_UNORDERED_SQL_def inbox_CLAIM_READY_UNORDERED_MYSQL_SQL_def
      inbox_claimable_unordered_def)

lemma inbox_claim_negative_batch:
  assumes "db_session ex" and "inbox_batch_size cfg < 0"
  shows "InboxStore_claim_ready cfg ex now tbl = Inl DatabaseError"
    and "InboxStore_claim_ready_unordered cfg ex now tbl = Inl DatabaseError"
  using assms
  by (simp_all add: InboxStore_claim_ready_def InboxStore_claim_ready_unordered_def InboxStore_claim_def
      InboxStore_claim_mysql_def inbox_CLAIM_READY_FIFO_SQL_def inbox_CLAIM_READY_FIFO_MYSQL_SQL_def
      inbox_CLAIM_READY_UNORDERED_SQL_def inbox_CLAIM_READY_UNORDERED_MYSQL_SQL_def
      claim_returning_def select_skip_locked_def)

text \<open>What an answered claim of either mode did; \<open>claim\<close> is one of the two operations.\<close>

lemma inbox_claim_Inr:
  assumes "claim = InboxStore_claim_ready \<and> ready = inbox_claimable_fifo
      \<or> claim = InboxStore_claim_ready_unordered \<and> ready = inbox_claimable_unordered"
    and ex: "db_session ex" and u: "unique_ids tbl" and c: "claim cfg ex (utc t) tbl = Inr (ms, tbl')"
  obtains sel rows where
    "select_skip_locked ex (ready ex t tbl) col_received_at (inbox_batch_size cfg) tbl = Inr sel"
    and "tbl' = update_where (\<lambda>r. r \<in> set sel) (set_claimed (t + lease_duration cfg) t) tbl"
    and "ms = map (inbox_view ex PROCESSING) rows"
    and "mset rows = mset (map (set_claimed (t + lease_duration cfg) t) sel)"
proof (cases "select_skip_locked ex (ready ex t tbl) col_received_at (inbox_batch_size cfg) tbl")
  case (Inl e)
  then have "inbox_batch_size cfg < 0" by (simp add: select_skip_locked_def split: if_splits)
  then show ?thesis using assms(1) c inbox_claim_negative_batch [OF ex] by auto
next
  case (Inr sel)
  have "\<exists>rows. claim cfg ex (utc t) tbl =
      Inr (map (inbox_view ex PROCESSING) rows,
           update_where (\<lambda>r. r \<in> set sel) (set_claimed (t + lease_duration cfg) t) tbl)
    \<and> mset rows = mset (map (set_claimed (t + lease_duration cfg) t) sel)"
    using assms(1) inbox_claim_selected [OF ex u, of t cfg sel] inbox_claim_unordered_selected [OF ex u, of t cfg sel] Inr
    by blast
  then show ?thesis using c Inr that by auto
qed

lemma inbox_claim_queue_laws:
  assumes "claim = InboxStore_claim_ready \<and> ready = inbox_claimable_fifo
      \<or> claim = InboxStore_claim_ready_unordered \<and> ready = inbox_claimable_unordered"
  shows "lease_queue rec_id col_received_at inbox_batch_size ready claim InboxStore_reclaim_expired"
proof (unfold_locales, goal_cases)
  case (1 ex tbl cfg t)
  then obtain sel where "select_skip_locked ex (ready ex t tbl) col_received_at (inbox_batch_size cfg) tbl = Inr sel"
    by (simp add: select_skip_locked_def)
  then show ?case
    using assms inbox_claim_selected [OF 1(1,2), of t cfg sel] inbox_claim_unordered_selected [OF 1(1,2), of t cfg sel]
    by blast
next
  case (2 ex tbl cfg t ms tbl')
  then show ?case
    by (elim inbox_claim_Inr [OF assms]) (auto simp: multiset.map_comp comp_def dest: mset_map_claimed_ids)
next
  case (3 ex t tbl r)
  then show ?case using assms by (auto simp: inbox_claimable_fifo_def inbox_claimable_unordered_def)
next
  case (4 ex t tbl)
  then show ?case
    by (simp add: InboxStore_reclaim_expired_def db_time_branch lease_expired_def [abs_def] Let_def)
qed

interpretation inbox_unordered: lease_queue rec_id col_received_at inbox_batch_size inbox_claimable_unordered
  InboxStore_claim_ready_unordered InboxStore_reclaim_expired
  by (rule inbox_claim_queue_laws) simp

interpretation inbox_queue: fifo_queue rec_id col_received_at inbox_batch_size inbox_claimable_fifo
  InboxStore_claim_ready InboxStore_reclaim_expired
  by (intro fifo_queue.intro inbox_claim_queue_laws fifo_queue_axioms.intro)
    (auto simp: inbox_claimable_fifo_def list_ex_iff same_key_def unfinished_def)

interpretation inbox_retry: retry_store InboxStore_mark_retry InboxStore_mark_failed
  by unfold_locales (simp_all add: InboxStore_mark_retry_def InboxStore_mark_failed_def db_time_branch Let_def)

lemma mark_processed_eq:
  assumes "db_session ex" and "is_aware t"
  shows "InboxStore_mark_processed ex i t tbl =
    Inr (update_where (\<lambda>r. col_id r = i) (set_processed (instant t)) tbl)"
  using assms by (simp add: InboxStore_mark_processed_def db_time_branch Let_def)

end
