(* ===== verification/InboxCorrect.thy ===== *)
theory InboxCorrect
  imports InboxStore OutboxCorrect
begin

text \<open>
  Correctness of the inbox store: a message is stored once per \<^verbatim>\<open>(source, message_id)\<close> whatever
  happens to its row afterwards, both claim modes respect leases, the ordered mode is first in,
  first out, the settling updates refine the in-memory transitions, and the invariant of every
  table the operations can build.  The last section shows where MySQL's \<^verbatim>\<open>INSERT IGNORE\<close> departs
  from it.
\<close>

section \<open>The row of a fresh message\<close>

definition pending_inbox_row :: "PactixConfig \<Rightarrow> uuid \<Rightarrow> int \<Rightarrow> string \<Rightarrow> MessageEnvelope \<Rightarrow> inbox_row" where
  "pending_inbox_row cfg i t source envelope = \<lparr>
     col_id = i, col_message_id = md_message_id (env_metadata envelope),
     col_event_type = md_event_type (env_metadata envelope), col_message_key = md_message_key (env_metadata envelope),
     col_ordering_key = md_ordering_key (env_metadata envelope),
     col_correlation_id = md_correlation_id (env_metadata envelope), col_payload = env_payload envelope,
     col_headers = dict_sorted (md_headers (env_metadata envelope)), col_status = ''pending'',
     col_attempts = 0, col_max_attempts = rp_max_attempts (retry_policy cfg), col_available_at = t,
     col_lease_until = None, col_last_error = None, col_updated_at = t, col_source = source,
     col_received_at = t, col_processed_at = None\<rparr>"

definition valid_receipt :: "string \<Rightarrow> MessageEnvelope \<Rightarrow> bool" where
  "valid_receipt source env \<longleftrightarrow> \<not> blank source \<and> valid_metadata (env_metadata env)"

lemma inbox_pending_values:
  assumes "db_driver ex" and "valid_receipt source env"
  obtains rec where
    "InboxMessageRecord_pending i (utc t) source (env_metadata env) (env_payload env) (retry_policy cfg) = Inr rec"
    and "inbox_record_values ex rec (ex_dialect ex) = pending_inbox_row cfg i t source env"
    and "ib_source rec = source" and "rec_message_id rec = md_message_id (env_metadata env)" and "rec_id rec = i"
    and "wf_dict (md_headers (env_metadata env)) \<Longrightarrow> inbox_fits ex (pending_inbox_row cfg i t source env) \<Longrightarrow>
      same_record (inbox_view ex InboxStatus.PENDING (pending_inbox_row cfg i t source env)) rec"
proof -
  obtain rec where
    rec: "InboxMessageRecord_pending i (utc t) source (env_metadata env) (env_payload env) (retry_policy cfg) = Inr rec"
    using assms(2) by (simp add: inbox_pending_Inr_iff valid_receipt_def)
  show thesis
  proof (rule that [OF rec])
    show "inbox_record_values ex rec (ex_dialect ex) = pending_inbox_row cfg i t source env"
      using assms(1) rec
      by (auto simp: inbox_pending_Inr_iff inbox_record_values_def pending_inbox_row_def db_time_branch Let_def)
    show "same_record (inbox_view ex InboxStatus.PENDING (pending_inbox_row cfg i t source env)) rec"
      if "wf_dict (md_headers (env_metadata env))" "inbox_fits ex (pending_inbox_row cfg i t source env)"
      using rec that driver_json [OF assms(1)] assms(1)
      by (auto simp: same_record_def inbox_view_def pending_inbox_row_def inbox_pending_Inr_iff json_kept_def
          inbox_fits_def row_stored_def map_of_dict_sorted)
  qed (use rec in \<open>auto simp: inbox_pending_Inr_iff\<close>)
qed

lemma pending_inbox_row_simps [simp]:
  "col_id (pending_inbox_row cfg i t source env) = i"
  "col_source (pending_inbox_row cfg i t source env) = source"
  "col_message_id (pending_inbox_row cfg i t source env) = md_message_id (env_metadata env)"
  "col_status (pending_inbox_row cfg i t source env) = ''pending''"
  by (simp_all add: pending_inbox_row_def)

section \<open>The invariant\<close>

definition inbox_row_ok :: "inbox_row \<Rightarrow> bool" where
  "inbox_row_ok r \<longleftrightarrow>
     col_status r \<in> {''pending'', ''processing'', ''processed'', ''failed''} \<and>
     (col_status r = ''processing'' \<longleftrightarrow> col_lease_until r \<noteq> None) \<and>
     (col_status r = ''processed'' \<longrightarrow> col_processed_at r \<noteq> None) \<and>
     0 \<le> col_attempts r \<and>
     (col_status r = ''failed'' \<longrightarrow> 0 < col_attempts r \<and> col_last_error r \<noteq> None)"

definition message_key_of :: "executor \<Rightarrow> inbox_row \<Rightarrow> string \<times> string" where
  "message_key_of ex r = (ex_collate ex (col_source r), ex_collate ex (col_message_id r))"

definition inbox_invariant :: "executor \<Rightarrow> inbox_table \<Rightarrow> bool" where
  "inbox_invariant ex tbl \<longleftrightarrow>
     unique_ids tbl \<and> distinct (map (message_key_of ex) tbl) \<and> list_all inbox_row_ok tbl"

lemma same_message_key: "inbox_same_message ex r r' \<longleftrightarrow> message_key_of ex r = message_key_of ex r'"
  by (simp add: inbox_same_message_def message_key_of_def text_eq_def)

lemma inbox_row_ok_view:
  assumes "db_driver ex" "inbox_row_ok r"
  shows "\<exists>m. inbox_map_record ex r = Inr m \<and> rec_id m = col_id r"
proof -
  have "\<exists>st. col_status r = InboxStatus_as_str st"
    using assms(2) unfolding inbox_row_ok_def
    by (metis InboxStatus_as_str.simps insert_iff singletonD)
  then show ?thesis using inbox_map_record_view [OF assms(1)] by fastforce
qed

lemma filter_unique_key:
  assumes "distinct (map key xs)" "x \<in> set xs"
  shows "filter (\<lambda>y. key y = key x) xs = [x]" and "find (\<lambda>y. key x = key y) xs = Some x"
  using assms by (induction xs) (auto simp: filter_empty_conv image_iff split: if_splits)

section \<open>Receiving\<close>

text \<open>What one \<^verbatim>\<open>save_received\<close> does, on either database, when the values fit their columns.\<close>

lemma clipped_fits:
  assumes "mysql_driver ex" "inbox_fits ex r"
  shows "inbox_clipped ex r = r"
proof -
  note clip = mysqlD(4-6) [OF assms(1)]
  have "map_option (ex_clip ex) v = v" if "pred_option (ex_fits ex) v" for v
    using clip(1) that by (cases v) auto
  moreover have "map_option (ex_clip_text ex) v = v" if "pred_option (ex_text_ok ex) v" for v
    using clip(2) that by (cases v) auto
  ultimately show ?thesis using clip assms(2) by (simp add: inbox_clipped_def inbox_fits_def row_stored_def)
qed

lemma fits_json: "inbox_fits ex r \<Longrightarrow> ex_json_ok ex (col_payload r) \<and> ex_json_ok ex (headers_json (col_headers r))"
  by (simp add: inbox_fits_def row_stored_def)

lemma save_received_duplicate:
  assumes ex: "db_driver ex" and inv: "inbox_invariant ex tbl" and valid: "valid_receipt source env"
    and fits: "inbox_fits ex (pending_inbox_row cfg i t source env)"
    and old: "old \<in> set tbl" "text_eq ex (col_source old) source"
      "text_eq ex (col_message_id old) (md_message_id (env_metadata env))"
  shows "\<exists>m. InboxStore_save_received cfg ex i (utc t) source env tbl = Inr (\<lparr>ro_record = m, ro_inserted = False\<rparr>, tbl)
    \<and> inbox_map_record ex old = Inr m \<and> rec_id m = col_id old"
proof -
  let ?row = "pending_inbox_row cfg i t source env"
  obtain rec where rec:
    "InboxMessageRecord_pending i (utc t) source (env_metadata env) (env_payload env) (retry_policy cfg) = Inr rec"
    "inbox_record_values ex rec (ex_dialect ex) = ?row"
    "ib_source rec = source" "rec_message_id rec = md_message_id (env_metadata env)"
    using inbox_pending_values [OF ex valid] by metis
  obtain m where m: "inbox_map_record ex old = Inr m" "rec_id m = col_id old"
    using inbox_row_ok_view [OF ex] inv old(1) unfolding inbox_invariant_def list_all_iff by blast
  have dist: "distinct (map (message_key_of ex) tbl)" using inv by (simp add: inbox_invariant_def)
  have key: "message_key_of ex ?row = message_key_of ex old"
    using old(2,3) by (simp add: message_key_of_def text_eq_def)
  have found: "find (inbox_same_message ex ?row) tbl = Some old"
    using filter_unique_key(2) [OF dist old(1)] by (simp add: same_message_key [abs_def] key)
  have "filter (\<lambda>r. text_eq ex (col_source r) source \<and> text_eq ex (col_message_id r) (md_message_id (env_metadata env))) tbl
      = filter (\<lambda>r. message_key_of ex r = message_key_of ex old) tbl"
    unfolding key [symmetric] by (simp add: message_key_of_def text_eq_def)
  then have one: "filter (\<lambda>r. text_eq ex (col_source r) source \<and> text_eq ex (col_message_id r) (md_message_id (env_metadata env))) tbl
      = [old]" using filter_unique_key(1) [OF dist old(1)] by simp
  have "inbox_conflict ex ?row old" using key by (simp add: inbox_conflict_def same_message_key)
  then have ignored: "inbox_insert_ignore ex ?row tbl = (0, tbl)" if "mysql_driver ex"
    using old(1) clipped_fits [OF that fits] by (auto simp: inbox_insert_ignore_def insert_unique_def list_ex_iff)
  show ?thesis
  proof (cases "ex_dialect ex = MYSQL")
    case True
    then have "mysql_driver ex" by (rule driver_dialect(1) [OF ex])
    with True show ?thesis
      using rec m one ignored fits_json [OF fits]
      by (simp add: InboxStore_save_received_def ex InboxStore_save_received_mysql_def)
  next
    case False
    with rec m found fits show ?thesis by (simp add: InboxStore_save_received_def ex inbox_upsert_def)
  qed
qed

text \<open>Receiving a message whose \<^verbatim>\<open>(source, message_id)\<close> is already stored, in whatever
  state its row is, changes nothing and answers \<^verbatim>\<open>is_duplicate\<close> with the stored record.  Both
  databases agree: the PostgreSQL upsert and the MySQL \<^verbatim>\<open>INSERT IGNORE\<close> with read-back.\<close>

theorem inbox_duplicate_ignored:
  assumes "db_driver ex" and "inbox_invariant ex tbl" and "valid_receipt source env"
    and "inbox_fits ex (pending_inbox_row cfg i t source env)"
    and "old \<in> set tbl" "text_eq ex (col_source old) source"
      "text_eq ex (col_message_id old) (md_message_id (env_metadata env))"
  shows "\<exists>m. InboxStore_save_received cfg ex i (utc t) source env tbl = Inr (\<lparr>ro_record = m, ro_inserted = False\<rparr>, tbl)
    \<and> inbox_map_record ex old = Inr m"
  using save_received_duplicate [OF assms] by blast

lemma save_received_fresh:
  assumes ex: "db_driver ex" and valid: "valid_receipt source env" and wf: "wf_dict (md_headers (env_metadata env))"
    and fits: "inbox_fits ex (pending_inbox_row cfg i t source env)"
    and fresh: "\<And>r. r \<in> set tbl \<Longrightarrow> \<not> inbox_conflict ex (pending_inbox_row cfg i t source env) r"
  shows "\<exists>m fresh. InboxStore_save_received cfg ex i (utc t) source env tbl =
      Inr (\<lparr>ro_record = m, ro_inserted = True\<rparr>, tbl @ [pending_inbox_row cfg i t source env])
    \<and> InboxMessageRecord_pending i (utc t) source (env_metadata env) (env_payload env) (retry_policy cfg) = Inr fresh
    \<and> same_record m fresh"
proof -
  let ?row = "pending_inbox_row cfg i t source env"
  obtain rec where rec:
    "InboxMessageRecord_pending i (utc t) source (env_metadata env) (env_payload env) (retry_policy cfg) = Inr rec"
    "inbox_record_values ex rec (ex_dialect ex) = ?row"
    "same_record (inbox_view ex InboxStatus.PENDING ?row) rec"
    using inbox_pending_values [OF ex valid] wf fits by metis
  have ins: "insert_unique (inbox_conflict ex) ?row tbl = Inr (tbl @ [?row])"
    using fresh by (auto simp: insert_unique_def list_ex_iff)
  have same: "same_record rec rec" by (simp add: same_record_def)
  show ?thesis
  proof (cases "ex_dialect ex = MYSQL")
    case True
    then have "inbox_clipped ex ?row = ?row" by (rule clipped_fits [OF driver_dialect(1) [OF ex] fits])
    with True rec ins same fits_json [OF fits] show ?thesis
      by (simp add: InboxStore_save_received_def ex InboxStore_save_received_mysql_def inbox_insert_ignore_def)
  next
    case False
    have "find (inbox_same_message ex ?row) tbl = None"
      using fresh by (auto simp: find_None_iff inbox_conflict_def)
    moreover have "inbox_map_record ex ?row = Inr (inbox_view ex InboxStatus.PENDING ?row)"
      by (rule inbox_map_record_view [OF ex]) simp
    ultimately show ?thesis
      using False rec ins fits by (auto simp: InboxStore_save_received_def ex inbox_upsert_def Let_def)
  qed
qed

text \<open>Receiving a message that is not stored yet answers \<^verbatim>\<open>is_inserted\<close>, adds exactly one
  pending row for it, and returns the message's fresh pending record.\<close>

theorem inbox_fresh_stored:
  assumes "db_driver ex" and "valid_receipt source env" and "wf_dict (md_headers (env_metadata env))"
    and "inbox_fits ex (pending_inbox_row cfg i t source env)"
    and "\<And>r. r \<in> set tbl \<Longrightarrow> \<not> inbox_conflict ex (pending_inbox_row cfg i t source env) r"
  shows "\<exists>m fresh. InboxStore_save_received cfg ex i (utc t) source env tbl =
      Inr (\<lparr>ro_record = m, ro_inserted = True\<rparr>, tbl @ [pending_inbox_row cfg i t source env])
    \<and> InboxMessageRecord_pending i (utc t) source (env_metadata env) (env_payload env) (retry_policy cfg) = Inr fresh
    \<and> same_record m fresh"
  using assms by (rule save_received_fresh)

section \<open>Every table the store can build\<close>

inductive inbox_call :: "executor \<Rightarrow> inbox_table \<Rightarrow> inbox_table \<Rightarrow> bool" for ex where
  received: "InboxStore_save_received cfg ex i (utc t) source env tbl = Inr (out, tbl') \<Longrightarrow> inbox_call ex tbl tbl'"
| reclaim: "InboxStore_reclaim_expired ex (utc t) tbl = Inr (n, tbl') \<Longrightarrow> inbox_call ex tbl tbl'"
| claim: "InboxStore_claim_ready cfg ex (utc t) tbl = Inr (ms, tbl') \<Longrightarrow> inbox_call ex tbl tbl'"
| claim_unordered:
    "InboxStore_claim_ready_unordered cfg ex (utc t) tbl = Inr (ms, tbl') \<Longrightarrow> inbox_call ex tbl tbl'"
| processed: "InboxStore_mark_processed ex i (utc t) tbl = Inr tbl' \<Longrightarrow> inbox_call ex tbl tbl'"
| retry: "InboxStore_mark_retry ex (utc t) i e (utc av) tbl = Inr tbl' \<Longrightarrow> inbox_call ex tbl tbl'"
| failed: "InboxStore_mark_failed ex (utc t) i e tbl = Inr tbl' \<Longrightarrow> inbox_call ex tbl tbl'"

text \<open>A call either inserts one conflict-free row or updates rows by one of the lifecycle updates.\<close>

lemma insert_ignore_cases:
  "inbox_insert_ignore ex r tbl = (n, tbl') \<Longrightarrow> tbl' = tbl \<or>
     tbl' = tbl @ [inbox_clipped ex r] \<and> (\<forall>r' \<in> set tbl. \<not> inbox_conflict ex (inbox_clipped ex r) r')"
  by (auto simp: inbox_insert_ignore_def insert_unique_def list_ex_iff split: if_splits)

lemma save_received_cases:
  assumes ex: "db_driver ex" and "InboxStore_save_received cfg ex i (utc t) source env tbl = Inr (out, tbl')"
  shows "tbl' = tbl \<or> (\<exists>r. tbl' = tbl @ [r] \<and> inbox_row_ok r \<and> (\<forall>r' \<in> set tbl. \<not> inbox_conflict ex r r'))"
proof -
  let ?row = "pending_inbox_row cfg i t source env"
  have ok: "inbox_row_ok ?row" "inbox_row_ok (inbox_clipped ex ?row)"
    by (simp_all add: inbox_row_ok_def pending_inbox_row_def inbox_clipped_def)
  have valid: "valid_receipt source env"
    using assms(2) by (auto simp: InboxStore_save_received_def inbox_pending_Inr_iff valid_receipt_def)
  obtain rec where rec:
    "InboxMessageRecord_pending i (utc t) source (env_metadata env) (env_payload env) (retry_policy cfg) = Inr rec"
    "inbox_record_values ex rec (ex_dialect ex) = ?row"
    using inbox_pending_values [OF ex valid] by metis
  show ?thesis
  proof (cases "ex_dialect ex = MYSQL")
    case True
    with assms rec obtain n where "inbox_insert_ignore ex ?row tbl = (n, tbl')"
      by (auto simp: InboxStore_save_received_def InboxStore_save_received_mysql_def Let_def
          split: prod.splits if_splits list.splits)
    from insert_ignore_cases [OF this] ok(2) show ?thesis by blast
  next
    case False
    with assms rec ok(1) show ?thesis
      by (auto simp: InboxStore_save_received_def inbox_upsert_def insert_unique_Inr Let_def split: if_splits option.splits)
  qed
qed

lemma set_processed_simps [simp]:
  "col_id (set_processed t r) = col_id r" "col_status (set_processed t r) = ''processed''"
  "col_message_id (set_processed t r) = col_message_id r" "col_source (set_processed t r) = col_source r"
  by (simp_all add: set_processed_def)

lemma set_keeps_source [simp]:
  "col_source (set_claimed l n r) = col_source r" "col_source (set_reclaimed n r) = col_source r"
  "col_source (set_retry e a n r) = col_source r" "col_source (set_failed e n r) = col_source r"
  by (simp_all add: set_defs)

lemma inbox_row_ok_set:
  "inbox_row_ok r \<Longrightarrow> inbox_row_ok (set_claimed l t r)"
  "inbox_row_ok r \<Longrightarrow> inbox_row_ok (set_reclaimed t r)"
  "inbox_row_ok r \<Longrightarrow> inbox_row_ok (set_retry e a t r)"
  "inbox_row_ok r \<Longrightarrow> inbox_row_ok (set_failed e t r)"
  "inbox_row_ok r \<Longrightarrow> inbox_row_ok (set_processed t r)"
  by (auto simp: inbox_row_ok_def set_defs set_processed_def)

text \<open>The part of a row that no operation changes.\<close>

definition identity_of :: "inbox_row \<Rightarrow> uuid \<times> string \<times> string" where
  "identity_of r = (col_id r, col_source r, col_message_id r)"

definition lifecycle_update :: "(inbox_row \<Rightarrow> inbox_row) \<Rightarrow> bool" where
  "lifecycle_update f \<longleftrightarrow> (\<forall>r. identity_of (f r) = identity_of r \<and> (inbox_row_ok r \<longrightarrow> inbox_row_ok (f r)))"

lemma lifecycle_updates:
  "lifecycle_update (set_claimed l t)" "lifecycle_update (set_reclaimed t)" "lifecycle_update (set_retry e a t)"
  "lifecycle_update (set_failed e t)" "lifecycle_update (set_processed t)"
  by (simp_all add: lifecycle_update_def identity_of_def inbox_row_ok_set)

lemma inbox_call_shape:
  assumes "inbox_call ex tbl tbl'" and ex: "db_session ex" and u: "unique_ids tbl"
  shows "(\<exists>r. tbl' = tbl @ [r] \<and> inbox_row_ok r \<and> (\<forall>r' \<in> set tbl. \<not> inbox_conflict ex r r'))
    \<or> (\<exists>p f. tbl' = update_where p f tbl \<and> lifecycle_update f)"
  using assms(1)
proof cases
  case received
  from save_received_cases [OF session_driver(1) [OF ex] this]
  show ?thesis using update_where_none [of tbl "\<lambda>_. False"] lifecycle_updates(2) by metis
next
  case reclaim
  then show ?thesis using lifecycle_updates(2) by (auto simp: inbox_queue.reclaim_eq [OF ex])
next
  case (claim cfg t ms)
  show ?thesis
    by (rule inbox_claim_Inr [of InboxStore_claim_ready inbox_claimable_fifo, OF _ ex u claim])
      (simp, use lifecycle_updates(1) in blast)
next
  case (claim_unordered cfg t ms)
  show ?thesis
    by (rule inbox_claim_Inr [of InboxStore_claim_ready_unordered inbox_claimable_unordered, OF _ ex u claim_unordered])
      (simp, use lifecycle_updates(1) in blast)
next
  case (processed i t)
  then have "tbl' = update_where (\<lambda>r. col_id r = i) (set_processed t) tbl" by (simp add: mark_processed_eq [OF ex])
  then show ?thesis using lifecycle_updates(5) by blast
next
  case (retry t i e av)
  then have "tbl' = update_where (\<lambda>r. col_id r = i) (set_retry e av t) tbl"
    by (simp add: inbox_retry.mark_retry_eq [OF ex])
  then show ?thesis using lifecycle_updates(3) by blast
next
  case (failed t i e)
  then have "tbl' = update_where (\<lambda>r. col_id r = i) (set_failed e t) tbl"
    by (simp add: inbox_retry.mark_failed_eq [OF ex])
  then show ?thesis using lifecycle_updates(4) by blast
qed

lemma identity_kept:
  assumes "lifecycle_update f"
  shows "map identity_of (update_where p f tbl) = map identity_of tbl"
  using assms by (simp add: lifecycle_update_def map_update_where_keeps)

lemma unique_ids_identity: "unique_ids tbl = distinct (map fst (map identity_of tbl))"
  by (simp add: unique_ids_def identity_of_def comp_def)

lemma message_keys_identity:
  "map (message_key_of ex) tbl = map (\<lambda>(_, s, m). (ex_collate ex s, ex_collate ex m)) (map identity_of tbl)"
  by (simp add: identity_of_def message_key_of_def)

lemma inbox_call_invariant:
  assumes "inbox_call ex tbl tbl'" and ex: "db_session ex" and inv: "inbox_invariant ex tbl"
  shows "inbox_invariant ex tbl'" and "\<exists>more. map identity_of tbl' = map identity_of tbl @ more"
proof -
  have u: "unique_ids tbl" using inv by (simp add: inbox_invariant_def)
  consider (ins) r where "tbl' = tbl @ [r]" "inbox_row_ok r" "\<forall>r' \<in> set tbl. \<not> inbox_conflict ex r r'"
    | (upd) p f where "tbl' = update_where p f tbl" "lifecycle_update f"
    using inbox_call_shape [OF assms(1) ex u] by blast
  then have "inbox_invariant ex tbl' \<and> (\<exists>more. map identity_of tbl' = map identity_of tbl @ more)"
  proof cases
    case ins
    then show ?thesis
      using inv by (auto simp: inbox_invariant_def unique_ids_def inbox_conflict_def same_message_key)
  next
    case upd
    then show ?thesis
      using inv identity_kept [OF upd(2), of p tbl]
      by (auto simp: inbox_invariant_def unique_ids_identity message_keys_identity lifecycle_update_def
          list_all_iff set_update_where simp del: map_map)
  qed
  then show "inbox_invariant ex tbl'" and "\<exists>more. map identity_of tbl' = map identity_of tbl @ more" by blast+
qed

lemma inbox_calls_invariant:
  assumes "(inbox_call ex)\<^sup>*\<^sup>* tbl tbl'" and "db_session ex" and "inbox_invariant ex tbl"
  shows "inbox_invariant ex tbl' \<and> (\<exists>more. map identity_of tbl' = map identity_of tbl @ more)"
  using assms(1)
proof (induction rule: rtranclp_induct)
  case base
  then show ?case using assms(3) by simp
next
  case (step y z)
  then show ?case using inbox_call_invariant [OF step(2) assms(2)] by fastforce
qed

text \<open>Property C14: in every table that any sequence of store calls builds from an empty one, ids are
  unique, no two rows share a \<^verbatim>\<open>(source, message_id)\<close>, every status is a member of the enumeration, a
  row has a lease exactly while it is processing, a processed row has its time, and a failed
  row has an error and at least one attempt.\<close>

theorem inbox_reachable_invariant:
  assumes "db_session ex" and "(inbox_call ex)\<^sup>*\<^sup>* [] tbl"
  shows "inbox_invariant ex tbl"
proof -
  have "inbox_invariant ex []" by (simp add: inbox_invariant_def unique_ids_def)
  with inbox_calls_invariant [OF assms(2,1)] show ?thesis by blast
qed

text \<open>A stored message stays received: whatever calls follow, the next receipt is a duplicate.\<close>

lemma stored_stays_received:
  assumes ex: "db_session ex" and inv: "inbox_invariant ex tbl1" and calls: "(inbox_call ex)\<^sup>*\<^sup>* tbl1 tbl2"
    and row: "row \<in> set tbl1" "text_eq ex (col_source row) source"
      "text_eq ex (col_message_id row) (md_message_id (env_metadata env))"
    and valid: "valid_receipt source env" and fits: "inbox_fits ex (pending_inbox_row cfg i t source env)"
  shows "\<exists>m. InboxStore_save_received cfg ex i (utc t) source env tbl2 = Inr (\<lparr>ro_record = m, ro_inserted = False\<rparr>, tbl2)
    \<and> rec_id m = col_id row"
proof -
  have "identity_of row \<in> set (map identity_of tbl1)" using row(1) by simp
  then have inv2: "inbox_invariant ex tbl2" and "identity_of row \<in> set (map identity_of tbl2)"
    using inbox_calls_invariant [OF calls ex inv] by (auto simp del: set_map)
  then obtain old where old: "old \<in> set tbl2" "identity_of old = identity_of row" by auto
  then have "\<exists>m. InboxStore_save_received cfg ex i (utc t) source env tbl2 = Inr (\<lparr>ro_record = m, ro_inserted = False\<rparr>, tbl2)
      \<and> inbox_map_record ex old = Inr m \<and> rec_id m = col_id old"
    using row by (intro save_received_duplicate [OF session_driver(1) [OF ex] inv2 valid fits]) (simp_all add: identity_of_def)
  with old(2) show ?thesis by (auto simp: identity_of_def)
qed

text \<open>When a receipt is acknowledged, a row of its message is in the table.\<close>

lemma save_received_stores:
  assumes ex: "db_driver ex" and fits: "inbox_fits ex (pending_inbox_row cfg i t source env)"
    and saved: "InboxStore_save_received cfg ex i (utc t) source env tbl = Inr (out, tbl')"
  shows "\<exists>r \<in> set tbl'. text_eq ex (col_source r) source \<and> text_eq ex (col_message_id r) (md_message_id (env_metadata env))"
proof -
  let ?row = "pending_inbox_row cfg i t source env"
  have "valid_receipt source env"
    using saved by (auto simp: InboxStore_save_received_def inbox_pending_Inr_iff valid_receipt_def)
  then obtain rec where rec:
    "InboxMessageRecord_pending i (utc t) source (env_metadata env) (env_payload env) (retry_policy cfg) = Inr rec"
    "inbox_record_values ex rec (ex_dialect ex) = ?row" "ib_source rec = source"
    "rec_message_id rec = md_message_id (env_metadata env)"
    using inbox_pending_values [OF ex] by metis
  have self: "?row \<in> set tbl' \<Longrightarrow> ?thesis" by (rule bexI [of _ ?row]) (simp_all add: text_eq_def)
  show ?thesis
  proof (cases "ex_dialect ex = MYSQL")
    case True
    then have clip: "inbox_clipped ex ?row = ?row" by (rule clipped_fits [OF driver_dialect(1) [OF ex] fits])
    have mysql: "InboxStore_save_received_mysql ex rec ?row tbl = Inr (out, tbl')"
      using saved True rec by (simp add: InboxStore_save_received_def ex)
    show ?thesis
    proof (cases "insert_unique (inbox_conflict ex) ?row tbl")
      case (Inl e)
      with mysql fits_json [OF fits] have "filter (\<lambda>r. text_eq ex (col_source r) source \<and>
          text_eq ex (col_message_id r) (md_message_id (env_metadata env))) tbl' \<noteq> []"
        by (auto simp: InboxStore_save_received_mysql_def inbox_insert_ignore_def clip rec split: list.splits)
      then show ?thesis by (auto simp: filter_empty_conv)
    next
      case (Inr tbl2)
      with mysql fits_json [OF fits] have "?row \<in> set tbl'"
        by (auto simp: InboxStore_save_received_mysql_def inbox_insert_ignore_def clip insert_unique_Inr)
      then show ?thesis by (rule self)
    qed
  next
    case False
    with saved rec fits consider "find (inbox_same_message ex ?row) tbl \<noteq> None" "tbl' = tbl" | "?row \<in> set tbl'"
      by (auto simp: InboxStore_save_received_def ex inbox_upsert_def insert_unique_Inr Let_def split: option.splits)
    then show ?thesis
    proof cases
      case 1
      then show ?thesis by (auto simp: find_None_iff inbox_same_message_def text_eq_def)
    next
      case 2
      then show ?thesis by (rule self)
    qed
  qed
qed

text \<open>With a new row id and values that fit, a valid receipt is always acknowledged.\<close>

lemma save_received_total:
  assumes ex: "db_driver ex" and inv: "inbox_invariant ex tbl" and valid: "valid_receipt source env"
    and wf: "wf_dict (md_headers (env_metadata env))" and fits: "inbox_fits ex (pending_inbox_row cfg i t source env)"
    and id: "i \<notin> col_id ` set tbl"
  shows "\<exists>out tbl'. InboxStore_save_received cfg ex i (utc t) source env tbl = Inr (out, tbl')"
proof (cases "\<exists>old \<in> set tbl. inbox_same_message ex (pending_inbox_row cfg i t source env) old")
  case True
  then obtain old where "old \<in> set tbl" "text_eq ex (col_source old) source"
    "text_eq ex (col_message_id old) (md_message_id (env_metadata env))"
    by (auto simp: inbox_same_message_def text_eq_def)
  from save_received_duplicate [OF ex inv valid fits this] show ?thesis by blast
next
  case False
  then have "\<not> inbox_conflict ex (pending_inbox_row cfg i t source env) r" if "r \<in> set tbl" for r
    using that id by (auto simp: inbox_conflict_def)
  from save_received_fresh [OF ex valid wf fits this] show ?thesis by blast
qed

text \<open>A message of \<open>source\<close> with the id \<open>i\<close> has a row, which every later call keeps and nothing doubles.\<close>

definition received_from :: "executor \<Rightarrow> string \<Rightarrow> string \<Rightarrow> inbox_table \<Rightarrow> bool" where
  "received_from ex source i tbl \<longleftrightarrow> (\<exists>r \<in> set tbl. text_eq ex (col_source r) source \<and> text_eq ex (col_message_id r) i)"

lemma received_from_kept:
  assumes "inbox_call ex tbl tbl'" "db_session ex" "inbox_invariant ex tbl" "received_from ex source i tbl"
  shows "received_from ex source i tbl'"
proof -
  obtain r where r: "r \<in> set tbl" "text_eq ex (col_source r) source" "text_eq ex (col_message_id r) i"
    using assms(4) by (auto simp: received_from_def)
  obtain more where "map identity_of tbl' = map identity_of tbl @ more" using inbox_call_invariant(2) [OF assms(1-3)] by blast
  then have "identity_of r \<in> set (map identity_of tbl')" using r(1) by simp
  then obtain r' where r': "r' \<in> set tbl'" "identity_of r' = identity_of r" by auto
  show ?thesis unfolding received_from_def using r'(2) r(2,3) by (intro bexI [OF _ r'(1)]) (simp add: identity_of_def)
qed

lemma received_once:
  assumes "inbox_invariant ex tbl" "received_from ex source i tbl"
  shows "\<exists>!r. r \<in> set tbl \<and> text_eq ex (col_source r) source \<and> text_eq ex (col_message_id r) i"
proof -
  have "inj_on (message_key_of ex) (set tbl)" using assms(1) by (simp add: inbox_invariant_def distinct_map)
  then have "r = r'" if "r \<in> set tbl" "r' \<in> set tbl" "text_eq ex (col_source r) source" "text_eq ex (col_message_id r) i"
    "text_eq ex (col_source r') source" "text_eq ex (col_message_id r') i" for r r'
    using that by (auto simp: inj_on_def message_key_of_def text_eq_def)
  with assms(2) show ?thesis unfolding received_from_def by blast
qed

text \<open>The indexed texts of a message fit their columns; a \<open>db_session\<close> stores the rest.\<close>

definition receivable :: "executor \<Rightarrow> string \<Rightarrow> MessageEnvelope \<Rightarrow> bool" where
  "receivable ex source env \<longleftrightarrow>
     list_all (ex_fits ex) [source, md_message_id (env_metadata env), md_event_type (env_metadata env)] \<and>
     pred_option (ex_fits ex) (md_ordering_key (env_metadata env)) \<and>
     pred_option (ex_fits ex) (md_correlation_id (env_metadata env))"

lemma receivable_fits: "db_session ex \<Longrightarrow> inbox_fits ex (pending_inbox_row cfg i t source env) \<longleftrightarrow> receivable ex source env"
  by (auto simp: inbox_fits_def pending_inbox_row_def receivable_def)

text \<open>Property C4: deduplication is permanent.  Once a message has been received, every later receipt
  of the same \<^verbatim>\<open>(source, message_id)\<close>, after any sequence of store calls by any workers, is a
  duplicate of the same row and leaves the table as it is.\<close>

theorem inbox_received_once:
  assumes ex: "db_session ex" and inv: "inbox_invariant ex tbl" and wf: "wf_dict (md_headers (env_metadata env))"
    and valid: "valid_receipt source env" "valid_receipt source env'"
    and fits: "inbox_fits ex (pending_inbox_row cfg i t source env)" "inbox_fits ex (pending_inbox_row cfg' i' t' source env')"
    and fresh: "\<And>r. r \<in> set tbl \<Longrightarrow> \<not> inbox_conflict ex (pending_inbox_row cfg i t source env) r"
    and same: "md_message_id (env_metadata env') = md_message_id (env_metadata env)"
    and first: "InboxStore_save_received cfg ex i (utc t) source env tbl = Inr (out, tbl1)"
    and calls: "(inbox_call ex)\<^sup>*\<^sup>* tbl1 tbl2"
  shows "ReceiveOutcome_is_inserted out \<and>
    (\<exists>out'. InboxStore_save_received cfg' ex i' (utc t') source env' tbl2 = Inr (out', tbl2)
      \<and> ReceiveOutcome_is_duplicate out' \<and> rec_id (ro_record out') = i)"
proof -
  let ?row = "pending_inbox_row cfg i t source env"
  obtain m where m: "out = \<lparr>ro_record = m, ro_inserted = True\<rparr>" "tbl1 = tbl @ [?row]"
    using save_received_fresh [of ex source env cfg i t tbl, OF session_driver(1) [OF ex] valid(1) wf fits(1) fresh] first by auto
  have "inbox_invariant ex tbl1"
    using inbox_call_invariant(1) [OF inbox_call.received [OF first] ex inv] .
  then have "\<exists>m. InboxStore_save_received cfg' ex i' (utc t') source env' tbl2 = Inr (\<lparr>ro_record = m, ro_inserted = False\<rparr>, tbl2)
      \<and> rec_id m = col_id ?row"
    by (rule stored_stays_received [OF ex _ calls _ _ _ valid(2) fits(2)]) (simp_all add: m(2) text_eq_def same)
  with m(1) show ?thesis by (auto simp: ReceiveOutcome_is_inserted_def ReceiveOutcome_is_duplicate_def)
qed

section \<open>Claiming\<close>

text \<open>\<open>inbox_mode unordered\<close> is the claim operation of a runner's mode.\<close>

definition inbox_mode ::
  "bool \<Rightarrow> PactixConfig \<Rightarrow> executor \<Rightarrow> datetime \<Rightarrow> inbox_table \<Rightarrow> error + (InboxMessageRecord list \<times> inbox_table)" where
  "inbox_mode unordered = (if unordered then InboxStore_claim_ready_unordered else InboxStore_claim_ready)"

lemma inbox_mode_leased:
  assumes "db_session ex" "unique_ids tbl" "inbox_mode u cfg ex (utc t) tbl = Inr (ms, tbl')"
    "i \<in> rec_id ` set ms" "t' \<le> t + lease_duration cfg"
  shows "\<exists>r. row_of tbl' i = Some r \<and> leased_at t' r"
  using assms inbox_queue.claimed_row_leased inbox_unordered.claimed_row_leased
  by (cases u) (simp_all add: inbox_mode_def)

lemma inbox_mode_skips:
  assumes "db_session ex" "unique_ids tbl" "row_of tbl i = Some r" "leased_at t r"
    "InboxStore_reclaim_expired ex (utc t) tbl = Inr (n, tbl1)" "inbox_mode u cfg ex (utc t) tbl1 = Inr (ms, tbl2)"
  shows "i \<notin> rec_id ` set ms"
  using assms inbox_queue.pass_skips_leased [OF assms(1-5)] inbox_unordered.pass_skips_leased [OF assms(1-5)]
  by (cases u) (simp_all add: inbox_mode_def)

text \<open>Exclusive ownership of inbox rows, also between ordered and unordered runners on one
  table: while the leases of a claim run, no reclaim and claim of another worker takes its rows.\<close>

theorem inbox_claim_exclusive:
  assumes "db_session ex" "db_session ex'" and "unique_ids tbl"
    and "inbox_mode u cfg ex (utc t) tbl = Inr (ms, tbl1)"
    and "unique_ids tbl2" and "\<And>i. i \<in> rec_id ` set ms \<Longrightarrow> row_of tbl2 i = row_of tbl1 i"
    and "t' \<le> t + lease_duration cfg"
    and "InboxStore_reclaim_expired ex' (utc t') tbl2 = Inr (n, tbl3)"
    and "inbox_mode u' cfg' ex' (utc t') tbl3 = Inr (ms', tbl4)"
  shows "rec_id ` set ms \<inter> rec_id ` set ms' = {}"
proof -
  have "i \<notin> rec_id ` set ms'" if i: "i \<in> rec_id ` set ms" for i
  proof -
    obtain r where "row_of tbl1 i = Some r" "leased_at t' r"
      using inbox_mode_leased [OF assms(1,3,4) i assms(7)] by blast
    with inbox_mode_skips [OF assms(2,5) _ _ assms(8,9), of i r] assms(6) [OF i] show ?thesis by simp
  qed
  then show ?thesis by blast
qed

text \<open>Property C17: the ordered claim is first in, first out per \<^verbatim>\<open>(event_type, ordering_key)\<close>: every
  earlier received row of a claimed row's key is finished.\<close>

theorem inbox_claim_fifo:
  assumes "db_session ex" and "unique_ids tbl"
    and "InboxStore_claim_ready cfg ex (utc t) tbl = Inr (ms, tbl')"
    and "r \<in> set tbl" "col_id r \<in> rec_id ` set ms"
    and "older \<in> set tbl" "same_key ex older r" "col_received_at older < col_received_at r"
  shows "col_status older \<noteq> ''pending'' \<and> col_status older \<noteq> ''processing''"
  using inbox_queue.claimed_is_head [OF assms] by (simp add: unfinished_def)

text \<open>The unordered claim has no gate: a due pending row that no other transaction locks is
  claimed, unless the batch is full of rows received no later.\<close>

theorem inbox_unordered_no_gate:
  assumes "db_session ex" and "unique_ids tbl"
    and "InboxStore_claim_ready_unordered cfg ex (utc t) tbl = Inr (ms, tbl')"
    and "r \<in> set tbl" "col_status r = ''pending''" "col_available_at r \<le> t" "\<not> ex_locked ex (col_id r)"
  shows "col_id r \<in> rec_id ` set ms \<or>
    int (length ms) = inbox_batch_size cfg
    \<and> (\<forall>r' \<in> set tbl. col_id r' \<in> rec_id ` set ms \<longrightarrow> col_received_at r' \<le> col_received_at r)"
proof (cases "col_id r \<in> rec_id ` set ms")
  case left: False
  have ready: "inbox_claimable_unordered ex t tbl r" using assms(5,6) by (simp add: inbox_claimable_unordered_def)
  obtain sel where sel: "select_skip_locked ex (inbox_claimable_unordered ex t tbl) col_received_at (inbox_batch_size cfg) tbl = Inr sel"
    and ids: "mset (map rec_id ms) = mset (map col_id sel)"
    using inbox_unordered.claim_selects [OF assms(1-3)] by blast
  have "r \<notin> set sel" using left mset_eq_setD [OF ids] by auto
  then have "length sel = nat (inbox_batch_size cfg)"
    using select_skip_locked_oldest(1) [OF sel assms(4) ready assms(7)] by blast
  moreover have "0 \<le> inbox_batch_size cfg" using sel by (simp add: select_skip_locked_Inr)
  ultimately have "int (length ms) = inbox_batch_size cfg" using mset_eq_length [OF ids] by simp
  with inbox_unordered.claim_takes_oldest(1) [OF assms(1-4) ready assms(7) left] show ?thesis by blast
qed simp

section \<open>Refinement of the in-memory transitions\<close>

text \<open>The abstract inbox: the record stored under an id.\<close>

definition inbox_records :: "executor \<Rightarrow> inbox_table \<Rightarrow> uuid \<Rightarrow> InboxMessageRecord option" where
  "inbox_records ex = records_by (inbox_map_record ex)"

interpretation inbox_stored: record_view rec_id InboxStatus_as_str inbox_map_record inbox_view
  by unfold_locales (simp_all add: inbox_map_record_view)

lemma inbox_invariant_statuses:
  assumes "inbox_invariant ex tbl"
  shows "statuses_in InboxStatus_as_str tbl"
proof -
  have "\<exists>st. col_status r = InboxStatus_as_str st" if "r \<in> set tbl" for r
  proof -
    have "inbox_row_ok r" using assms that by (auto simp: inbox_invariant_def list_all_iff)
    then have "col_status r \<in> InboxStatus_as_str ` {InboxStatus.PENDING, InboxStatus.PROCESSING, PROCESSED, InboxStatus.FAILED}"
      by (auto simp: inbox_row_ok_def)
    then show ?thesis by blast
  qed
  then show ?thesis by (simp add: statuses_in_def)
qed

lemma inbox_settled_record:
  assumes "db_session ex"
  shows "inbox_map_record ex (set_processed t r) =
      Inr (InboxMessageRecord_mark_processed (utc t) (utc t) (inbox_view ex st r))"
    and "inbox_map_record ex (set_retry e a t r) =
      Inr (InboxMessageRecord_mark_retry (utc t) e (utc a) (inbox_view ex st r))"
    and "inbox_map_record ex (set_failed e t r) =
      Inr (InboxMessageRecord_mark_failed (utc t) e (inbox_view ex st r))"
    and "inbox_map_record ex (set_claimed l t r) =
      Inr (InboxMessageRecord_mark_processing (utc t) (utc l) (inbox_view ex st r))"
  using inbox_map_record_view [OF session_driver(1) [OF assms], of "set_processed t r" PROCESSED]
    inbox_map_record_view [OF session_driver(1) [OF assms], of "set_retry e a t r" InboxStatus.PENDING]
    inbox_map_record_view [OF session_driver(1) [OF assms], of "set_failed e t r" InboxStatus.FAILED]
    inbox_map_record_view [OF session_driver(1) [OF assms], of "set_claimed l t r" InboxStatus.PROCESSING]
  by (simp_all add: inbox_view_def InboxMessageRecord_mark_processed_def InboxMessageRecord_mark_retry_def
      InboxMessageRecord_mark_failed_def InboxMessageRecord_mark_processing_def set_defs set_processed_def)

lemma inbox_records_settled:
  assumes ex: "db_session ex" and inv: "inbox_invariant ex tbl"
  shows "inbox_records ex (update_where (\<lambda>r. col_id r = i) (set_processed t) tbl) =
      (inbox_records ex tbl)(i := map_option (InboxMessageRecord_mark_processed (utc t) (utc t)) (inbox_records ex tbl i))"
    and "inbox_records ex (update_where (\<lambda>r. col_id r = i) (set_retry e a t) tbl) =
      (inbox_records ex tbl)(i := map_option (InboxMessageRecord_mark_retry (utc t) e (utc a)) (inbox_records ex tbl i))"
    and "inbox_records ex (update_where (\<lambda>r. col_id r = i) (set_failed e t) tbl) =
      (inbox_records ex tbl)(i := map_option (InboxMessageRecord_mark_failed (utc t) e) (inbox_records ex tbl i))"
  unfolding inbox_records_def
  by (rule inbox_stored.records_update_id [OF ex inbox_invariant_statuses [OF inv]]; simp add: inbox_settled_record [OF ex])+

lemma inbox_records_claimed:
  assumes ex: "db_session ex" and inv: "inbox_invariant ex tbl"
    and c: "inbox_mode u cfg ex (utc t) tbl = Inr (ms, tbl')"
  shows "inbox_records ex tbl' = (\<lambda>i. if i \<in> rec_id ` set ms
        then map_option (InboxMessageRecord_mark_processing (utc t) (utc (t + lease_duration cfg))) (inbox_records ex tbl i)
        else inbox_records ex tbl i)"
    and "m \<in> set ms \<Longrightarrow> inbox_records ex tbl' (rec_id m) = Some m"
proof -
  let ?ready = "if u then inbox_claimable_unordered else inbox_claimable_fifo"
  have unique: "unique_ids tbl" using inv by (simp add: inbox_invariant_def)
  have mode: "inbox_mode u = InboxStore_claim_ready \<and> ?ready = inbox_claimable_fifo
      \<or> inbox_mode u = InboxStore_claim_ready_unordered \<and> ?ready = inbox_claimable_unordered"
    by (simp add: inbox_mode_def)
  obtain sel rows where
    sel: "select_skip_locked ex (?ready ex t tbl) col_received_at (inbox_batch_size cfg) tbl = Inr sel"
    and tbl': "tbl' = update_where (\<lambda>r. r \<in> set sel) (set_claimed (t + lease_duration cfg) t) tbl"
    and ms: "ms = map (inbox_view ex InboxStatus.PROCESSING) rows"
    and rows: "mset rows = mset (map (set_claimed (t + lease_duration cfg) t) sel)"
    by (rule inbox_claim_Inr [OF mode ex unique c]) blast
  have sub: "set sel \<subseteq> set tbl" using select_skip_locked_sound(2) [OF sel] by blast
  note claimed = inbox_stored.records_claim [where st = InboxStatus.PROCESSING
      and g = "InboxMessageRecord_mark_processing (utc t) (utc (t + lease_duration cfg))",
      OF ex unique inbox_invariant_statuses [OF inv] sub rows]
  show "inbox_records ex tbl' = (\<lambda>i. if i \<in> rec_id ` set ms
        then map_option (InboxMessageRecord_mark_processing (utc t) (utc (t + lease_duration cfg))) (inbox_records ex tbl i)
        else inbox_records ex tbl i)"
    unfolding inbox_records_def tbl' ms by (rule claimed(1)) (simp_all add: inbox_settled_record(4) [OF ex])
  show "inbox_records ex tbl' (rec_id m) = Some m" if "m \<in> set ms"
    using that unfolding inbox_records_def tbl' ms
    by (intro claimed(2)) (simp_all add: inbox_settled_record(4) [OF ex])
qed

text \<open>Property C20: the inbox store refines the in-memory record.  On every table the operations can build,
  \<^verbatim>\<open>mark_processed\<close>, \<^verbatim>\<open>mark_retry\<close> and \<^verbatim>\<open>mark_failed\<close> never raise, change the stored record of the given
  id by the method of \<^verbatim>\<open>InboxMessageRecord\<close> of the same name, and keep every other record.  A claim of either
  mode moves the records of the claimed ids by \<^verbatim>\<open>mark_processing\<close>, and what it returns is what is then
  stored.\<close>

theorem inbox_store_refines:
  assumes "db_session ex" and "inbox_invariant ex tbl" and "is_aware now" "is_aware av"
  shows "(\<exists>tbl'. InboxStore_mark_processed ex i now tbl = Inr tbl' \<and> inbox_records ex tbl' =
        (inbox_records ex tbl)(i := map_option
          (InboxMessageRecord_mark_processed (utc (instant now)) (utc (instant now))) (inbox_records ex tbl i)))
    \<and> (\<exists>tbl'. InboxStore_mark_retry ex now i e av tbl = Inr tbl' \<and> inbox_records ex tbl' =
        (inbox_records ex tbl)(i := map_option
          (InboxMessageRecord_mark_retry (utc (instant now)) e (utc (instant av))) (inbox_records ex tbl i)))
    \<and> (\<exists>tbl'. InboxStore_mark_failed ex now i e tbl = Inr tbl' \<and> inbox_records ex tbl' =
        (inbox_records ex tbl)(i := map_option
          (InboxMessageRecord_mark_failed (utc (instant now)) e) (inbox_records ex tbl i)))
    \<and> (\<forall>u cfg t ms tbl'. inbox_mode u cfg ex (utc t) tbl = Inr (ms, tbl') \<longrightarrow>
        inbox_records ex tbl' = (\<lambda>i. if i \<in> rec_id ` set ms
          then map_option (InboxMessageRecord_mark_processing (utc t) (utc (t + lease_duration cfg))) (inbox_records ex tbl i)
          else inbox_records ex tbl i)
        \<and> (\<forall>m \<in> set ms. inbox_records ex tbl' (rec_id m) = Some m))"
proof (intro conjI)
  show "\<forall>u cfg t ms tbl'. inbox_mode u cfg ex (utc t) tbl = Inr (ms, tbl') \<longrightarrow>
        inbox_records ex tbl' = (\<lambda>i. if i \<in> rec_id ` set ms
          then map_option (InboxMessageRecord_mark_processing (utc t) (utc (t + lease_duration cfg))) (inbox_records ex tbl i)
          else inbox_records ex tbl i)
        \<and> (\<forall>m \<in> set ms. inbox_records ex tbl' (rec_id m) = Some m)"
    by (intro allI impI conjI ballI inbox_records_claimed [OF assms(1,2)])
qed (simp_all add: mark_processed_eq inbox_retry.mark_retry_eq inbox_retry.mark_failed_eq assms(1,3,4)
      inbox_records_settled [OF assms(1,2)])

section \<open>Where INSERT IGNORE departs\<close>

lemma save_received_mysql_eq:
  assumes ex: "mysql_session ex" and valid: "valid_receipt source env"
  obtains rec where "ib_source rec = source" and "rec_message_id rec = md_message_id (env_metadata env)"
    and "\<And>tbl. InboxStore_save_received cfg ex i (utc t) source env tbl =
      InboxStore_save_received_mysql ex rec (pending_inbox_row cfg i t source env) tbl"
proof (rule inbox_pending_values [OF mysql_db_driver [OF session_driver(3) [OF ex]] valid, of i t cfg])
  fix rec
  assume "InboxMessageRecord_pending i (utc t) source (env_metadata env) (env_payload env) (retry_policy cfg) = Inr rec"
    "inbox_record_values ex rec (ex_dialect ex) = pending_inbox_row cfg i t source env"
    "ib_source rec = source" "rec_message_id rec = md_message_id (env_metadata env)"
  moreover have "ex_dialect ex = MYSQL" using mysqlD(1) [OF session_driver(3) [OF ex]] .
  ultimately show thesis using that [of rec] ex by (simp add: InboxStore_save_received_def)
qed

text \<open>Property C38: on MySQL a message whose id does not fit its column is stored under the cut id, so
  that a redelivery finds neither a fresh key nor its own row: \<^verbatim>\<open>save_received\<close> raises
  \<^verbatim>\<open>NoResultFound\<close> instead of answering \<^verbatim>\<open>is_duplicate\<close>.\<close>

theorem inbox_cut_id_redelivery_raises:
  assumes ex: "mysql_session ex" and valid: "valid_receipt source env"
    and cut: "\<not> text_eq ex (ex_clip ex (md_message_id (env_metadata env))) (md_message_id (env_metadata env))"
    and absent: "\<And>r. r \<in> set tbl \<Longrightarrow> \<not> text_eq ex (col_message_id r) (md_message_id (env_metadata env))"
    and first: "InboxStore_save_received cfg ex i (utc t) source env tbl = Inr (out, tbl1)" and "ro_inserted out"
  shows "InboxStore_save_received cfg ex i' (utc t') source env tbl1 = Inl NoResultFound"
proof -
  have stored: "ex_json_ok ex p" for p by (rule session_stores(3) [OF mysql_db_session [OF ex]])
  let ?cut = "inbox_clipped ex (pending_inbox_row cfg i t source env)"
  let ?again = "pending_inbox_row cfg i' t' source env"
  obtain rec where rec: "ib_source rec = source" "rec_message_id rec = md_message_id (env_metadata env)"
    "\<And>tbl. InboxStore_save_received cfg ex i (utc t) source env tbl =
      InboxStore_save_received_mysql ex rec (pending_inbox_row cfg i t source env) tbl"
    using save_received_mysql_eq [OF ex valid] by blast
  have tbl1: "tbl1 = tbl @ [?cut]"
    using first assms(6) absent rec(1,2)
    by (auto simp: stored rec(3) InboxStore_save_received_mysql_def inbox_insert_ignore_def insert_unique_def
        split: if_splits list.splits)
  obtain rec' where rec': "ib_source rec' = source" "rec_message_id rec' = md_message_id (env_metadata env)"
    "\<And>tbl. InboxStore_save_received cfg ex i' (utc t') source env tbl = InboxStore_save_received_mysql ex rec' ?again tbl"
    using save_received_mysql_eq [OF ex valid] by blast
  have "inbox_conflict ex (inbox_clipped ex ?again) ?cut"
    by (simp add: inbox_conflict_def inbox_same_message_def inbox_clipped_def text_eq_def)
  then have "inbox_insert_ignore ex ?again tbl1 = (0, tbl1)"
    by (simp add: inbox_insert_ignore_def insert_unique_def tbl1)
  moreover have "filter (\<lambda>r. text_eq ex (col_source r) source \<and> text_eq ex (col_message_id r) (md_message_id (env_metadata env))) tbl1 = []"
    using absent cut by (auto simp: tbl1 filter_empty_conv inbox_clipped_def)
  ultimately show ?thesis by (simp add: stored rec' InboxStore_save_received_mysql_def)
qed

section \<open>Concrete receipts and claims\<close>

definition example_inbox_row :: "uuid \<Rightarrow> string option \<Rightarrow> int \<Rightarrow> inbox_row" where
  "example_inbox_row i key received = \<lparr>
     col_id = i, col_message_id = (if i = 1 then ''m-1'' else if i = 2 then ''m-2'' else ''m-3''),
     col_event_type = ''order.created'', col_message_key = None, col_ordering_key = key,
     col_correlation_id = None, col_payload = JNull, col_headers = [], col_status = ''pending'',
     col_attempts = 0, col_max_attempts = 10, col_available_at = received, col_lease_until = None,
     col_last_error = None, col_updated_at = received, col_source = ''billing'',
     col_received_at = received, col_processed_at = None\<rparr>"

definition example_inbox :: inbox_table where
  "example_inbox = [example_inbox_row 1 (Some ''k'') 10, example_inbox_row 2 (Some ''k'') 20]"

text \<open>The ordered claim takes the head of the key only, the unordered claim both rows.\<close>

definition example_inbox_claimed :: inbox_table where
  "example_inbox_claimed =
     [set_claimed 30000050 50 (example_inbox_row 1 (Some ''k'') 10), example_inbox_row 2 (Some ''k'') 20]"

definition example_inbox_records :: "executor \<Rightarrow> InboxMessageRecord list" where
  "example_inbox_records ex =
     [inbox_view ex InboxStatus.PROCESSING (set_claimed 30000050 50 (example_inbox_row 1 (Some ''k'') 10))]"

lemmas inbox_eval =
  InboxStore_claim_ready_def InboxStore_claim_ready_unordered_def InboxStore_claim_def InboxStore_claim_mysql_def
  inbox_CLAIM_READY_FIFO_SQL_def inbox_CLAIM_READY_FIFO_MYSQL_SQL_def inbox_CLAIM_READY_UNORDERED_SQL_def
  inbox_CLAIM_READY_UNORDERED_MYSQL_SQL_def claim_returning_def select_skip_locked_def select_order_by_def
  update_returning_def update_where_def inbox_claimable_fifo_def inbox_claimable_unordered_def text_eq_def
  set_defs Let_def inbox_map_record_def InboxStatus_from_str_def dialect_name_def InboxStore_reclaim_expired_def
  rowcount_def aware_utc_opt_def example_postgres_def example_mysql_def POSTGRESQL_def MYSQL_def
  default_PactixConfig_def example_inbox_def example_inbox_row_def

lemma example_inbox_claim:
  "InboxStore_claim_ready default_PactixConfig example_postgres (utc 50) example_inbox =
     Inr (example_inbox_records example_postgres, example_inbox_claimed)"
  by (simp add: inbox_eval example_inbox_claimed_def example_inbox_records_def inbox_view_def)

lemma example_inbox_simps [simp]:
  "unique_ids example_inbox" "unique_ids example_inbox_claimed"
  "rec_id ` set (example_inbox_records ex) = {1}" "length (example_inbox_records ex) = 1"
  by (simp_all add: unique_ids_def example_inbox_def example_inbox_claimed_def example_inbox_row_def
      example_inbox_records_def)

lemma example_inbox_invariant [simp]: "inbox_invariant example_postgres example_inbox_claimed"
  by (simp add: inbox_invariant_def message_key_of_def inbox_row_ok_def example_inbox_claimed_def
      example_inbox_row_def set_claimed_def unique_ids_def)

definition example_receipt :: "string \<Rightarrow> MessageEnvelope" where
  "example_receipt mid = \<lparr>env_metadata = MessageMetadata_new mid ''order.created'' (utc 5), env_payload = JNull\<rparr>"

lemma example_receipt_simps [simp]:
  "md_message_id (env_metadata (example_receipt mid)) = mid"
  "wf_dict (md_headers (env_metadata (example_receipt mid)))"
  "inbox_fits example_postgres (pending_inbox_row cfg i t s (example_receipt mid))"
  by (simp_all add: example_receipt_def builder_defs inbox_fits_def pending_inbox_row_def)

lemma example_receipt_valid [simp]:
  "c \<noteq> [] \<Longrightarrow> \<not> is_space (hd c) \<Longrightarrow> valid_receipt ''billing'' (example_receipt c)"
  by (cases c) (simp_all add: valid_receipt_def valid_metadata_def example_receipt_def builder_defs blank_iff
      is_space_def code_point_def)

theorem inbox_duplicate_ignored_witness:
  "\<exists>m. InboxStore_save_received default_PactixConfig example_postgres 9 (utc 60) ''billing'' (example_receipt ''m-1'')
       example_inbox_claimed = Inr (\<lparr>ro_record = m, ro_inserted = False\<rparr>, example_inbox_claimed)
     \<and> inbox_map_record example_postgres (set_claimed 30000050 50 (example_inbox_row 1 (Some ''k'') 10)) = Inr m"
proof (rule inbox_duplicate_ignored)
  show "inbox_invariant example_postgres example_inbox_claimed" by simp
qed (simp_all add: is_space_def code_point_def text_eq_def example_inbox_claimed_def example_inbox_row_def set_claimed_def)

lemma example_fresh:
  "r \<in> set example_inbox_claimed \<Longrightarrow>
     \<not> inbox_conflict example_postgres (pending_inbox_row default_PactixConfig 9 60 ''billing'' (example_receipt ''m-9'')) r"
  by (auto simp: example_inbox_claimed_def example_inbox_row_def set_claimed_def inbox_conflict_def
      inbox_same_message_def text_eq_def)

theorem inbox_fresh_stored_witness:
  "\<exists>m fresh. InboxStore_save_received default_PactixConfig example_postgres 9 (utc 60) ''billing'' (example_receipt ''m-9'')
       example_inbox_claimed = Inr (\<lparr>ro_record = m, ro_inserted = True\<rparr>,
         example_inbox_claimed @ [pending_inbox_row default_PactixConfig 9 60 ''billing'' (example_receipt ''m-9'')])
     \<and> InboxMessageRecord_pending 9 (utc 60) ''billing'' (env_metadata (example_receipt ''m-9''))
         (env_payload (example_receipt ''m-9'')) (retry_policy default_PactixConfig) = Inr fresh
     \<and> same_record m fresh"
  by (rule inbox_fresh_stored) (simp_all add: is_space_def code_point_def example_fresh)

lemma example_first_receipt:
  "\<exists>out. InboxStore_save_received default_PactixConfig example_postgres 9 (utc 60) ''billing'' (example_receipt ''m-9'')
     example_inbox_claimed = Inr (out,
       example_inbox_claimed @ [pending_inbox_row default_PactixConfig 9 60 ''billing'' (example_receipt ''m-9'')])"
  using save_received_fresh [OF _ _ _ _ example_fresh] by (auto simp: is_space_def code_point_def)

theorem inbox_reachable_invariant_witness:
  "\<exists>tbl. (inbox_call example_postgres)\<^sup>*\<^sup>* [] tbl \<and> length tbl = 1 \<and> inbox_invariant example_postgres tbl"
proof -
  let ?row = "pending_inbox_row default_PactixConfig 9 60 ''billing'' (example_receipt ''m-9'')"
  have "\<exists>out. InboxStore_save_received default_PactixConfig example_postgres 9 (utc 60) ''billing''
      (example_receipt ''m-9'') [] = Inr (out, [?row])"
    using save_received_fresh [of example_postgres "''billing''" "example_receipt ''m-9''" default_PactixConfig 9 60 "[]"]
    by (auto simp: is_space_def code_point_def)
  then have "(inbox_call example_postgres)\<^sup>*\<^sup>* [] [?row]" by (blast intro: inbox_call.received)
  then have "(inbox_call example_postgres)\<^sup>*\<^sup>* [] [?row] \<and> inbox_invariant example_postgres [?row]"
    using inbox_reachable_invariant [of example_postgres "[?row]"] by simp
  then show ?thesis by (intro exI [of _ "[?row]"]) simp
qed

theorem inbox_received_once_witness:
  "\<exists>out'. InboxStore_save_received default_PactixConfig example_postgres 11 (utc 99) ''billing'' (example_receipt ''m-9'')
       (example_inbox_claimed @ [pending_inbox_row default_PactixConfig 9 60 ''billing'' (example_receipt ''m-9'')])
     = Inr (out', example_inbox_claimed @ [pending_inbox_row default_PactixConfig 9 60 ''billing'' (example_receipt ''m-9'')])
     \<and> ReceiveOutcome_is_duplicate out' \<and> rec_id (ro_record out') = 9"
proof -
  obtain out where first: "InboxStore_save_received default_PactixConfig example_postgres 9 (utc 60) ''billing''
      (example_receipt ''m-9'') example_inbox_claimed = Inr (out,
       example_inbox_claimed @ [pending_inbox_row default_PactixConfig 9 60 ''billing'' (example_receipt ''m-9'')])"
    using example_first_receipt by blast
  have valid: "valid_receipt ''billing'' (example_receipt ''m-9'')" by (simp add: is_space_def code_point_def)
  show ?thesis
    using inbox_received_once [OF postgres_db_session [OF example_postgres_session] example_inbox_invariant _
        valid valid _ _ example_fresh _ first rtranclp.rtrancl_refl, of default_PactixConfig 11 99]
    by simp
qed

theorem inbox_store_refines_witness:
  "inbox_records example_postgres example_inbox_claimed 1 = Some (hd (example_inbox_records example_postgres))
   \<and> (\<exists>tbl'. InboxStore_mark_processed example_postgres 1 (Aware 7200000099 7200000000) example_inbox = Inr tbl'
     \<and> inbox_records example_postgres tbl' = (inbox_records example_postgres example_inbox)(1 :=
         map_option (InboxMessageRecord_mark_processed (utc 99) (utc 99)) (inbox_records example_postgres example_inbox 1)))"
proof -
  let ?m = "hd (example_inbox_records example_postgres)"
  have m: "?m \<in> set (example_inbox_records example_postgres)" "rec_id ?m = 1"
    by (simp_all add: example_inbox_records_def example_inbox_row_def)
  have c: "inbox_mode False default_PactixConfig example_postgres (utc 50) example_inbox =
      Inr (example_inbox_records example_postgres, example_inbox_claimed)"
    by (simp add: inbox_mode_def example_inbox_claim)
  have inv: "inbox_invariant example_postgres example_inbox"
    by (simp add: inbox_invariant_def message_key_of_def inbox_row_ok_def example_inbox_def example_inbox_row_def
        unique_ids_def)
  note refines = inbox_store_refines [OF postgres_db_session [OF example_postgres_session] inv,
      of "Aware 7200000099 7200000000" "utc 0" 1]
  have "inbox_records example_postgres example_inbox_claimed (rec_id ?m) = Some ?m"
    using refines c m(1) by (metis is_aware.simps(1))
  with m(2) refines show ?thesis by simp
qed

theorem inbox_claim_exclusive_witness:
  "\<exists>ms' tbl4. InboxStore_claim_ready_unordered default_PactixConfig example_mysql (utc 60) example_inbox_claimed = Inr (ms', tbl4)
     \<and> {1} \<inter> rec_id ` set ms' = {}"
proof -
  have r: "InboxStore_reclaim_expired example_mysql (utc 60) example_inbox_claimed = Inr (0, example_inbox_claimed)"
    by (simp add: inbox_eval example_inbox_claimed_def)
  obtain ms' tbl4 where
    c: "InboxStore_claim_ready_unordered default_PactixConfig example_mysql (utc 60) example_inbox_claimed = Inr (ms', tbl4)"
    using inbox_unordered.claim_total [of example_mysql example_inbox_claimed default_PactixConfig 60]
    by (auto simp: default_PactixConfig_def)
  have "rec_id ` set (example_inbox_records example_postgres) \<inter> rec_id ` set ms' = {}"
  proof (rule inbox_claim_exclusive)
    show "inbox_mode False default_PactixConfig example_postgres (utc 50) example_inbox =
        Inr (example_inbox_records example_postgres, example_inbox_claimed)"
      by (simp add: inbox_mode_def example_inbox_claim)
    show "inbox_mode True default_PactixConfig example_mysql (utc 60) example_inbox_claimed = Inr (ms', tbl4)"
      by (simp add: inbox_mode_def c)
    show "InboxStore_reclaim_expired example_mysql (utc 60) example_inbox_claimed = Inr (0, example_inbox_claimed)" by (rule r)
  qed (simp_all add: default_PactixConfig_def)
  with c show ?thesis by simp
qed

lemma example_inbox_second_claim:
  "\<exists>ms tbl'. InboxStore_claim_ready default_PactixConfig example_mysql (utc 50)
       [set_processed 40 (example_inbox_row 1 (Some ''k'') 10), example_inbox_row 2 (Some ''k'') 20] = Inr (ms, tbl')
     \<and> rec_id ` set ms = {2}"
  by (simp add: inbox_eval set_processed_def)

theorem inbox_claim_fifo_witness:
  "\<exists>ms tbl'. InboxStore_claim_ready default_PactixConfig example_mysql (utc 50)
       [set_processed 40 (example_inbox_row 1 (Some ''k'') 10), example_inbox_row 2 (Some ''k'') 20] = Inr (ms, tbl')
     \<and> 2 \<in> rec_id ` set ms \<and> col_status (set_processed 40 (example_inbox_row 1 (Some ''k'') 10)) \<noteq> ''pending''"
proof -
  let ?older = "set_processed 40 (example_inbox_row 1 (Some ''k'') 10)"
  let ?row = "example_inbox_row 2 (Some ''k'') 20"
  obtain ms tbl' where c: "InboxStore_claim_ready default_PactixConfig example_mysql (utc 50) [?older, ?row] = Inr (ms, tbl')"
    and ms: "rec_id ` set ms = {2}" using example_inbox_second_claim by blast
  have "unique_ids [?older, ?row]" "col_id ?row \<in> rec_id ` set ms"
    by (simp_all add: ms unique_ids_def example_inbox_row_def)
  moreover have "same_key example_mysql ?older ?row" "col_received_at ?older < col_received_at ?row"
    by (simp_all add: same_key_def text_eq_def set_processed_def example_inbox_row_def)
  ultimately have "col_status ?older \<noteq> ''pending''"
    using inbox_claim_fifo [OF mysql_db_session [OF example_mysql_session] _ c, of ?row ?older] by simp
  with c ms show ?thesis by auto
qed

theorem inbox_unordered_no_gate_witness:
  "\<exists>ms tbl'. InboxStore_claim_ready_unordered default_PactixConfig example_postgres (utc 50) example_inbox = Inr (ms, tbl')
     \<and> 2 \<in> rec_id ` set ms"
proof -
  obtain ms tbl' where
    c: "InboxStore_claim_ready_unordered default_PactixConfig example_postgres (utc 50) example_inbox = Inr (ms, tbl')"
    using inbox_unordered.claim_total [of example_postgres example_inbox default_PactixConfig 50]
    by (auto simp: default_PactixConfig_def)
  have "length ms \<le> 2"
  proof -
    have "rec_id ` set ms \<subseteq> col_id ` set example_inbox"
      using inbox_unordered.claim_effect(7) [OF _ _ c] by simp
    then have "rec_id ` set ms \<subseteq> {1, 2}" by (simp add: example_inbox_def example_inbox_row_def)
    then have "card (set (map rec_id ms)) \<le> card {1, 2 :: uuid}" by (intro card_mono) auto
    moreover have "card (set (map rec_id ms)) = length (map rec_id ms)"
      using inbox_unordered.claim_effect(2) [OF _ _ c] by (intro distinct_card) simp
    ultimately show ?thesis by simp
  qed
  then have "int (length ms) \<noteq> inbox_batch_size default_PactixConfig" by (simp add: default_PactixConfig_def)
  then have "2 \<in> rec_id ` set ms"
    using inbox_unordered_no_gate [OF _ _ c, of "example_inbox_row 2 (Some ''k'') 20"]
    by (simp add: example_inbox_def example_inbox_row_def unique_ids_def)
  with c show ?thesis by blast
qed

lemma example_long_receipt:
  "valid_receipt ''billing'' (example_receipt (replicate 256 CHR ''a''))"
  by (rule example_receipt_valid) (simp_all add: is_space_def code_point_def)

lemma example_cut: "\<not> text_eq example_mysql (ex_clip example_mysql (replicate 256 CHR ''a'')) (replicate 256 CHR ''a'')"
proof
  assume "text_eq example_mysql (ex_clip example_mysql (replicate 256 CHR ''a'')) (replicate 256 CHR ''a'')"
  then have "length (lower (take 255 (replicate 256 CHR ''a''))) = length (lower (replicate 256 CHR ''a''))"
    by (simp add: text_eq_def example_mysql_def)
  then show False by (simp add: lower_def)
qed

theorem inbox_cut_id_redelivery_raises_witness:
  "\<exists>out tbl1. InboxStore_save_received default_PactixConfig example_mysql 1 (utc 5) ''billing''
       (example_receipt (replicate 256 CHR ''a'')) [] = Inr (out, tbl1) \<and> ReceiveOutcome_is_inserted out
     \<and> InboxStore_save_received default_PactixConfig example_mysql 2 (utc 6) ''billing''
       (example_receipt (replicate 256 CHR ''a'')) tbl1 = Inl NoResultFound"
proof -
  obtain rec where "\<And>tbl. InboxStore_save_received default_PactixConfig example_mysql 1 (utc 5) ''billing''
      (example_receipt (replicate 256 CHR ''a'')) tbl =
      InboxStore_save_received_mysql example_mysql rec
        (pending_inbox_row default_PactixConfig 1 5 ''billing'' (example_receipt (replicate 256 CHR ''a''))) tbl"
    using save_received_mysql_eq [OF example_mysql_session example_long_receipt] by blast
  then have first: "InboxStore_save_received default_PactixConfig example_mysql 1 (utc 5) ''billing''
      (example_receipt (replicate 256 CHR ''a'')) [] = Inr (\<lparr>ro_record = rec, ro_inserted = True\<rparr>,
        [inbox_clipped example_mysql (pending_inbox_row default_PactixConfig 1 5 ''billing'' (example_receipt (replicate 256 CHR ''a'')))])"
    by (simp add: InboxStore_save_received_mysql_def inbox_insert_ignore_def insert_unique_def)
  with inbox_cut_id_redelivery_raises [OF example_mysql_session example_long_receipt _ _ first] example_cut
  show ?thesis by (fastforce simp: ReceiveOutcome_is_inserted_def)
qed

end
