(* ===== verification/InboxHooks.thy ===== *)
theory InboxHooks
  imports InboxModel
begin

text \<open>
  \<^verbatim>\<open>inbox/handler.py\<close>, \<^verbatim>\<open>inbox/idempotency.py\<close>, \<^verbatim>\<open>inbox/stale.py\<close>: the outcomes and decisions of
  the application's callbacks, the adapters that turn functions into callback objects, and the
  built-in callbacks.  A callback answers a decision or raises.
\<close>

section \<open>Handlers\<close>

datatype HandleKind = KIND_PROCESSED | KIND_RETRYABLE | KIND_TERMINAL

record HandleOutcome =
  ho_kind :: HandleKind
  ho_message :: "string option"

definition HandleOutcome_processed :: HandleOutcome where
  "HandleOutcome_processed = \<lparr>ho_kind = KIND_PROCESSED, ho_message = None\<rparr>"

definition HandleOutcome_retryable :: "string \<Rightarrow> HandleOutcome" where
  "HandleOutcome_retryable msg = \<lparr>ho_kind = KIND_RETRYABLE, ho_message = Some msg\<rparr>"

definition HandleOutcome_terminal :: "string \<Rightarrow> HandleOutcome" where
  "HandleOutcome_terminal msg = \<lparr>ho_kind = KIND_TERMINAL, ho_message = Some msg\<rparr>"

definition HandleOutcome_is_processed :: "HandleOutcome \<Rightarrow> bool" where
  "HandleOutcome_is_processed h = (ho_kind h = KIND_PROCESSED)"

definition HandleOutcome_is_retryable :: "HandleOutcome \<Rightarrow> bool" where
  "HandleOutcome_is_retryable h = (ho_kind h = KIND_RETRYABLE)"

definition HandleOutcome_is_terminal :: "HandleOutcome \<Rightarrow> bool" where
  "HandleOutcome_is_terminal h = (ho_kind h = KIND_TERMINAL)"

lemmas handle_tests =
  HandleOutcome_is_processed_def HandleOutcome_is_retryable_def HandleOutcome_is_terminal_def

lemmas handle_defs =
  HandleOutcome_processed_def HandleOutcome_retryable_def HandleOutcome_terminal_def

datatype FnInboxHandler = FnInboxHandler (fn_handle: "InboxMessageRecord \<Rightarrow> error + HandleOutcome")

definition inbox_handler :: "(InboxMessageRecord \<Rightarrow> error + HandleOutcome) \<Rightarrow> FnInboxHandler" where
  "inbox_handler handle = FnInboxHandler handle"

definition FnInboxHandler_handle :: "FnInboxHandler \<Rightarrow> InboxMessageRecord \<Rightarrow> error + HandleOutcome" where
  "FnInboxHandler_handle h record = fn_handle h record"

section \<open>Idempotency hooks\<close>

datatype IdempotencyDecision = PROCESS | SKIP | ALREADY_APPLIED

datatype FnIdempotencyHook =
  FnIdempotencyHook (fn_idempotency: "InboxMessageRecord \<Rightarrow> error + IdempotencyDecision")

definition idempotency_hook :: "(InboxMessageRecord \<Rightarrow> error + IdempotencyDecision) \<Rightarrow> FnIdempotencyHook" where
  "idempotency_hook evaluate = FnIdempotencyHook evaluate"

definition FnIdempotencyHook_evaluate ::
  "FnIdempotencyHook \<Rightarrow> InboxMessageRecord \<Rightarrow> error + IdempotencyDecision" where
  "FnIdempotencyHook_evaluate h record = fn_idempotency h record"

datatype StaticIdempotency = StaticIdempotency (static_decision: IdempotencyDecision)

definition StaticIdempotency_process :: StaticIdempotency where
  "StaticIdempotency_process = StaticIdempotency PROCESS"

definition StaticIdempotency_skip :: StaticIdempotency where
  "StaticIdempotency_skip = StaticIdempotency SKIP"

definition StaticIdempotency_already_applied :: StaticIdempotency where
  "StaticIdempotency_already_applied = StaticIdempotency ALREADY_APPLIED"

definition StaticIdempotency_evaluate ::
  "StaticIdempotency \<Rightarrow> InboxMessageRecord \<Rightarrow> error + IdempotencyDecision" where
  "StaticIdempotency_evaluate s record = Inr (static_decision s)"

definition ProcessAll_evaluate :: "InboxMessageRecord \<Rightarrow> error + IdempotencyDecision" where
  "ProcessAll_evaluate record = Inr PROCESS"

section \<open>Stale-event filters\<close>

datatype StaleEventDecision = FRESH | STALE

datatype FnStaleEventFilter =
  FnStaleEventFilter (fn_stale: "InboxMessageRecord \<Rightarrow> error + StaleEventDecision")

definition stale_event_filter :: "(InboxMessageRecord \<Rightarrow> error + StaleEventDecision) \<Rightarrow> FnStaleEventFilter" where
  "stale_event_filter evaluate = FnStaleEventFilter evaluate"

definition FnStaleEventFilter_evaluate ::
  "FnStaleEventFilter \<Rightarrow> InboxMessageRecord \<Rightarrow> error + StaleEventDecision" where
  "FnStaleEventFilter_evaluate f record = fn_stale f record"

definition AcceptAllEvents_evaluate :: "InboxMessageRecord \<Rightarrow> error + StaleEventDecision" where
  "AcceptAllEvents_evaluate record = Inr FRESH"

end
