(* ===== verification/InboxRunner.thy ===== *)
theory InboxRunner
  imports InboxCorrect InboxHooks RunnerLoop
begin

text \<open>
  \<^verbatim>\<open>inbox/runner.py\<close>: one pass of the inbox worker, in first-in first-out and in unordered mode.
  The parameters are those of the outbox pass; \<open>k\<close> numbers the rows of the pass, and the
  callbacks may answer differently on every call.
\<close>

datatype RunnerMode = FIFO_PER_ORDERING_KEY | UNORDERED

record InboxRunSummary =
  in_reclaimed :: int
  in_claimed :: int
  in_processed :: int
  in_stale_skipped :: int
  in_retry_scheduled :: int
  in_failed :: int

type_synonym 'd callback = "nat \<Rightarrow> InboxMessageRecord \<Rightarrow> error + 'd"

record InboxRunner =
  ir_handler :: "HandleOutcome callback"
  ir_idempotency_hook :: "IdempotencyDecision callback"
  ir_mode :: RunnerMode
  ir_stale_event_filter :: "StaleEventDecision callback"

text \<open>
  The constructor; a filter is given with its truth value, which \<^verbatim>\<open>stale_event_filter or
  AcceptAllEvents()\<close> reads.
\<close>

definition InboxRunner_init ::
  "HandleOutcome callback \<Rightarrow> IdempotencyDecision callback \<Rightarrow> RunnerMode
   \<Rightarrow> (bool \<times> StaleEventDecision callback) option \<Rightarrow> InboxRunner" where
  "InboxRunner_init handler hook mode stale = \<lparr>
     ir_handler = handler,
     ir_idempotency_hook = hook,
     ir_mode = mode,
     ir_stale_event_filter =
       (case stale of Some (True, f) \<Rightarrow> f | _ \<Rightarrow> (\<lambda>_. AcceptAllEvents_evaluate))\<rparr>"

definition InboxRunner_new_unordered ::
  "HandleOutcome callback \<Rightarrow> IdempotencyDecision callback \<Rightarrow> bool \<times> StaleEventDecision callback \<Rightarrow> InboxRunner" where
  "InboxRunner_new_unordered handler hook stale = InboxRunner_init handler hook UNORDERED (Some stale)"

text \<open>The transaction that records the handler's outcome.\<close>

definition InboxRunner_record ::
  "(pyfloat \<Rightarrow> int \<Rightarrow> error + pyfloat) \<Rightarrow> PactixConfig \<Rightarrow> executor \<Rightarrow> datetime \<Rightarrow> datetime
   \<Rightarrow> InboxMessageRecord \<Rightarrow> HandleOutcome \<Rightarrow> InboxRunSummary \<Rightarrow> inbox_table
   \<Rightarrow> error + (InboxRunSummary \<times> inbox_table)" where
  "InboxRunner_record fpow cfg ex t1 t2 row outcome summary tbl =
     (if HandleOutcome_is_processed outcome then
        res_bind (InboxStore_mark_processed ex (rec_id row) t1 tbl) (\<lambda>tbl'.
          Inr (summary\<lparr>in_processed := in_processed summary + 1\<rparr>, tbl'))
      else if HandleOutcome_is_retryable outcome then
        res_bind (handle_retryable_failure fpow (retry_policy cfg)
            (InboxStore_mark_retry ex t2) (InboxStore_mark_failed ex t2)
            (rec_id row) (rec_attempts row) (rec_max_attempts row) (or_empty (ho_message outcome)) t1 tbl)
          (\<lambda>(action, tbl').
            Inr (if action = RETRY_SCHEDULED
                 then summary\<lparr>in_retry_scheduled := in_retry_scheduled summary + 1\<rparr>
                 else summary\<lparr>in_failed := in_failed summary + 1\<rparr>, tbl'))
      else
        res_bind (InboxStore_mark_failed ex t2 (rec_id row) (or_empty (ho_message outcome)) tbl) (\<lambda>tbl'.
          Inr (summary\<lparr>in_failed := in_failed summary + 1\<rparr>, tbl')))"

text \<open>The body of the loop for row number \<open>k\<close>.\<close>

definition InboxRunner_row ::
  "(pyfloat \<Rightarrow> int \<Rightarrow> error + pyfloat) \<Rightarrow> PactixConfig \<Rightarrow> InboxRunner \<Rightarrow> (nat \<Rightarrow> executor) \<Rightarrow> (nat \<Rightarrow> datetime)
   \<Rightarrow> nat \<Rightarrow> InboxMessageRecord \<Rightarrow> InboxRunSummary \<Rightarrow> inbox_table \<Rightarrow> error + (InboxRunSummary \<times> inbox_table)" where
  "InboxRunner_row fpow cfg runner conn clock k row summary tbl =
     (let ex = conn (k + 1); t1 = clock (2 * k + 1); t2 = clock (2 * k + 2)
      in res_bind (if ir_mode runner = UNORDERED then ir_stale_event_filter runner k row else Inr FRESH) (\<lambda>decision.
           if decision = STALE then
             res_bind (InboxStore_mark_processed ex (rec_id row) t1 tbl) (\<lambda>tbl'.
               Inr (summary\<lparr>in_processed := in_processed summary + 1,
                            in_stale_skipped := in_stale_skipped summary + 1\<rparr>, tbl'))
           else
             res_bind (ir_idempotency_hook runner k row) (\<lambda>idem.
               if idem = PROCESS then
                 res_bind (ir_handler runner k row) (\<lambda>outcome.
                   InboxRunner_record fpow cfg ex t1 t2 row outcome summary tbl)
               else
                 res_bind (InboxStore_mark_processed ex (rec_id row) t1 tbl) (\<lambda>tbl'.
                   Inr (summary\<lparr>in_processed := in_processed summary + 1\<rparr>, tbl')))))"

definition InboxRunner_run_once ::
  "(pyfloat \<Rightarrow> int \<Rightarrow> error + pyfloat) \<Rightarrow> PactixConfig \<Rightarrow> InboxRunner \<Rightarrow> (nat \<Rightarrow> executor) \<Rightarrow> (nat \<Rightarrow> datetime)
   \<Rightarrow> (nat \<Rightarrow> inbox_table \<Rightarrow> inbox_table) \<Rightarrow> inbox_table \<Rightarrow> (error + InboxRunSummary) \<times> inbox_table" where
  "InboxRunner_run_once fpow cfg runner conn clock others tbl =
     (let now = clock 0
      in case res_bind (InboxStore_reclaim_expired (conn 0) now tbl) (\<lambda>(n, tbl1).
             res_bind (if ir_mode runner = UNORDERED then InboxStore_claim_ready_unordered cfg (conn 0) now tbl1
                       else InboxStore_claim_ready cfg (conn 0) now tbl1) (\<lambda>(rows, tbl2). Inr (n, rows, tbl2))) of
           Inl e \<Rightarrow> (Inl e, tbl)
         | Inr (n, rows, tbl2) \<Rightarrow>
             settle_loop (InboxRunner_row fpow cfg runner conn clock) others 0 rows
               \<lparr>in_reclaimed = n, in_claimed = int (length rows), in_processed = 0, in_stale_skipped = 0,
                in_retry_scheduled = 0, in_failed = 0\<rparr> tbl2)"

section \<open>One row\<close>

text \<open>What the callbacks decide for a row: drop it as stale, skip it, or the handler's outcome.\<close>

datatype verdict = Dropped | Skipped | Handled HandleOutcome

definition row_verdict :: "InboxRunner \<Rightarrow> nat \<Rightarrow> InboxMessageRecord \<Rightarrow> error + verdict" where
  "row_verdict runner k row =
     res_bind (if ir_mode runner = UNORDERED then ir_stale_event_filter runner k row else Inr FRESH) (\<lambda>decision.
       if decision = STALE then Inr Dropped
       else res_bind (ir_idempotency_hook runner k row) (\<lambda>idem.
              if idem = PROCESS then res_bind (ir_handler runner k row) (\<lambda>outcome. Inr (Handled outcome))
              else Inr Skipped))"

definition inbox_row_settled ::
  "RetryPolicy \<Rightarrow> int \<Rightarrow> int \<Rightarrow> verdict \<Rightarrow> inbox_row \<Rightarrow> inbox_row \<Rightarrow> bool" where
  "inbox_row_settled policy t1 t2 v r r' =
     (case v of
        Handled outcome \<Rightarrow>
          (case ho_kind outcome of
             KIND_PROCESSED \<Rightarrow> r' = set_processed t1 r
           | KIND_RETRYABLE \<Rightarrow>
               if col_attempts r + 1 < col_max_attempts r
               then \<exists>us. 0 \<le> us \<and> us \<le> rp_max_interval policy \<and>
                      r' = set_retry (or_empty (ho_message outcome)) (t1 + us) t2 r
               else r' = set_failed (or_empty (ho_message outcome)) t2 r
           | KIND_TERMINAL \<Rightarrow> r' = set_failed (or_empty (ho_message outcome)) t2 r)
      | _ \<Rightarrow> r' = set_processed t1 r)"

definition inbox_settled_total :: "InboxRunSummary \<Rightarrow> int" where
  "inbox_settled_total s = in_processed s + in_retry_scheduled s + in_failed s"

lemma inbox_record_effect:
  assumes ex: "db_session ex" and aware: "is_aware t1" "is_aware t2" and pol: "sane_policy fpow (retry_policy cfg)"
    and row: "rec_attempts row = col_attempts r" "rec_max_attempts row = col_max_attempts r"
  shows "settles (InboxRunner_record fpow cfg ex t1 t2 row outcome) (rec_id row) r
    (inbox_row_settled (retry_policy cfg) (instant t1) (instant t2) (Handled outcome) r)"
proof (cases "ho_kind outcome")
  case KIND_PROCESSED
  then show ?thesis
    by (intro settlesI [where f = "set_processed (instant t1)"])
      (simp_all add: InboxRunner_record_def handle_tests mark_processed_eq [OF ex aware(1)] inbox_row_settled_def)
next
  case KIND_TERMINAL
  then show ?thesis
    by (intro settlesI [where f = "set_failed (or_empty (ho_message outcome)) (instant t2)"])
      (simp_all add: InboxRunner_record_def handle_tests inbox_retry.mark_failed_eq [OF ex aware(2)] inbox_row_settled_def)
next
  case KIND_RETRYABLE
  let ?e = "or_empty (ho_message outcome)"
  show ?thesis
  proof (cases "col_attempts r + 1 < col_max_attempts r")
    case False
    then have "rec_max_attempts row \<le> rec_attempts row + 1" by (simp add: row)
    note eq = inbox_retry.handle_failed [OF ex aware(2) this]
    from KIND_RETRYABLE False show ?thesis
      by (intro settlesI [where f = "set_failed ?e (instant t2)"])
        (simp_all add: InboxRunner_record_def handle_tests eq inbox_row_settled_def)
  next
    case True
    then have less: "rec_attempts row + 1 < rec_max_attempts row" by (simp add: row)
    obtain us where us: "0 \<le> us" "us \<le> rp_max_interval (retry_policy cfg)"
      and at: "next_retry_at fpow (retry_policy cfg) (rec_attempts row) t1 = Inr (dt_add t1 us)"
      using next_retry_at_obtain pol unfolding sane_policy_def by metis
    have eq: "handle_retryable_failure fpow (retry_policy cfg) (InboxStore_mark_retry ex t2) (InboxStore_mark_failed ex t2)
        (rec_id row) (rec_attempts row) (rec_max_attempts row) ?e t1 tbl
        = Inr (RETRY_SCHEDULED, update_where (\<lambda>r. col_id r = rec_id row) (set_retry ?e (instant t1 + us) (instant t2)) tbl)" for tbl
      using less at aware by (simp add: handle_retryable_failure_def inbox_retry.mark_retry_eq [OF ex])
    from KIND_RETRYABLE True us show ?thesis
      by (intro settlesI [where f = "set_retry ?e (instant t1 + us) (instant t2)"])
        (auto simp: InboxRunner_record_def handle_tests eq inbox_row_settled_def)
  qed
qed

lemma inbox_row_settles:
  assumes env: "pass_env fpow cfg conn clock" and v: "row_verdict runner k row = Inr v"
    and row: "rec_attempts row = col_attempts r" "rec_max_attempts row = col_max_attempts r"
  shows "settles (InboxRunner_row fpow cfg runner conn clock k row) (rec_id row) r
    (inbox_row_settled (retry_policy cfg) (instant (clock (2 * k + 1))) (instant (clock (2 * k + 2))) v r)"
proof (cases v)
  case (Handled outcome)
  then have "InboxRunner_row fpow cfg runner conn clock k row =
      InboxRunner_record fpow cfg (conn (k + 1)) (clock (2 * k + 1)) (clock (2 * k + 2)) row outcome"
    using v by (auto simp: row_verdict_def InboxRunner_row_def fun_eq_iff Let_def split: if_splits)
  with Handled show ?thesis
    using inbox_record_effect [OF pass_envD(1,2,2,3) [OF env] row] by simp
next
  case Dropped
  with v show ?thesis
    by (intro settlesI [where f = "set_processed (instant (clock (2 * k + 1)))"])
      (auto simp: row_verdict_def InboxRunner_row_def mark_processed_eq [OF pass_envD(1,2) [OF env]]
        inbox_row_settled_def Let_def split: if_splits)
next
  case Skipped
  with v show ?thesis
    by (intro settlesI [where f = "set_processed (instant (clock (2 * k + 1)))"])
      (auto simp: row_verdict_def InboxRunner_row_def mark_processed_eq [OF pass_envD(1,2) [OF env]]
        inbox_row_settled_def Let_def split: if_splits)
qed

lemma inbox_row_raises:
  "row_verdict runner k row = Inl e \<Longrightarrow> InboxRunner_row fpow cfg runner conn clock k row s tbl = Inl e"
  by (auto simp: row_verdict_def InboxRunner_row_def res_bind_eq_Inl Let_def split: if_splits)

lemma inbox_record_one_row:
  assumes "db_session ex" "is_aware t1" "is_aware t2"
    and "InboxRunner_record fpow cfg ex t1 t2 m outcome s tbl = Inr (s', tbl')"
  shows "one_row_update (rec_id m) tbl tbl'"
  using assms
  by (auto simp: InboxRunner_record_def mark_processed_eq inbox_retry.mark_failed_eq
      intro: one_row_updateI dest: inbox_retry.handle_one_row [OF assms(1-3)] split: if_splits)

lemma inbox_row_one_row:
  assumes "\<And>j. db_session (conn j)" "\<And>j. is_aware (clock j)"
    and "InboxRunner_row fpow cfg runner conn clock k m s tbl = Inr (s', tbl')"
  shows "one_row_update (rec_id m) tbl tbl'"
proof -
  consider outcome where "InboxRunner_record fpow cfg (conn (k + 1)) (clock (2 * k + 1)) (clock (2 * k + 2)) m outcome s tbl = Inr (s', tbl')"
    | "InboxStore_mark_processed (conn (k + 1)) (rec_id m) (clock (2 * k + 1)) tbl = Inr tbl'"
    using assms(3) by (auto simp: InboxRunner_row_def Let_def split: if_splits)
  then show ?thesis
  proof cases
    case 1
    then show ?thesis by (rule inbox_record_one_row [OF assms(1,2,2)])
  next
    case 2
    then show ?thesis using assms(1,2) by (auto simp: mark_processed_eq intro: one_row_updateI)
  qed
qed

lemma inbox_record_accounting:
  assumes "InboxRunner_record fpow cfg ex t1 t2 row outcome s tbl = Inr (s', tbl')"
  shows "inbox_settled_total s' = inbox_settled_total s + 1
    \<and> (in_claimed s', in_reclaimed s') = (in_claimed s, in_reclaimed s)"
  using assms by (auto simp: InboxRunner_record_def inbox_settled_total_def split: if_splits)

lemma inbox_row_cases:
  assumes "InboxRunner_row fpow cfg runner conn clock k row s tbl = Inr (s', tbl')"
  obtains outcome where
      "InboxRunner_record fpow cfg (conn (k + 1)) (clock (2 * k + 1)) (clock (2 * k + 2)) row outcome s tbl = Inr (s', tbl')"
    | "s' = s\<lparr>in_processed := in_processed s + 1, in_stale_skipped := in_stale_skipped s + 1\<rparr>"
    | "s' = s\<lparr>in_processed := in_processed s + 1\<rparr>"
proof -
  obtain decision where d: "(if decision = STALE then
        res_bind (InboxStore_mark_processed (conn (k + 1)) (rec_id row) (clock (2 * k + 1)) tbl) (\<lambda>tbl'.
          Inr (s\<lparr>in_processed := in_processed s + 1, in_stale_skipped := in_stale_skipped s + 1\<rparr>, tbl'))
      else res_bind (ir_idempotency_hook runner k row) (\<lambda>idem.
        if idem = PROCESS then res_bind (ir_handler runner k row) (\<lambda>outcome.
          InboxRunner_record fpow cfg (conn (k + 1)) (clock (2 * k + 1)) (clock (2 * k + 2)) row outcome s tbl)
        else res_bind (InboxStore_mark_processed (conn (k + 1)) (rec_id row) (clock (2 * k + 1)) tbl) (\<lambda>tbl'.
          Inr (s\<lparr>in_processed := in_processed s + 1\<rparr>, tbl')))) = Inr (s', tbl')"
    using assms unfolding InboxRunner_row_def Let_def res_bind_eq_Inr by blast
  show thesis
  proof (cases "decision = STALE")
    case True
    with d that(2) show thesis by auto
  next
    case False
    with d obtain idem where "(if idem = PROCESS then res_bind (ir_handler runner k row) (\<lambda>outcome.
          InboxRunner_record fpow cfg (conn (k + 1)) (clock (2 * k + 1)) (clock (2 * k + 2)) row outcome s tbl)
        else res_bind (InboxStore_mark_processed (conn (k + 1)) (rec_id row) (clock (2 * k + 1)) tbl) (\<lambda>tbl'.
          Inr (s\<lparr>in_processed := in_processed s + 1\<rparr>, tbl'))) = Inr (s', tbl')"
      unfolding if_not_P [OF False] res_bind_eq_Inr by blast
    with that(1,3) show thesis by (cases "idem = PROCESS") auto
  qed
qed

lemma inbox_row_accounting:
  assumes "InboxRunner_row fpow cfg runner conn clock k row s tbl = Inr (s', tbl')"
  shows "inbox_settled_total s' = inbox_settled_total s + 1
    \<and> (in_claimed s', in_reclaimed s') = (in_claimed s, in_reclaimed s)"
  by (rule inbox_row_cases [OF assms]) (rule inbox_record_accounting, assumption, simp_all add: inbox_settled_total_def)

section \<open>A whole pass\<close>

abbreviation runner_claim ::
  "InboxRunner \<Rightarrow> PactixConfig \<Rightarrow> executor \<Rightarrow> datetime \<Rightarrow> inbox_table \<Rightarrow> error + (InboxMessageRecord list \<times> inbox_table)" where
  "runner_claim runner \<equiv> inbox_mode (ir_mode runner = UNORDERED)"

lemma inbox_mode_effect:
  assumes "db_session ex" "unique_ids tbl" "inbox_mode u cfg ex (utc t) tbl = Inr (ms, tbl')"
  shows "distinct (map rec_id ms) \<and> unique_ids tbl'"
proof (cases u)
  case True
  then have c: "InboxStore_claim_ready_unordered cfg ex (utc t) tbl = Inr (ms, tbl')"
    using assms(3) by (simp add: inbox_mode_def)
  show ?thesis using inbox_unordered.claim_effect(2,3) [OF assms(1,2) c] by blast
next
  case False
  then have c: "InboxStore_claim_ready cfg ex (utc t) tbl = Inr (ms, tbl')"
    using assms(3) by (simp add: inbox_mode_def)
  show ?thesis using inbox_queue.claim_effect(2,3) [OF assms(1,2) c] by blast
qed

lemma inbox_claimed_stored:
  assumes ex: "db_session ex" and u: "unique_ids tbl" and claim: "inbox_mode un cfg ex (utc t) tbl = Inr (ms, tbl')"
    and m: "m \<in> set ms"
  obtains r where "row_of tbl' (rec_id m) = Some (set_claimed (t + lease_duration cfg) t r)"
    and "m = inbox_view ex InboxStatus.PROCESSING (set_claimed (t + lease_duration cfg) t r)"
proof -
  let ?ready = "if un then inbox_claimable_unordered else inbox_claimable_fifo"
  have mode: "inbox_mode un = InboxStore_claim_ready \<and> ?ready = inbox_claimable_fifo
      \<or> inbox_mode un = InboxStore_claim_ready_unordered \<and> ?ready = inbox_claimable_unordered"
    by (simp add: inbox_mode_def)
  show thesis
  proof (rule inbox_claim_Inr [OF mode ex u claim])
    fix sel rows
    assume sel: "select_skip_locked ex (?ready ex t tbl) col_received_at (inbox_batch_size cfg) tbl = Inr sel"
      and tbl': "tbl' = update_where (\<lambda>r. r \<in> set sel) (set_claimed (t + lease_duration cfg) t) tbl"
      and ms: "ms = map (inbox_view ex InboxStatus.PROCESSING) rows"
      and rows: "mset rows = mset (map (set_claimed (t + lease_duration cfg) t) sel)"
    have "set rows = set_claimed (t + lease_duration cfg) t ` set sel" using mset_eq_setD [OF rows] by simp
    then obtain r where r: "r \<in> set sel" "m = inbox_view ex InboxStatus.PROCESSING (set_claimed (t + lease_duration cfg) t r)"
      using m by (auto simp: ms)
    moreover have "r \<in> set tbl" using select_skip_locked_sound(2) [OF sel r(1)] by blast
    then have "row_of tbl' (rec_id m) = Some (set_claimed (t + lease_duration cfg) t r)"
      using u r by (auto simp: row_of_Some tbl' intro: in_update_where_changed)
    ultimately show thesis using that by blast
  qed
qed

abbreviation inbox_settled_verdict ::
  "PactixConfig \<Rightarrow> (nat \<Rightarrow> datetime) \<Rightarrow> (nat \<Rightarrow> verdict) \<Rightarrow> inbox_table \<Rightarrow> nat \<Rightarrow> InboxMessageRecord \<Rightarrow> inbox_row \<Rightarrow> bool" where
  "inbox_settled_verdict cfg clock v tbl2 k m \<equiv>
     inbox_row_settled (retry_policy cfg) (instant (clock (2 * k + 1))) (instant (clock (2 * k + 2))) (v k)
       (the (row_of tbl2 (rec_id m)))"

lemma inbox_run_once_effect:
  assumes env: "pass_env fpow cfg conn clock" and t: "clock 0 = utc t" and u: "unique_ids tbl"
    and reclaim: "InboxStore_reclaim_expired (conn 0) (utc t) tbl = Inr (n, tbl1)"
    and claim: "runner_claim runner cfg (conn 0) (utc t) tbl1 = Inr (ms, tbl2)"
    and keep: "others_keep I others" "rec_id ` set ms \<subseteq> I" and m: "m \<le> length ms"
    and ok: "\<And>k. k < m \<Longrightarrow> row_verdict runner k (ms ! k) = Inr (v k)"
    and raise: "m < length ms \<Longrightarrow> row_verdict runner m (ms ! m) = Inl e"
  shows "\<exists>res tbl'. InboxRunner_run_once fpow cfg runner conn clock others tbl = (res, tbl')
    \<and> (if m = length ms then \<exists>s. res = Inr s else res = Inl e)
    \<and> rows_settled rec_id (inbox_settled_verdict cfg clock v tbl2) 0 (take m ms) tbl'
    \<and> (\<forall>i \<in> I. i \<notin> rec_id ` set (take m ms) \<longrightarrow> row_of tbl' i = row_of tbl2 i)"
proof -
  have ex: "db_session (conn 0)" by (rule pass_envD [OF env])
  have u1: "unique_ids tbl1" using reclaim u inbox_queue.reclaim_effect(2) [OF ex] by blast
  note effect = inbox_mode_effect [OF ex u1 claim, THEN conjunct1] inbox_mode_effect [OF ex u1 claim, THEN conjunct2]
  let ?src = "\<lambda>m. the (row_of tbl2 (rec_id m))"
  let ?step = "InboxRunner_row fpow cfg runner conn clock"
  have src: "row_of tbl2 (rec_id x) = Some (?src x)" "rec_attempts x = col_attempts (?src x)"
    "rec_max_attempts x = col_max_attempts (?src x)" if "x \<in> set ms" for x
    by (rule inbox_claimed_stored [OF ex u1 claim that], simp add: inbox_view_def)+
  have settle: "settles (?step (0 + j) (ms ! j)) (rec_id (ms ! j)) (?src (ms ! j)) (inbox_settled_verdict cfg clock v tbl2 (0 + j) (ms ! j))"
    if "j < m" for j
    using inbox_row_settles [OF env ok [OF that]] src(2,3) [of "ms ! j"] m that by simp
  have bad: "?step (0 + m) (ms ! m) s tbl = Inl e" if "m < length ms" for s tbl
    using raise [OF that] by (simp add: inbox_row_raises)
  let ?s = "\<lparr>in_reclaimed = n, in_claimed = int (length ms), in_processed = 0, in_stale_skipped = 0,
    in_retry_scheduled = 0, in_failed = 0\<rparr>"
  have run: "InboxRunner_run_once fpow cfg runner conn clock others tbl = settle_loop ?step others 0 ms ?s tbl2"
    using claim by (auto simp: InboxRunner_run_once_def t reclaim inbox_mode_def split: if_splits)
  show ?thesis
    unfolding run by (rule settle_loop_effect [OF keep(1) effect(1) keep(2) effect(2) src(1) m settle bad])
qed

text \<open>Property C15: an inbox pass whose callbacks all answer counts every claimed row exactly once as
  processed, rescheduled or failed, and leaves each as its verdict asks: a row dropped as stale
  or skipped by the idempotency hook is processed without its handler; a handled row is
  processed, rescheduled within \<^verbatim>\<open>max_interval\<close> with one more attempt, or failed.\<close>

theorem inbox_run_once_settles:
  assumes "pass_env fpow cfg conn clock" and t: "clock 0 = utc t" and "unique_ids tbl"
    and reclaim: "InboxStore_reclaim_expired (conn 0) (utc t) tbl = Inr (n, tbl1)"
    and claim: "inbox_mode (ir_mode runner = UNORDERED) cfg (conn 0) (utc t) tbl1 = Inr (ms, tbl2)"
    and "others_keep (rec_id ` set ms) others"
    and "\<And>k. k < length ms \<Longrightarrow> row_verdict runner k (ms ! k) = Inr (v k)"
  shows "\<exists>s tbl'. InboxRunner_run_once fpow cfg runner conn clock others tbl = (Inr s, tbl')
    \<and> in_reclaimed s = n \<and> in_claimed s = int (length ms)
    \<and> in_processed s + in_retry_scheduled s + in_failed s = in_claimed s
    \<and> (\<forall>k < length ms. \<exists>r'. row_of tbl' (rec_id (ms ! k)) = Some r' \<and>
         inbox_row_settled (retry_policy cfg) (instant (clock (2 * k + 1))) (instant (clock (2 * k + 2))) (v k)
           (the (row_of tbl2 (rec_id (ms ! k)))) r')"
proof -
  from inbox_run_once_effect [OF assms(1-6) subset_refl order_refl assms(7)] obtain s tbl' where
    run: "InboxRunner_run_once fpow cfg runner conn clock others tbl = (Inr s, tbl')"
    and settled: "rows_settled rec_id (inbox_settled_verdict cfg clock v tbl2) 0 ms tbl'"
    by auto
  have "in_reclaimed s = n \<and> in_claimed s = int (length ms) \<and> inbox_settled_total s = in_claimed s"
    using run claim settle_loop_counts [where tally = inbox_settled_total
        and fixed = "\<lambda>s. (in_claimed s, in_reclaimed s)", OF inbox_row_accounting]
    by (fastforce simp: InboxRunner_run_once_def t reclaim inbox_mode_def inbox_settled_total_def split: if_splits)
  with run rows_settled_nth [OF settled] show ?thesis by (auto simp: inbox_settled_total_def)
qed

text \<open>A callback that raises ends the inbox pass without losing a message: every claimed
  row not yet settled is still processing under its lease and is reclaimed once that has run out.\<close>

theorem inbox_run_once_interrupted:
  assumes "pass_env fpow cfg conn clock" and t: "clock 0 = utc t" and "unique_ids tbl"
    and reclaim: "InboxStore_reclaim_expired (conn 0) (utc t) tbl = Inr (n, tbl1)"
    and claim: "inbox_mode (ir_mode runner = UNORDERED) cfg (conn 0) (utc t) tbl1 = Inr (ms, tbl2)"
    and "others_keep (rec_id ` set ms) others" and m: "m < length ms"
    and ok: "\<And>k. k < m \<Longrightarrow> row_verdict runner k (ms ! k) = Inr (v k)"
    and raise: "row_verdict runner m (ms ! m) = Inl e"
  shows "\<exists>tbl'. InboxRunner_run_once fpow cfg runner conn clock others tbl = (Inl e, tbl')
    \<and> (\<forall>k < length ms. m \<le> k \<longrightarrow> (\<exists>r. row_of tbl' (rec_id (ms ! k)) = Some r \<and> col_status r = ''processing''
         \<and> (\<forall>t'. lease_expired t' r \<longleftrightarrow> t + lease_duration cfg < t')))"
proof -
  have ex: "db_session (conn 0)" by (rule pass_envD [OF assms(1)])
  have u1: "unique_ids tbl1" using reclaim assms(3) inbox_queue.reclaim_effect(2) [OF ex] by blast
  from inbox_run_once_effect [OF assms(1-6) subset_refl less_imp_le [OF m] ok raise] m obtain tbl' where
    run: "InboxRunner_run_once fpow cfg runner conn clock others tbl = (Inl e, tbl')"
    and rest: "\<forall>i \<in> rec_id ` set ms. i \<notin> rec_id ` set (take m ms) \<longrightarrow> row_of tbl' i = row_of tbl2 i"
    by auto
  have "\<exists>r. row_of tbl' (rec_id (ms ! k)) = Some r \<and> col_status r = ''processing''
      \<and> (\<forall>t'. lease_expired t' r \<longleftrightarrow> t + lease_duration cfg < t')" if k: "k < length ms" "m \<le> k" for k
  proof -
    have "rec_id (ms ! k) \<notin> rec_id ` set (take m ms)"
      using inbox_mode_effect [OF ex u1 claim] k by (auto simp: in_set_conv_nth distinct_conv_nth)
    then have same: "row_of tbl' (rec_id (ms ! k)) = row_of tbl2 (rec_id (ms ! k))" using rest k by simp
    show ?thesis
      unfolding same by (rule inbox_claimed_stored [OF ex u1 claim nth_mem [OF k(1)]]) (simp add: lease_expired_def)
  qed
  with run show ?thesis by blast
qed

text \<open>Property C24: the handler is consulted only for rows that pass both checks: two handlers that
  agree on the rows the stale filter lets through (in unordered mode) and the idempotency hook
  asks to process give the same pass, table and summary.\<close>

theorem inbox_skipped_never_handled:
  assumes "\<And>k row. (ir_mode runner = UNORDERED \<Longrightarrow> ir_stale_event_filter runner k row = Inr FRESH) \<Longrightarrow>
      ir_idempotency_hook runner k row = Inr PROCESS \<Longrightarrow> h k row = ir_handler runner k row"
  shows "InboxRunner_run_once fpow cfg (runner\<lparr>ir_handler := h\<rparr>) conn clock others tbl
    = InboxRunner_run_once fpow cfg runner conn clock others tbl"
proof -
  have "InboxRunner_row fpow cfg (runner\<lparr>ir_handler := h\<rparr>) conn clock k row s tbl
      = InboxRunner_row fpow cfg runner conn clock k row s tbl" for k row s tbl
  proof -
    let ?stale = "if ir_mode runner = UNORDERED then ir_stale_event_filter runner k row else Inr FRESH"
    have same: "res_bind (ir_idempotency_hook runner k row) (\<lambda>idem. if idem = PROCESS then res_bind (h k row) R else C) =
        res_bind (ir_idempotency_hook runner k row) (\<lambda>idem. if idem = PROCESS then res_bind (ir_handler runner k row) R else C)"
      if "?stale = Inr d" "d \<noteq> STALE" for d and R :: "HandleOutcome \<Rightarrow> error + (InboxRunSummary \<times> inbox_table)" and C
    proof (rule res_bind_cong)
      fix idem
      assume idem: "ir_idempotency_hook runner k row = Inr idem"
      have "ir_mode runner = UNORDERED \<Longrightarrow> ir_stale_event_filter runner k row = Inr FRESH"
        using that by (cases d) simp_all
      with assms idem show "(if idem = PROCESS then res_bind (h k row) R else C) =
          (if idem = PROCESS then res_bind (ir_handler runner k row) R else C)" by auto
    qed simp
    show ?thesis
      unfolding InboxRunner_row_def Let_def InboxRunner.simps
      by (rule res_bind_cong) (use same in \<open>auto cong: if_cong\<close>)
  qed
  then have step: "InboxRunner_row fpow cfg (runner\<lparr>ir_handler := h\<rparr>) conn clock = InboxRunner_row fpow cfg runner conn clock"
    by (simp add: fun_eq_iff)
  show ?thesis unfolding InboxRunner_run_once_def step by simp
qed

section \<open>Concrete passes\<close>

definition example_runner :: "IdempotencyDecision callback \<Rightarrow> InboxRunner" where
  "example_runner hook = InboxRunner_init (\<lambda>_ _. Inr HandleOutcome_processed) hook FIFO_PER_ORDERING_KEY None"

lemma example_runner_simps [simp]:
  "ir_mode (example_runner hook) = FIFO_PER_ORDERING_KEY"
  "ir_idempotency_hook (example_runner hook) = hook"
  "ir_handler (example_runner hook) = (\<lambda>_ _. Inr HandleOutcome_processed)"
  by (simp_all add: example_runner_def InboxRunner_init_def)

abbreviation example_inbox_clock :: "nat \<Rightarrow> datetime" where
  "example_inbox_clock \<equiv> \<lambda>k. utc (50 + int k)"

lemma example_inbox_env: "pass_env example_pow default_PactixConfig (\<lambda>_. example_postgres) example_inbox_clock"
  by (simp add: pass_env_def sane_policy_def default_PactixConfig_def)

lemma example_inbox_reclaim:
  "InboxStore_reclaim_expired example_postgres (utc 50) example_inbox = Inr (0, example_inbox)"
  by (simp add: inbox_eval)

lemma example_runner_claim:
  "inbox_mode (ir_mode (example_runner hook) = UNORDERED) default_PactixConfig example_postgres (utc 50) example_inbox =
     Inr (example_inbox_records example_postgres, example_inbox_claimed)"
  by (simp add: inbox_mode_def example_inbox_claim)

lemma example_inbox_id [simp]: "rec_id (example_inbox_records ex ! 0) = 1"
  by (simp add: example_inbox_records_def example_inbox_row_def)

theorem inbox_run_once_settles_witness:
  "\<exists>s tbl' r'. InboxRunner_run_once example_pow default_PactixConfig (example_runner (\<lambda>_. ProcessAll_evaluate))
       (\<lambda>_. example_postgres) example_inbox_clock (\<lambda>_ tbl. tbl) example_inbox = (Inr s, tbl')
     \<and> in_claimed s = 1 \<and> in_processed s + in_retry_scheduled s + in_failed s = 1
     \<and> row_of tbl' 1 = Some r' \<and> col_status r' = ''processed''"
proof -
  let ?v = "\<lambda>_ :: nat. Handled HandleOutcome_processed"
  have clock0: "example_inbox_clock 0 = utc 50" by simp
  have ok: "row_verdict (example_runner (\<lambda>_. ProcessAll_evaluate)) k (example_inbox_records example_postgres ! k) = Inr (?v k)"
    for k by (simp add: row_verdict_def ProcessAll_evaluate_def)
  from inbox_run_once_settles [OF example_inbox_env clock0 example_inbox_simps(1) example_inbox_reclaim example_runner_claim
      others_keep_id ok]
  obtain s tbl' where
    run: "InboxRunner_run_once example_pow default_PactixConfig (example_runner (\<lambda>_. ProcessAll_evaluate))
       (\<lambda>_. example_postgres) example_inbox_clock (\<lambda>_ tbl. tbl) example_inbox = (Inr s, tbl')"
    and s: "in_claimed s = 1" "in_processed s + in_retry_scheduled s + in_failed s = in_claimed s"
    and settled: "\<forall>k < length (example_inbox_records example_postgres). \<exists>r'.
      row_of tbl' (rec_id (example_inbox_records example_postgres ! k)) = Some r' \<and>
      inbox_row_settled (retry_policy default_PactixConfig) (instant (example_inbox_clock (2 * k + 1)))
        (instant (example_inbox_clock (2 * k + 2))) (?v k)
        (the (row_of example_inbox_claimed (rec_id (example_inbox_records example_postgres ! k)))) r'"
    by auto
  from settled [rule_format, of 0] obtain r' where "row_of tbl' 1 = Some r'" "col_status r' = ''processed''"
    by (auto simp: inbox_row_settled_def handle_defs)
  with run s show ?thesis by auto
qed

theorem inbox_run_once_interrupted_witness:
  "\<exists>tbl' r. InboxRunner_run_once example_pow default_PactixConfig (example_runner (\<lambda>_ _. Inl (CallbackError ''cache down'')))
       (\<lambda>_. example_postgres) example_inbox_clock (\<lambda>_ tbl. tbl) example_inbox = (Inl (CallbackError ''cache down''), tbl')
     \<and> row_of tbl' 1 = Some r \<and> col_status r = ''processing'' \<and> lease_expired 30000051 r"
proof -
  let ?runner = "example_runner (\<lambda>_ _. Inl (CallbackError ''cache down''))"
  have clock0: "example_inbox_clock 0 = utc 50" by simp
  have raise: "row_verdict ?runner 0 (example_inbox_records example_postgres ! 0) = Inl (CallbackError ''cache down'')"
    by (simp add: row_verdict_def)
  have len: "0 < length (example_inbox_records example_postgres)" by simp
  have lease: "50 + lease_duration default_PactixConfig < 30000051" by (simp add: default_PactixConfig_def)
  from inbox_run_once_interrupted [where m = 0 and conn = "\<lambda>_. example_postgres" and clock = example_inbox_clock
      and others = "\<lambda>_ tbl. tbl" and runner = ?runner,
      OF example_inbox_env clock0 example_inbox_simps(1) example_inbox_reclaim example_runner_claim others_keep_id len _ raise]
    len lease
  show ?thesis by fastforce
qed

theorem inbox_skipped_never_handled_witness:
  "InboxRunner_run_once example_pow default_PactixConfig
     ((example_runner (\<lambda>_. StaticIdempotency_evaluate StaticIdempotency_skip))\<lparr>ir_handler := \<lambda>_ _. Inl (CallbackError ''boom'')\<rparr>)
     (\<lambda>_. example_postgres) example_inbox_clock (\<lambda>_ tbl. tbl) example_inbox
   = InboxRunner_run_once example_pow default_PactixConfig
     (example_runner (\<lambda>_. StaticIdempotency_evaluate StaticIdempotency_skip))
     (\<lambda>_. example_postgres) example_inbox_clock (\<lambda>_ tbl. tbl) example_inbox"
  by (rule inbox_skipped_never_handled) (simp add: StaticIdempotency_evaluate_def StaticIdempotency_skip_def)

end
