(* ===== verification/WorkerLoop.thy ===== *)
theory WorkerLoop
  imports Drain InboxRunner
begin

text \<open>
  \<^verbatim>\<open>examples/worker_loop.py\<close>: the service that owns the scheduling.  It wires a catch-all publisher and
  an inbox handler, appends one event, and polls both runners for ever; an exception of a pass is
  logged and the loop goes on.  A loop is modelled over the finite list of its iterations so far;
  what it prints is left out.
\<close>

section \<open>The callbacks and the appended event\<close>

definition worker_publish :: "OutboxMessageRecord \<Rightarrow> error + PublishOutcome" where
  "worker_publish record = Inr PublishOutcome_published"

definition worker_handle :: "InboxMessageRecord \<Rightarrow> error + HandleOutcome" where
  "worker_handle record = Inr HandleOutcome_processed"

text \<open>\<^verbatim>\<open>append_one\<close>: one transaction; the parameters are the session, the generated texts and ids and
  the two clock readings.\<close>

definition append_one ::
  "PactixConfig \<Rightarrow> executor \<Rightarrow> string \<Rightarrow> datetime \<Rightarrow> uuid \<Rightarrow> datetime \<Rightarrow> outbox_table \<Rightarrow> error + outbox_table" where
  "append_one cfg ex uuid4_text occurred new_id now tbl =
     (let metadata = with_ordering_key ''order-42'' (for_event_type uuid4_text occurred ''order.created'')
      in res_bind (MessageEnvelope_new metadata (JObj [(''order_id'', JStr ''order-42'')])) (\<lambda>envelope.
         res_bind (OutboxStore_append cfg ex new_id now envelope tbl) (\<lambda>(_, tbl'). Inr tbl')))"

section \<open>The loops\<close>

datatype loop_event = Warning error | Sleep pyfloat

fun run_loop ::
  "pyfloat \<Rightarrow> ('t \<Rightarrow> (error + 's) \<times> 't) list \<Rightarrow> 't \<Rightarrow> error option \<times> loop_event list \<times> 't" where
  "run_loop interval [] tbl = (None, [], tbl)"
| "run_loop interval (run_once # iterations) tbl =
     (case run_once tbl of
        (Inl e, tbl') \<Rightarrow>
          if e = CancelledError then (Some e, [], tbl')
          else (let (r, events, final) = run_loop interval iterations tbl'
                in (r, Warning e # Sleep interval # events, final))
      | (Inr _, tbl') \<Rightarrow>
          (let (r, events, final) = run_loop interval iterations tbl' in (r, Sleep interval # events, final)))"

definition run_wakeup_loop ::
  "WakeupPolicy \<Rightarrow> LocalWakeup \<Rightarrow> string \<Rightarrow> error + unit \<Rightarrow> error + unit
   \<Rightarrow> (wake_env \<times> (nat \<Rightarrow> 't \<Rightarrow> (error + RunSummary) \<times> 't)) list \<Rightarrow> int \<Rightarrow> 't \<Rightarrow> error option \<times> 't wake_state" where
  "run_wakeup_loop policy local_wakeup engine_dialect detach close iterations open_conns tbl =
     WakeupRunner_run policy (Some local_wakeup) engine_dialect detach close iterations open_conns tbl"

section \<open>Wiring\<close>

definition main_registry :: "FnOutboxPublisher PublisherRegistry" where
  "main_registry = PublisherRegistry_register_all (outbox_publisher worker_publish) PublisherRegistry_new"

definition main_inbox_runner :: InboxRunner where
  "main_inbox_runner = InboxRunner_init (\<lambda>_. FnInboxHandler_handle (inbox_handler worker_handle)) (\<lambda>_. ProcessAll_evaluate)
     FIFO_PER_ORDERING_KEY None"

text \<open>What one pass finds: its sessions, its clock, and the transactions committed around it.\<close>

record 't pass_input =
  pi_conn :: "nat \<Rightarrow> executor"
  pi_clock :: "nat \<Rightarrow> datetime"
  pi_others :: "nat \<Rightarrow> 't \<Rightarrow> 't"

definition main_outbox_pass ::
  "(pyfloat \<Rightarrow> int \<Rightarrow> error + pyfloat) \<Rightarrow> outbox_table pass_input \<Rightarrow> outbox_table \<Rightarrow> (error + RunSummary) \<times> outbox_table" where
  "main_outbox_pass fpow p tbl =
     OutboxRunner_run_once fpow default_PactixConfig (\<lambda>_. True) (\<lambda>_. FnOutboxPublisher_publish) main_registry
       (pi_conn p) (pi_clock p) (pi_others p) tbl"

definition main_inbox_pass ::
  "(pyfloat \<Rightarrow> int \<Rightarrow> error + pyfloat) \<Rightarrow> inbox_table pass_input \<Rightarrow> inbox_table \<Rightarrow> (error + InboxRunSummary) \<times> inbox_table" where
  "main_inbox_pass fpow p tbl =
     InboxRunner_run_once fpow default_PactixConfig main_inbox_runner (pi_conn p) (pi_clock p) (pi_others p) tbl"

text \<open>\<^verbatim>\<open>main\<close>: append, then both loops; they work on different tables, so that their interleaving does not
  matter.  An exception of the append ends the program before the loops start.\<close>

definition worker_main ::
  "(pyfloat \<Rightarrow> int \<Rightarrow> error + pyfloat) \<Rightarrow> executor \<Rightarrow> string \<Rightarrow> datetime \<Rightarrow> uuid \<Rightarrow> datetime
   \<Rightarrow> outbox_table pass_input list \<Rightarrow> inbox_table pass_input list \<Rightarrow> outbox_table \<Rightarrow> inbox_table
   \<Rightarrow> error + ((error option \<times> loop_event list \<times> outbox_table) \<times> (error option \<times> loop_event list \<times> inbox_table))" where
  "worker_main fpow ex uuid4_text occurred new_id now outbox_passes inbox_passes outbox inbox =
     res_bind (append_one default_PactixConfig ex uuid4_text occurred new_id now outbox) (\<lambda>outbox'.
       Inr (run_loop (total_seconds (outbox_poll_interval default_PactixConfig)) (map (main_outbox_pass fpow) outbox_passes) outbox',
            run_loop (total_seconds (inbox_poll_interval default_PactixConfig)) (map (main_inbox_pass fpow) inbox_passes) inbox))"

section \<open>The loop survives\<close>

text \<open>The exceptions of a sequence of passes, each on the table the pass before committed.\<close>

fun pass_errors :: "('t \<Rightarrow> (error + 's) \<times> 't) list \<Rightarrow> 't \<Rightarrow> error list" where
  "pass_errors [] tbl = []"
| "pass_errors (run_once # iterations) tbl =
     (case fst (run_once tbl) of Inl e \<Rightarrow> [e] | Inr _ \<Rightarrow> []) @ pass_errors iterations (snd (run_once tbl))"

fun warnings :: "loop_event list \<Rightarrow> error list" where
  "warnings [] = []"
| "warnings (Warning e # events) = e # warnings events"
| "warnings (Sleep _ # events) = warnings events"

text \<open>Property C31: the polling loop outlives its runner: unless it is cancelled, every iteration runs
  whatever the earlier ones raised, each on the table the one before committed, each followed by
  one sleep, and each exception is logged once, in order.\<close>

theorem run_loop_survives:
  assumes "\<And>run_once tbl e tbl'. run_once \<in> set iterations \<Longrightarrow> run_once tbl = (Inl e, tbl') \<Longrightarrow> e \<noteq> CancelledError"
  shows "\<exists>events. run_loop interval iterations tbl = (None, events, fold (\<lambda>run_once tbl. snd (run_once tbl)) iterations tbl)
    \<and> length (filter (\<lambda>v. v = Sleep interval) events) = length iterations
    \<and> warnings events = pass_errors iterations tbl"
  using assms
proof (induction iterations arbitrary: tbl)
  case (Cons run_once iterations)
  obtain r tbl1 where one: "run_once tbl = (r, tbl1)" by fastforce
  have "e \<noteq> CancelledError" if "f \<in> set iterations" "f tbl = (Inl e, tbl')" for f tbl e tbl'
    using Cons.prems [of f tbl e tbl'] that by simp
  with Cons.IH [of tbl1] obtain events where
    rest: "run_loop interval iterations tbl1 = (None, events, fold (\<lambda>run_once tbl. snd (run_once tbl)) iterations tbl1)"
      "length (filter (\<lambda>v. v = Sleep interval) events) = length iterations" "warnings events = pass_errors iterations tbl1"
    by blast
  show ?case
  proof (cases r)
    case (Inl e)
    then have "e \<noteq> CancelledError" using Cons.prems [of run_once tbl e tbl1] one by simp
    then show ?thesis using Inl one rest by (intro exI [of _ "Warning e # Sleep interval # events"]) simp
  next
    case (Inr s)
    then show ?thesis using one rest by (intro exI [of _ "Sleep interval # events"]) simp
  qed
qed simp

theorem run_loop_survives_witness:
  "\<exists>events. run_loop (Fin (1/4)) [\<lambda>n. (Inl DatabaseError, n), \<lambda>n. (Inr (), n + 1)] (0 :: int) = (None, events, 1)
     \<and> warnings events = [DatabaseError]"
proof -
  have "DatabaseError \<noteq> CancelledError" by simp
  with run_loop_survives [of "[\<lambda>n. (Inl DatabaseError, n), \<lambda>n. (Inr (), n + 1)]" "Fin (1/4)" "0 :: int"]
  show ?thesis by auto
qed

section \<open>The appended event is published\<close>

lemma main_publishes: "all_publish (\<lambda>_. True) (\<lambda>_. FnOutboxPublisher_publish) main_registry"
  by (simp add: all_publish_def main_registry_def PublisherRegistry_register_all_def PublisherRegistry_new_def
      PublisherRegistry_publish_def PublisherRegistry_resolve_def FnOutboxPublisher_publish_def outbox_publisher_def
      worker_publish_def outcome_defs)

text \<open>The passes of an undisturbed worker.\<close>

definition quiet_pass :: "(nat \<Rightarrow> nat \<Rightarrow> executor) \<Rightarrow> (nat \<Rightarrow> nat \<Rightarrow> datetime) \<Rightarrow> nat \<Rightarrow> outbox_table pass_input" where
  "quiet_pass conn clock j = \<lparr>pi_conn = conn j, pi_clock = clock j, pi_others = (\<lambda>_ tbl. tbl)\<rparr>"

lemma run_loop_publishes:
  assumes env: "drain_env fpow default_PactixConfig conn clock t"
    and "unique_ids tbl" "all_due (t j) tbl" "card (open_ids tbl) \<le> n"
  shows "\<exists>events tbl'. run_loop interval (map (main_outbox_pass fpow) (map (quiet_pass conn clock) [j..<j + n])) tbl = (None, events, tbl')
    \<and> publishing_progress tbl tbl' \<and> open_ids tbl' = {}"
  using assms(2-4)
proof (induction n arbitrary: j tbl)
  case 0
  then show ?case by (simp add: publishing_progress_refl)
next
  case (Suc n)
  have e: "pass_env fpow default_PactixConfig (conn j) (clock j)" "clock j 0 = utc (t j)" "\<not> ex_locked (conn j 0) i" for i
    using env by (auto simp: drain_env_def)
  have batch: "1 \<le> outbox_batch_size default_PactixConfig" by (simp add: default_PactixConfig_def)
  obtain s tbl1 where one: "OutboxRunner_run_once fpow default_PactixConfig (\<lambda>_. True) (\<lambda>_. FnOutboxPublisher_publish) main_registry
      (conn j) (clock j) (\<lambda>_ tbl. tbl) tbl = (Inr s, tbl1)"
    and u1: "unique_ids tbl1" and due1: "all_due (t j) tbl1"
    and less: "open_ids tbl \<noteq> {} \<Longrightarrow> card (open_ids tbl1) < card (open_ids tbl)" and step: "publishing_progress tbl tbl1"
    by (rule publishing_pass [OF e Suc.prems(1,2) main_publishes batch]) blast
  have "mono t" using env by (simp add: drain_env_def)
  then have due: "all_due (t (Suc j)) tbl1" using all_due_later [OF due1] by (simp add: monoD)
  have "card (open_ids tbl1) \<le> n"
    using less step Suc.prems(3) by (cases "open_ids tbl = {}") (auto simp: publishing_progress_def)
  from Suc.IH [OF u1 due this] obtain events tbl' where
    loop: "run_loop interval (map (main_outbox_pass fpow) (map (quiet_pass conn clock) [Suc j..<Suc j + n])) tbl1 = (None, events, tbl')"
    and p: "publishing_progress tbl1 tbl'" "open_ids tbl' = {}" by auto
  have "[j..<j + Suc n] = j # [Suc j..<Suc j + n]" by (simp add: upt_conv_Cons)
  moreover have "main_outbox_pass fpow (quiet_pass conn clock j) tbl = (Inr s, tbl1)"
    using one by (simp add: main_outbox_pass_def quiet_pass_def)
  ultimately have "run_loop interval (map (main_outbox_pass fpow) (map (quiet_pass conn clock) [j..<j + Suc n])) tbl
      = (None, Sleep interval # events, tbl')" using loop by simp
  with p publishing_progress_trans [OF step] show ?case by blast
qed

definition order_event :: "string \<Rightarrow> datetime \<Rightarrow> MessageEnvelope" where
  "order_event uuid4_text occurred = \<lparr>
     env_metadata = with_ordering_key ''order-42'' (for_event_type uuid4_text occurred ''order.created''),
     env_payload = JObj [(''order_id'', JStr ''order-42'')]\<rparr>"

lemma append_one_appends:
  assumes "db_session ex" "\<not> blank uuid4_text"
    and fits: "outbox_fits ex (pending_outbox_row cfg i t (order_event uuid4_text occurred))"
    and fresh: "\<And>r. r \<in> set tbl \<Longrightarrow> col_id r \<noteq> i \<and> \<not> text_eq ex uuid4_text (col_message_id r)"
  shows "append_one cfg ex uuid4_text occurred i (utc t) tbl =
    Inr (tbl @ [pending_outbox_row cfg i t (order_event uuid4_text occurred)])"
proof -
  let ?env = "order_event uuid4_text occurred"
  have valid: "valid_metadata (env_metadata ?env)"
    using assms(2) by (simp add: valid_metadata_def order_event_def for_event_type_def builder_defs blank_iff is_space_def code_point_def)
  have "md_message_id (env_metadata ?env) = uuid4_text" by (simp add: order_event_def for_event_type_def builder_defs)
  then have ins: "outbox_insert ex (pending_outbox_row cfg i t ?env) tbl = Inr (tbl @ [pending_outbox_row cfg i t ?env])"
    using fits fresh by (simp add: pending_insert_Inr)
  have "\<exists>rec. OutboxStore_append cfg ex i (utc t) ?env tbl = Inr (rec, tbl @ [pending_outbox_row cfg i t ?env])"
    by (rule append_cases [OF session_driver(1) [OF assms(1)] valid, of i t cfg tbl]) (simp add: ins)
  moreover have "MessageEnvelope_new (env_metadata ?env) (env_payload ?env) = Inr ?env"
    using valid by (simp add: MessageEnvelope_new_Inr_iff)
  moreover have "env_metadata ?env = with_ordering_key ''order-42'' (for_event_type uuid4_text occurred ''order.created'')"
    "env_payload ?env = JObj [(''order_id'', JStr ''order-42'')]" by (simp_all add: order_event_def)
  ultimately show ?thesis unfolding append_one_def Let_def by fastforce
qed

lemma open_ids_append:
  assumes "unique_ids (tbl @ [r])" "unfinished r"
  shows "open_ids (tbl @ [r]) = insert (col_id r) (open_ids tbl)"
  using assms by (auto simp: open_ids_def row_of_Some unique_ids_def)

text \<open>Property C30: the service delivers what it appends.  On an outbox whose unfinished rows are due
  and that it works on alone, the program appends its event and, after more polling passes than
  rows were unfinished, the event and all of these rows are published and the loop still runs.\<close>

theorem worker_main_publishes:
  assumes ex: "db_session ex" "\<not> blank uuid4_text"
    and fits: "outbox_fits ex (pending_outbox_row default_PactixConfig i t (order_event uuid4_text occurred))"
    and fresh: "\<And>r. r \<in> set outbox \<Longrightarrow> col_id r \<noteq> i \<and> \<not> text_eq ex uuid4_text (col_message_id r)"
    and env: "drain_env fpow default_PactixConfig conn clock ts" and t: "t \<le> ts 0"
    and u: "unique_ids outbox" and due: "all_due (ts 0) outbox" and n: "card (open_ids outbox) < n"
  shows "\<exists>events outbox' inbox_loop.
      worker_main fpow ex uuid4_text occurred i (utc t) (map (quiet_pass conn clock) [0..<n]) inbox_passes outbox inbox =
        Inr ((None, events, outbox'), inbox_loop)
    \<and> (\<forall>j \<in> insert i (open_ids outbox). \<exists>r. row_of outbox' j = Some r \<and> col_status r = ''published'')"
proof -
  let ?row = "pending_outbox_row default_PactixConfig i t (order_event uuid4_text occurred)"
  have row: "col_id ?row = i" "unfinished ?row" "col_status ?row = ''pending''" "col_available_at ?row = t"
    by (simp_all add: pending_outbox_row_def unfinished_def)
  have u': "unique_ids (outbox @ [?row])" using u fresh row(1) by (auto simp: unique_ids_def)
  have op: "open_ids (outbox @ [?row]) = insert i (open_ids outbox)" using open_ids_append [OF u' row(2)] row(1) by simp
  have "all_due (ts 0) (outbox @ [?row])" using due t row(3,4) by (simp add: all_due_def)
  moreover have "card (open_ids (outbox @ [?row])) \<le> n" unfolding op using n card_insert_le_m1 [of n "open_ids outbox" i] by simp
  ultimately have "\<exists>events outbox'. run_loop (total_seconds (outbox_poll_interval default_PactixConfig))
      (map (main_outbox_pass fpow) (map (quiet_pass conn clock) [0..<0 + n])) (outbox @ [?row]) = (None, events, outbox')
      \<and> publishing_progress (outbox @ [?row]) outbox' \<and> open_ids outbox' = {}"
    by (rule run_loop_publishes [OF env u'])
  then obtain events outbox' where
    loop: "run_loop (total_seconds (outbox_poll_interval default_PactixConfig))
      (map (main_outbox_pass fpow) (map (quiet_pass conn clock) [0..<n])) (outbox @ [?row]) = (None, events, outbox')"
    and p: "publishing_progress (outbox @ [?row]) outbox'" "open_ids outbox' = {}"
    by auto
  have "\<forall>j \<in> insert i (open_ids outbox). \<exists>r. row_of outbox' j = Some r \<and> col_status r = ''published''"
    using p unfolding publishing_progress_def op by simp
  moreover have "append_one default_PactixConfig ex uuid4_text occurred i (utc t) outbox = Inr (outbox @ [?row])"
    by (rule append_one_appends [OF ex fits]) (rule fresh)
  ultimately show ?thesis unfolding worker_main_def by (simp only: res_bind_Inr loop) blast
qed

theorem worker_main_publishes_witness:
  "\<exists>events outbox' inbox_loop r.
      worker_main example_pow example_postgres ''u-1'' (utc 5) 9 (utc 5)
        (map (quiet_pass (\<lambda>_ _. example_postgres) (\<lambda>j k. utc (50 + int j))) [0..<1]) [] [] [] = Inr ((None, events, outbox'), inbox_loop)
    \<and> row_of outbox' 9 = Some r \<and> col_status r = ''published''"
proof -
  have "\<not> blank ''u-1''" by (simp add: blank_iff is_space_def code_point_def)
  moreover have "outbox_fits example_postgres (pending_outbox_row default_PactixConfig 9 5 (order_event ''u-1'' (utc 5)))"
    by (simp add: outbox_fits_def pending_outbox_row_def order_event_def for_event_type_def builder_defs)
  moreover have "card (open_ids []) < 1" by (simp add: open_ids_def row_of_def)
  ultimately show ?thesis
    using worker_main_publishes [OF _ _ _ _ example_drain_env, of example_postgres "''u-1''" 9 5 "utc 5" "[]" 1 "[]" "[]"]
    by (auto simp: all_due_def unique_ids_def)
qed

end
