(* ===== verification/Settling.thy ===== *)
theory Settling
  imports WorkerLoop
begin

text \<open>
  Every message settles.  Under passes that are far enough apart for the longest backoff, whatever the
  publishers answer, each unfinished row is used up by its attempts: in the end it is published
  or failed, and no row waits forever.
\<close>

section \<open>What is left to do\<close>












section \<open>One pass\<close>



section \<open>A polling loop settles everything\<close>


section \<open>The outbox runner\<close>







section \<open>A message that is never accepted\<close>




end
