(* ===== verification/InboxSettling.thy ===== *)
theory InboxSettling
  imports Settling
begin

text \<open>
  The inbox runner settles every message, ordered and unordered: the second interpretation of
  \<open>settling_runner\<close>.
\<close>

section \<open>The passes of an inbox runner\<close>










section \<open>A handler that never succeeds\<close>




end
