(* ===== verification/HttpTransport.thy ===== *)
theory HttpTransport
  imports Publisher InboxCorrect
begin

text \<open>
  \<^verbatim>\<open>transport/http/headers.py\<close>, \<^verbatim>\<open>transport/http/publisher.py\<close> and
  \<^verbatim>\<open>transport/http/inbox.py\<close>.  The HTTP client and the web framework are parameters:
  \<open>send\<close> is what the client answers to a request, and the endpoint's arguments are what
  the framework's request object gives: \<open>request_json\<close> for \<^verbatim>\<open>await request.json()\<close> and
  \<open>headers\<close> for \<^verbatim>\<open>dict(request.headers)\<close>.
\<close>

definition EVENT_TYPE_HEADER :: string where "EVENT_TYPE_HEADER = ''x-pactix-event-type''"
definition MESSAGE_ID_HEADER :: string where "MESSAGE_ID_HEADER = ''x-pactix-message-id''"
definition MESSAGE_KEY_HEADER :: string where "MESSAGE_KEY_HEADER = ''x-pactix-message-key''"
definition ORDERING_KEY_HEADER :: string where "ORDERING_KEY_HEADER = ''x-pactix-ordering-key''"
definition CORRELATION_ID_HEADER :: string where "CORRELATION_ID_HEADER = ''x-pactix-correlation-id''"

lemmas header_names =
  EVENT_TYPE_HEADER_def MESSAGE_ID_HEADER_def MESSAGE_KEY_HEADER_def ORDERING_KEY_HEADER_def CORRELATION_ID_HEADER_def

section \<open>The outbox publisher\<close>

record HttpEndpoint =
  ep_method :: string
  ep_url :: string
  ep_headers :: pydict

definition HttpEndpoint_with_header :: "string \<Rightarrow> string \<Rightarrow> HttpEndpoint \<Rightarrow> HttpEndpoint" where
  "HttpEndpoint_with_header name v ep = ep\<lparr>ep_headers := AList.update name v (ep_headers ep)\<rparr>"

record HttpOutboundRequest =
  hr_method :: string
  hr_url :: string
  hr_payload :: json
  hr_headers :: pydict

record HttpResponse =
  resp_status :: int
  resp_body :: "string option"

type_synonym HttpEndpointRouter = "(string \<times> HttpEndpoint) list"

definition HttpEndpointRouter_new :: HttpEndpointRouter where
  "HttpEndpointRouter_new = []"

definition HttpEndpointRouter_register :: "string \<Rightarrow> HttpEndpoint \<Rightarrow> HttpEndpointRouter \<Rightarrow> HttpEndpointRouter" where
  "HttpEndpointRouter_register event_type endpoint r = AList.update event_type endpoint r"

definition HttpEndpointRouter_resolve :: "HttpEndpointRouter \<Rightarrow> string \<Rightarrow> error + HttpEndpoint" where
  "HttpEndpointRouter_resolve r event_type = dict_resolve ''HTTP endpoint'' r event_type"

interpretation http_router: router "\<lambda>_. True" HttpEndpointRouter_register HttpEndpointRouter_resolve
  by unfold_locales
    (auto simp: HttpEndpointRouter_register_def HttpEndpointRouter_resolve_def dict_resolve_update dict_resolve_error)

definition HttpOutboxPublisher_build_request ::
  "HttpEndpointRouter \<Rightarrow> OutboxMessageRecord \<Rightarrow> error + HttpOutboundRequest" where
  "HttpOutboxPublisher_build_request endpoints record =
     res_bind (HttpEndpointRouter_resolve endpoints (rec_event_type record)) (\<lambda>endpoint.
       let headers = ep_headers endpoint;
           headers = dict_update headers (rec_headers record);
           headers = AList.update ''content-type'' ''application/json'' headers;
           headers = AList.update MESSAGE_ID_HEADER (rec_message_id record) headers;
           headers = AList.update EVENT_TYPE_HEADER (rec_event_type record) headers;
           headers = set_present MESSAGE_KEY_HEADER (rec_message_key record) headers;
           headers = set_present ORDERING_KEY_HEADER (rec_ordering_key record) headers;
           headers = set_present CORRELATION_ID_HEADER (rec_correlation_id record) headers
       in Inr \<lparr>hr_method = ep_method endpoint, hr_url = ep_url endpoint,
               hr_payload = rec_payload record, hr_headers = headers\<rparr>)"

definition HttpOutboxPublisher_classify_response :: "HttpResponse \<Rightarrow> PublishOutcome" where
  "HttpOutboxPublisher_classify_response response =
     (if 200 \<le> resp_status response \<and> resp_status response < 300 then PublishOutcome_published
      else
        let body = strip (case resp_body response of None \<Rightarrow> '''' | Some b \<Rightarrow> b);
            suffix = (if body = '''' then '''' else '': '' @ body);
            message = ''HTTP transport returned '' @ str_int (resp_status response) @ suffix
        in if resp_status response \<in> {408, 429} \<or> 500 \<le> resp_status response
           then PublishOutcome_retryable message
           else PublishOutcome_terminal message)"

definition HttpOutboxPublisher_publish ::
  "(error \<Rightarrow> string) \<Rightarrow> (HttpOutboundRequest \<Rightarrow> error + HttpResponse) \<Rightarrow> HttpEndpointRouter
   \<Rightarrow> OutboxMessageRecord \<Rightarrow> error + PublishOutcome" where
  "HttpOutboxPublisher_publish show_error send endpoints record =
     res_bind (HttpOutboxPublisher_build_request endpoints record) (\<lambda>request.
       case send request of
         Inl e \<Rightarrow> if e = CancelledError then Inl e else Inr (PublishOutcome_retryable (show_error e))
       | Inr response \<Rightarrow> Inr (HttpOutboxPublisher_classify_response response))"

text \<open>\<^verbatim>\<open>HttpxRequestClient.send\<close>: \<open>request\<close> is the \<^verbatim>\<open>httpx\<close> client's method, answering status and text.\<close>

definition HttpxRequestClient_send ::
  "(string \<Rightarrow> string \<Rightarrow> json \<Rightarrow> pydict \<Rightarrow> error + (int \<times> string)) \<Rightarrow> HttpOutboundRequest \<Rightarrow> error + HttpResponse" where
  "HttpxRequestClient_send request r =
     res_bind (request (hr_method r) (hr_url r) (hr_payload r) (hr_headers r)) (\<lambda>(status_code, body).
       Inr \<lparr>resp_status = status_code, resp_body = Some body\<rparr>)"

section \<open>The inbox endpoint\<close>

record HttpInboundMessage =
  hi_message_id :: string
  hi_event_type :: string
  hi_message_key :: "string option"
  hi_ordering_key :: "string option"
  hi_correlation_id :: "string option"
  hi_headers :: pydict
  hi_payload :: json

text \<open>The comprehension \<^verbatim>\<open>{key.lower(): value ...}\<close>: a later header replaces an earlier one.\<close>

definition normalized_headers :: "pydict \<Rightarrow> pydict" where
  "normalized_headers headers = dict_update [] (map (\<lambda>(k, v). (lower k, v)) headers)"

definition HttpInboundMessage_from_headers :: "pydict \<Rightarrow> json \<Rightarrow> error + HttpInboundMessage" where
  "HttpInboundMessage_from_headers headers payload =
     (let normalized = normalized_headers headers
      in case map_of normalized MESSAGE_ID_HEADER of
           None \<Rightarrow> Inl (ValidationError (MESSAGE_ID_HEADER @ '' header is required''))
         | Some message_id \<Rightarrow>
             (case map_of normalized EVENT_TYPE_HEADER of
                None \<Rightarrow> Inl (ValidationError (EVENT_TYPE_HEADER @ '' header is required''))
              | Some event_type \<Rightarrow> Inr \<lparr>
                  hi_message_id = message_id,
                  hi_event_type = event_type,
                  hi_message_key = map_of normalized MESSAGE_KEY_HEADER,
                  hi_ordering_key = map_of normalized ORDERING_KEY_HEADER,
                  hi_correlation_id = map_of normalized CORRELATION_ID_HEADER,
                  hi_headers = normalized,
                  hi_payload = payload\<rparr>))"

definition HttpInboundMessage_to_envelope :: "datetime \<Rightarrow> HttpInboundMessage \<Rightarrow> error + MessageEnvelope" where
  "HttpInboundMessage_to_envelope now m =
     (let md = MessageMetadata_new (hi_message_id m) (hi_event_type m) now;
          md = (case hi_message_key m of None \<Rightarrow> md | Some k \<Rightarrow> with_message_key k md);
          md = (case hi_ordering_key m of None \<Rightarrow> md | Some k \<Rightarrow> with_ordering_key k md);
          md = (case hi_correlation_id m of None \<Rightarrow> md | Some v \<Rightarrow> with_correlation_id v md);
          md = with_headers (hi_headers m) md
      in MessageEnvelope_new md (hi_payload m))"

definition HttpInboxEndpoint_normalize_message :: "datetime \<Rightarrow> HttpInboundMessage \<Rightarrow> error + MessageEnvelope" where
  "HttpInboxEndpoint_normalize_message now m = HttpInboundMessage_to_envelope now m"

definition HttpInboxEndpoint_save_message ::
  "PactixConfig \<Rightarrow> executor \<Rightarrow> uuid \<Rightarrow> datetime \<Rightarrow> string \<Rightarrow> HttpInboundMessage \<Rightarrow> inbox_table
   \<Rightarrow> (error + ReceiveOutcome) \<times> inbox_table" where
  "HttpInboxEndpoint_save_message cfg ex new_id now source m tbl =
     (case HttpInboxEndpoint_normalize_message now m of
        Inl e \<Rightarrow> (Inl e, tbl)
      | Inr envelope \<Rightarrow> in_transaction (InboxStore_save_received cfg ex new_id now source envelope) tbl)"

definition HttpInboxEndpoint_save ::
  "PactixConfig \<Rightarrow> executor \<Rightarrow> uuid \<Rightarrow> datetime \<Rightarrow> string \<Rightarrow> pydict \<Rightarrow> json \<Rightarrow> inbox_table
   \<Rightarrow> (error + ReceiveOutcome) \<times> inbox_table" where
  "HttpInboxEndpoint_save cfg ex new_id now source headers payload tbl =
     (case HttpInboundMessage_from_headers headers payload of
        Inl e \<Rightarrow> (Inl e, tbl)
      | Inr m \<Rightarrow> HttpInboxEndpoint_save_message cfg ex new_id now source m tbl)"

text \<open>
  The handler \<^verbatim>\<open>make_inbox_endpoint\<close> returns: its answer, or the exception it lets through to the
  framework, with the table \<^verbatim>\<open>endpoint.save\<close> leaves.
\<close>

definition make_inbox_endpoint ::
  "PactixConfig \<Rightarrow> executor \<Rightarrow> uuid \<Rightarrow> datetime \<Rightarrow> string \<Rightarrow> error + json \<Rightarrow> pydict \<Rightarrow> inbox_table
   \<Rightarrow> (error + HttpResponse) \<times> inbox_table" where
  "make_inbox_endpoint cfg ex new_id now source request_json headers tbl =
     (case request_json of
        Inl e \<Rightarrow> (Inl e, tbl)
      | Inr payload \<Rightarrow>
          (case HttpInboxEndpoint_save cfg ex new_id now source headers payload tbl of
             (Inl (ValidationError s), tbl') \<Rightarrow> (Inr \<lparr>resp_status = 400, resp_body = Some s\<rparr>, tbl')
           | (Inl e, tbl') \<Rightarrow>
               (case PactixError e of
                  Some s \<Rightarrow> (Inr \<lparr>resp_status = 500, resp_body = Some s\<rparr>, tbl')
                | None \<Rightarrow> (Inl e, tbl'))
           | (Inr outcome, tbl') \<Rightarrow> (Inr \<lparr>resp_status = 202, resp_body = None\<rparr>, tbl')))"

record http_route =
  route_path :: string
  route_methods :: "string list"

text \<open>The route answers \<^verbatim>\<open>POST\<close> on its path with the handler.\<close>

definition inbox_route :: "string \<Rightarrow> http_route" where
  "inbox_route path = \<lparr>route_path = path, route_methods = [''POST'']\<rparr>"

section \<open>Classification of responses\<close>

text \<open>Every response is classified, and by its status alone: published exactly for
  2xx, retryable exactly for 408, 429 and everything from 500 up, terminal otherwise; a failure
  carries a message that starts with the status.\<close>

theorem http_classification:
  "let out = HttpOutboxPublisher_classify_response response; s = resp_status response
   in (PublishOutcome_is_published out \<longleftrightarrow> 200 \<le> s \<and> s \<le> 299)
    \<and> (PublishOutcome_is_retryable out \<longleftrightarrow> s = 408 \<or> s = 429 \<or> 500 \<le> s)
    \<and> (PublishOutcome_is_terminal out \<longleftrightarrow> \<not> PublishOutcome_is_published out \<and> \<not> PublishOutcome_is_retryable out)
    \<and> (PublishOutcome_is_published out \<or>
        (\<exists>rest. po_message out = Some (''HTTP transport returned '' @ str_int s @ rest)))"
  by (auto simp: HttpOutboxPublisher_classify_response_def outcome_tests outcome_defs Let_def)

section \<open>Metadata survives the trip\<close>

definition pactix_headers :: "string set" where
  "pactix_headers =
     {MESSAGE_ID_HEADER, EVENT_TYPE_HEADER, MESSAGE_KEY_HEADER, ORDERING_KEY_HEADER, CORRELATION_ID_HEADER}"

lemma lower_header_names:
  "k \<in> pactix_headers \<Longrightarrow> lower k = k" "lower ''content-type'' = ''content-type''"
  by (auto simp: pactix_headers_def header_names lower_def lower_char_def code_point_def)

lemma map_of_lowered:
  "\<forall>k \<in> fst ` set xs. lower k = k0 \<longleftrightarrow> k = k0 \<Longrightarrow> map_of (map (\<lambda>(k, v). (lower k, v)) xs) k0 = map_of xs k0"
  by (induction xs) auto

lemma map_of_normalized:
  assumes "wf_dict d" and "lower k0 = k0" and "\<And>k. k \<in> fst ` set d \<Longrightarrow> lower k = k0 \<Longrightarrow> k = k0"
  shows "map_of (normalized_headers d) k0 = map_of d k0"
proof -
  have "map_of (rev (map (\<lambda>(k, v). (lower k, v)) d)) k0 = map_of (rev d) k0"
    unfolding rev_map using assms(2,3) by (intro map_of_lowered) force
  then show ?thesis
    by (simp add: normalized_headers_def map_of_dict_update map_of_rev_wf [OF assms(1)] split: option.split)
qed

lemma keys_set_present: "fst ` set (set_present name v d) \<subseteq> insert name (fst ` set d)"
  by (auto simp: set_present_def dom_update split: option.split)

lemma keys_dict_update: "fst ` set (dict_update d xs) = fst ` set d \<union> fst ` set xs"
proof (induction xs arbitrary: d)
  case Nil
  then show ?case by simp
next
  case (Cons x xs)
  then show ?case by (cases x) (simp add: dom_update)
qed

text \<open>The headers of the request, and the custom ones a route and a record bring along.\<close>

definition http_headers :: "HttpEndpoint \<Rightarrow> OutboxMessageRecord \<Rightarrow> pydict" where
  "http_headers endpoint record =
     set_present CORRELATION_ID_HEADER (rec_correlation_id record)
       (set_present ORDERING_KEY_HEADER (rec_ordering_key record)
         (set_present MESSAGE_KEY_HEADER (rec_message_key record)
           (AList.update EVENT_TYPE_HEADER (rec_event_type record)
             (AList.update MESSAGE_ID_HEADER (rec_message_id record)
               (AList.update ''content-type'' ''application/json''
                 (dict_update (ep_headers endpoint) (rec_headers record)))))))"

definition custom_headers_ok :: "pydict \<Rightarrow> bool" where
  "custom_headers_ok d \<longleftrightarrow> wf_dict d \<and> (\<forall>k \<in> fst ` set d. lower k \<notin> pactix_headers)"

lemma http_header_keys:
  "fst ` set (http_headers endpoint record) \<subseteq>
     insert ''content-type'' pactix_headers \<union> fst ` set (ep_headers endpoint) \<union> fst ` set (rec_headers record)"
  unfolding http_headers_def pactix_headers_def
  by (rule order_trans [OF keys_set_present], rule insert_subsetI, simp,
      rule order_trans [OF keys_set_present], rule insert_subsetI, simp,
      rule order_trans [OF keys_set_present], auto simp: dom_update keys_dict_update)

lemma custom_absent: "custom_headers_ok d \<Longrightarrow> k \<in> pactix_headers \<Longrightarrow> map_of d k = None"
  by (auto simp: custom_headers_ok_def map_of_eq_None_iff dest!: bspec simp: lower_header_names)

lemma http_headers_read:
  assumes "custom_headers_ok (ep_headers endpoint)" "custom_headers_ok (rec_headers record)"
  shows "map_of (normalized_headers (http_headers endpoint record)) MESSAGE_ID_HEADER = Some (rec_message_id record)"
    and "map_of (normalized_headers (http_headers endpoint record)) EVENT_TYPE_HEADER = Some (rec_event_type record)"
    and "map_of (normalized_headers (http_headers endpoint record)) MESSAGE_KEY_HEADER = rec_message_key record"
    and "map_of (normalized_headers (http_headers endpoint record)) ORDERING_KEY_HEADER = rec_ordering_key record"
    and "map_of (normalized_headers (http_headers endpoint record)) CORRELATION_ID_HEADER = rec_correlation_id record"
proof -
  have wf: "wf_dict (http_headers endpoint record)"
    using assms by (simp add: http_headers_def custom_headers_ok_def)
  have norm: "map_of (normalized_headers (http_headers endpoint record)) k = map_of (http_headers endpoint record) k"
    if k: "k \<in> pactix_headers" for k
  proof (rule map_of_normalized [OF wf])
    show "lower k = k" using k by (rule lower_header_names)
    show "k' = k" if k': "k' \<in> fst ` set (http_headers endpoint record)" "lower k' = k" for k'
    proof -
      have "k' \<in> insert ''content-type'' pactix_headers"
        using http_header_keys [of endpoint "record"] k' assms k by (force simp: custom_headers_ok_def)
      then show ?thesis using k' lower_header_names by auto
    qed
  qed
  have base: "map_of (dict_update (ep_headers endpoint) (rec_headers record)) k = None" if "k \<in> pactix_headers" for k
    using custom_absent [OF assms(1) that] custom_absent [OF assms(2) that] assms(2)
    by (simp add: map_of_dict_update map_of_rev_wf custom_headers_ok_def)
  have in_headers: "MESSAGE_ID_HEADER \<in> pactix_headers" "EVENT_TYPE_HEADER \<in> pactix_headers"
    "MESSAGE_KEY_HEADER \<in> pactix_headers" "ORDERING_KEY_HEADER \<in> pactix_headers" "CORRELATION_ID_HEADER \<in> pactix_headers"
    by (simp_all add: pactix_headers_def)
  show "map_of (normalized_headers (http_headers endpoint record)) MESSAGE_ID_HEADER = Some (rec_message_id record)"
    and "map_of (normalized_headers (http_headers endpoint record)) EVENT_TYPE_HEADER = Some (rec_event_type record)"
    and "map_of (normalized_headers (http_headers endpoint record)) MESSAGE_KEY_HEADER = rec_message_key record"
    and "map_of (normalized_headers (http_headers endpoint record)) ORDERING_KEY_HEADER = rec_ordering_key record"
    and "map_of (normalized_headers (http_headers endpoint record)) CORRELATION_ID_HEADER = rec_correlation_id record"
    unfolding norm [OF in_headers(1)] norm [OF in_headers(2)] norm [OF in_headers(3)] norm [OF in_headers(4)]
      norm [OF in_headers(5)]
    using base [OF in_headers(1)] base [OF in_headers(2)] base [OF in_headers(3)] base [OF in_headers(4)]
      base [OF in_headers(5)]
    by (auto simp: http_headers_def map_of_set_present update_conv' header_names)
qed

text \<open>What the endpoint reads from the headers of a request for \<open>record\<close>.\<close>

lemma from_headers_eq:
  assumes "custom_headers_ok (ep_headers endpoint)" "custom_headers_ok (rec_headers record)"
    and "\<And>k. k \<in> pactix_headers \<Longrightarrow>
      map_of (normalized_headers arrived) k = map_of (normalized_headers (http_headers endpoint record)) k"
  shows "HttpInboundMessage_from_headers arrived payload = Inr \<lparr>
    hi_message_id = rec_message_id record, hi_event_type = rec_event_type record,
    hi_message_key = rec_message_key record, hi_ordering_key = rec_ordering_key record,
    hi_correlation_id = rec_correlation_id record, hi_headers = normalized_headers arrived, hi_payload = payload\<rparr>"
  using assms(3) by (simp add: HttpInboundMessage_from_headers_def http_headers_read [OF assms(1,2)] pactix_headers_def)

lemma http_to_envelope_eq:
  assumes "valid_record record"
  shows "HttpInboundMessage_to_envelope now \<lparr>
    hi_message_id = rec_message_id record, hi_event_type = rec_event_type record,
    hi_message_key = rec_message_key record, hi_ordering_key = rec_ordering_key record,
    hi_correlation_id = rec_correlation_id record, hi_headers = h, hi_payload = p\<rparr> =
    Inr \<lparr>env_metadata = \<lparr>md_message_id = rec_message_id record, md_event_type = rec_event_type record,
      md_message_key = rec_message_key record, md_ordering_key = rec_ordering_key record,
      md_correlation_id = rec_correlation_id record, md_headers = h, md_occurred_at = now\<rparr>, env_payload = p\<rparr>"
  using assms
  by (auto simp: HttpInboundMessage_to_envelope_def Let_def builder_defs MessageEnvelope_new_Inr_iff valid_metadata_def
      valid_record_def split: option.split)

text \<open>
  What the handler relies on between client and framework, for one request: the body parses to the payload
  that was sent, and the library's five headers arrive with the values they had (header names are
  compared without case; other headers may be added or dropped on the way).
\<close>

definition http_delivers :: "(HttpOutboundRequest \<Rightarrow> pydict \<times> (error + json)) \<Rightarrow> HttpOutboundRequest \<Rightarrow> bool" where
  "http_delivers arrive request \<longleftrightarrow> snd (arrive request) = Inr (hr_payload request) \<and>
     (\<forall>k \<in> pactix_headers. map_of (normalized_headers (fst (arrive request))) k =
        map_of (normalized_headers (hr_headers request)) k)"

definition http_request :: "HttpEndpoint \<Rightarrow> OutboxMessageRecord \<Rightarrow> HttpOutboundRequest" where
  "http_request endpoint record = \<lparr>hr_method = ep_method endpoint, hr_url = ep_url endpoint,
     hr_payload = rec_payload record, hr_headers = http_headers endpoint record\<rparr>"

lemma build_request_eq:
  "HttpEndpointRouter_resolve endpoints (rec_event_type record) = Inr endpoint \<Longrightarrow>
     HttpOutboxPublisher_build_request endpoints record = Inr (http_request endpoint record)"
  by (simp add: HttpOutboxPublisher_build_request_def http_request_def http_headers_def Let_def)

text \<open>The envelope the endpoint makes of a request that was delivered.\<close>

definition http_envelope :: "datetime \<Rightarrow> pydict \<Rightarrow> OutboxMessageRecord \<Rightarrow> MessageEnvelope" where
  "http_envelope now arrived record = \<lparr>env_metadata = \<lparr>
     md_message_id = rec_message_id record, md_event_type = rec_event_type record,
     md_message_key = rec_message_key record, md_ordering_key = rec_ordering_key record,
     md_correlation_id = rec_correlation_id record, md_headers = normalized_headers arrived, md_occurred_at = now\<rparr>,
     env_payload = rec_payload record\<rparr>"

lemma http_inbound_envelope:
  assumes "custom_headers_ok (ep_headers endpoint)" "custom_headers_ok (rec_headers record)" "valid_record record"
    and "http_delivers arrive (http_request endpoint record)"
  shows "res_bind (HttpInboundMessage_from_headers (fst (arrive (http_request endpoint record))) (rec_payload record))
      (HttpInboundMessage_to_envelope now)
    = Inr (http_envelope now (fst (arrive (http_request endpoint record))) record)"
  using assms(4) from_headers_eq [OF assms(1,2), of "fst (arrive (http_request endpoint record))"]
  by (simp add: http_delivers_def http_request_def http_to_envelope_eq [OF assms(3)] http_envelope_def)

text \<open>Property C26: what is written to the outbox is what the inbox receives over HTTP.  For a valid
  record and a route whose custom headers do not use the library's names, the request built from
  the record, once delivered, is read back as an envelope with the same message id, event type,
  keys, correlation id and payload.\<close>

theorem http_round_trip:
  assumes "HttpEndpointRouter_resolve endpoints (rec_event_type record) = Inr endpoint"
    and "custom_headers_ok (ep_headers endpoint)" "custom_headers_ok (rec_headers record)" "valid_record record"
    and "http_delivers arrive (http_request endpoint record)"
  shows "\<exists>request env. HttpOutboxPublisher_build_request endpoints record = Inr request
    \<and> res_bind (HttpInboundMessage_from_headers (fst (arrive request)) (hr_payload request))
        (HttpInboundMessage_to_envelope now) = Inr env
    \<and> md_message_id (env_metadata env) = rec_message_id record
    \<and> md_event_type (env_metadata env) = rec_event_type record
    \<and> md_message_key (env_metadata env) = rec_message_key record
    \<and> md_ordering_key (env_metadata env) = rec_ordering_key record
    \<and> md_correlation_id (env_metadata env) = rec_correlation_id record
    \<and> env_payload env = rec_payload record"
proof -
  have "hr_payload (http_request endpoint record) = rec_payload record" by (simp add: http_request_def)
  then show ?thesis
    using build_request_eq [OF assms(1)] http_inbound_envelope [OF assms(2-5), of now]
    by (auto simp: http_envelope_def simp del: res_bind_eq_Inr)
qed

section \<open>What the endpoint answers\<close>

text \<open>The message a request stands for, by its headers in lower case.\<close>

definition http_received :: "datetime \<Rightarrow> string \<Rightarrow> string \<Rightarrow> pydict \<Rightarrow> json \<Rightarrow> MessageEnvelope" where
  "http_received now message_id event_type h payload = \<lparr>env_metadata = \<lparr>
     md_message_id = message_id, md_event_type = event_type,
     md_message_key = map_of h ''x-pactix-message-key'', md_ordering_key = map_of h ''x-pactix-ordering-key'',
     md_correlation_id = map_of h ''x-pactix-correlation-id'', md_headers = h, md_occurred_at = now\<rparr>,
     env_payload = payload\<rparr>"

lemma received_message:
  assumes "map_of (normalized_headers headers) ''x-pactix-message-id'' = Some mid" "map_of (normalized_headers headers) ''x-pactix-event-type'' = Some et"
  shows "res_bind (HttpInboundMessage_from_headers headers payload) (HttpInboundMessage_to_envelope now) =
    MessageEnvelope_new (env_metadata (http_received now mid et (normalized_headers headers) payload)) payload"
  using assms
  by (simp add: HttpInboundMessage_from_headers_def HttpInboundMessage_to_envelope_def http_received_def header_names Let_def
      builder_defs split: option.split)

lemma save_by_envelope:
  "HttpInboxEndpoint_save cfg ex i now source headers payload tbl =
     (case res_bind (HttpInboundMessage_from_headers headers payload) (HttpInboundMessage_to_envelope now) of
        Inl e \<Rightarrow> (Inl e, tbl)
      | Inr env \<Rightarrow> in_transaction (InboxStore_save_received cfg ex i now source env) tbl)"
  by (simp add: HttpInboxEndpoint_save_def HttpInboxEndpoint_save_message_def HttpInboxEndpoint_normalize_message_def
      split: sum.split)

lemma wf_normalized_headers [simp]: "wf_dict (normalized_headers headers)"
  by (simp add: normalized_headers_def)

lemma save_received_blank_source:
  "blank source \<Longrightarrow> InboxStore_save_received cfg ex i now source env tbl = Inl (ValidationError ''source must not be empty'')"
  by (simp add: InboxStore_save_received_def InboxMessageRecord_pending_def)

text \<open>What the receipt of a valid message does to the table.\<close>

lemma save_received_effect:
  assumes ex: "db_driver ex" and inv: "inbox_invariant ex tbl" and new: "i \<notin> col_id ` set tbl"
    and valid: "valid_receipt source env" "wf_dict (md_headers (env_metadata env))"
    and fits: "inbox_fits ex (pending_inbox_row cfg i t source env)"
  shows "\<exists>out. InboxStore_save_received cfg ex i (utc t) source env tbl = Inr (out,
    if received_from ex source (md_message_id (env_metadata env)) tbl then tbl
    else tbl @ [pending_inbox_row cfg i t source env])"
proof (cases "received_from ex source (md_message_id (env_metadata env)) tbl")
  case True
  then obtain old where "old \<in> set tbl" "text_eq ex (col_source old) source"
    "text_eq ex (col_message_id old) (md_message_id (env_metadata env))" by (auto simp: received_from_def)
  from save_received_duplicate [OF ex inv valid(1) fits this] True show ?thesis by auto
next
  case False
  then have "\<not> inbox_conflict ex (pending_inbox_row cfg i t source env) r" if "r \<in> set tbl" for r
    using that new by (auto simp: inbox_conflict_def inbox_same_message_def received_from_def text_eq_def)
  from save_received_fresh [OF ex valid fits this] False show ?thesis by auto
qed

lemma save_received_refused:
  assumes "postgres_driver ex" "valid_receipt source env" "\<not> inbox_fits ex (pending_inbox_row cfg i t source env)"
  shows "InboxStore_save_received cfg ex i (utc t) source env tbl = Inl DataError"
proof -
  note ex = postgres_db_driver [OF assms(1)]
  obtain rec where "InboxMessageRecord_pending i (utc t) source (env_metadata env) (env_payload env) (retry_policy cfg) = Inr rec"
    "inbox_record_values ex rec (ex_dialect ex) = pending_inbox_row cfg i t source env"
    by (rule inbox_pending_values [OF ex assms(2)])
  then show ?thesis
    using assms(3) postgresD(1) [OF assms(1)] by (simp add: InboxStore_save_received_def ex inbox_upsert_def Let_def)
qed

text \<open>Property C37: what the endpoint answers to a request whose body parses, on a table that store calls
  built.  Without a message id or an event type header, in whatever case, or when one of them, a
  given ordering key or the configured source is blank, it answers 400 with the reason and stores
  nothing.  Otherwise, when the message's values fit their columns, it answers 202, and the table has
  one more row, made of the headers and the body, unless the source and message id were received before;
  then it is unchanged.  When PostgreSQL refuses a value the error of the driver reaches the framework
  instead of an answer with status 500, and the receipt is rolled back.\<close>

theorem http_endpoint_answers:
  assumes ex: "db_driver ex" and inv: "inbox_invariant ex tbl" and new: "i \<notin> col_id ` set tbl"
    and h: "h = normalized_headers headers"
    and answer: "answer = make_inbox_endpoint cfg ex i (utc t) source (Inr payload) headers tbl"
  shows "case (map_of h ''x-pactix-message-id'', map_of h ''x-pactix-event-type'') of
      (None, _) \<Rightarrow> answer = (Inr \<lparr>resp_status = 400, resp_body = Some ''x-pactix-message-id header is required''\<rparr>, tbl)
    | (Some _, None) \<Rightarrow> answer = (Inr \<lparr>resp_status = 400, resp_body = Some ''x-pactix-event-type header is required''\<rparr>, tbl)
    | (Some mid, Some et) \<Rightarrow>
        if blank mid \<or> blank et \<or> pred_option blank (map_of h ''x-pactix-ordering-key'') \<and> map_of h ''x-pactix-ordering-key'' \<noteq> None \<or> blank source
        then \<exists>reason. answer = (Inr \<lparr>resp_status = 400, resp_body = Some reason\<rparr>, tbl)
        else let row = pending_inbox_row cfg i t source (http_received (utc t) mid et h payload)
             in if inbox_fits ex row
                then answer = (Inr \<lparr>resp_status = 202, resp_body = None\<rparr>, if received_from ex source mid tbl then tbl else tbl @ [row])
                else ex_dialect ex = POSTGRESQL \<longrightarrow> answer = (Inl DataError, tbl)"
proof (cases "map_of h ''x-pactix-message-id''")
  case None
  then show ?thesis
    by (simp add: answer h make_inbox_endpoint_def save_by_envelope HttpInboundMessage_from_headers_def header_names)
next
  case (Some mid)
  note mid = this
  show ?thesis
  proof (cases "map_of h ''x-pactix-event-type''")
    case None
    with mid show ?thesis
      by (simp add: answer h make_inbox_endpoint_def save_by_envelope HttpInboundMessage_from_headers_def header_names)
  next
    case (Some et)
    let ?env = "http_received (utc t) mid et h payload"
    let ?row = "pending_inbox_row cfg i t source ?env"
    note save = save_by_envelope [of cfg ex i "utc t" source headers payload tbl,
        unfolded received_message [OF mid [unfolded h] Some [unfolded h], folded h]]
    have valid: "valid_metadata (env_metadata ?env) \<longleftrightarrow>
        \<not> (blank mid \<or> blank et \<or> pred_option blank (map_of h ''x-pactix-ordering-key'') \<and> map_of h ''x-pactix-ordering-key'' \<noteq> None)"
      by (cases "map_of h ''x-pactix-ordering-key''") (auto simp: valid_metadata_def http_received_def)
    have rejected: "\<exists>reason. answer = (Inr \<lparr>resp_status = 400, resp_body = Some reason\<rparr>, tbl)"
      if "\<not> valid_receipt source ?env"
    proof (cases "MessageEnvelope_new (env_metadata ?env) payload")
      case (Inl e)
      then show ?thesis using MessageEnvelope_new_Inl [OF Inl] by (auto simp: answer make_inbox_endpoint_def save)
    next
      case (Inr env)
      then have "blank source" using that by (simp add: MessageEnvelope_new_Inr_iff valid_receipt_def)
      then show ?thesis by (simp add: answer make_inbox_endpoint_def save Inr save_received_blank_source)
    qed
    have accepted: "if inbox_fits ex ?row
        then answer = (Inr \<lparr>resp_status = 202, resp_body = None\<rparr>, if received_from ex source mid tbl then tbl else tbl @ [?row])
        else ex_dialect ex = POSTGRESQL \<longrightarrow> answer = (Inl DataError, tbl)"
      if v: "valid_receipt source ?env"
    proof -
      have env: "MessageEnvelope_new (env_metadata ?env) payload = Inr ?env"
        using v by (simp add: MessageEnvelope_new_Inr_iff valid_receipt_def http_received_def)
      have id: "md_message_id (env_metadata ?env) = mid" "wf_dict (md_headers (env_metadata ?env))"
        by (simp_all add: http_received_def h)
      show ?thesis
        using save_received_effect [OF ex inv new v id(2), of cfg t] save_received_refused [OF driver_dialect(2) [OF ex] v]
        by (auto simp: answer make_inbox_endpoint_def save env id(1))
    qed
    show ?thesis
      using rejected accepted valid by (auto simp: mid Some valid_receipt_def Let_def)
  qed
qed

text \<open>The handler accepts a delivered request for a valid record, and stores its message.\<close>

lemma http_request_accepted:
  assumes ex: "db_session ex" and inv: "inbox_invariant ex tbl" and new: "i \<notin> col_id ` set tbl"
    and custom: "custom_headers_ok (ep_headers endpoint)" "custom_headers_ok (rec_headers record)"
    and valid: "valid_record record" "\<not> blank source"
    and arrive: "http_delivers arrive (http_request endpoint record)"
    and fits: "list_all (ex_fits ex) [source, rec_message_id record, rec_event_type record]"
      "pred_option (ex_fits ex) (rec_ordering_key record)" "pred_option (ex_fits ex) (rec_correlation_id record)"
  obtains tbl' where "make_inbox_endpoint cfg ex i (utc t) source (snd (arrive (http_request endpoint record)))
      (fst (arrive (http_request endpoint record))) tbl = (Inr \<lparr>resp_status = 202, resp_body = None\<rparr>, tbl')"
    and "\<exists>r \<in> set tbl'. text_eq ex (col_source r) source \<and> text_eq ex (col_message_id r) (rec_message_id record)"
proof -
  let ?req = "http_request endpoint record"
  let ?env = "http_envelope (utc t) (fst (arrive ?req)) record"
  have row: "inbox_fits ex (pending_inbox_row cfg i t source ?env)"
    using fits by (simp add: receivable_fits [OF ex] receivable_def http_envelope_def)
  have receipt: "valid_receipt source ?env" "wf_dict (md_headers (env_metadata ?env))"
    using valid
    by (auto simp: valid_receipt_def valid_metadata_def http_envelope_def valid_record_def normalized_headers_def
        pred_option_def)
  obtain out tbl' where saved: "InboxStore_save_received cfg ex i (utc t) source ?env tbl = Inr (out, tbl')"
    using save_received_total [OF session_driver(1) [OF ex] inv receipt row new] by blast
  have "HttpInboxEndpoint_save cfg ex i (utc t) source (fst (arrive ?req)) (rec_payload record) tbl = (Inr out, tbl')"
    using http_inbound_envelope [OF custom valid(1) arrive, of "utc t"] saved by (simp add: save_by_envelope del: res_bind_eq_Inr)
  moreover have "snd (arrive ?req) = Inr (rec_payload record)"
    using arrive by (simp add: http_delivers_def http_request_def)
  moreover have "md_message_id (env_metadata ?env) = rec_message_id record" by (simp add: http_envelope_def)
  ultimately show thesis
    using that save_received_stores [OF session_driver(1) [OF ex] row saved] by (simp add: make_inbox_endpoint_def)
qed

lemma http_published:
  assumes "HttpEndpointRouter_resolve endpoints (rec_event_type record) = Inr endpoint"
    and "send (http_request endpoint record) = Inr \<lparr>resp_status = 202, resp_body = None\<rparr>"
  shows "HttpOutboxPublisher_publish show_error send endpoints record = Inr PublishOutcome_published"
  using assms by (simp add: HttpOutboxPublisher_publish_def build_request_eq HttpOutboxPublisher_classify_response_def)

text \<open>Over HTTP, a record the publisher reports as published is stored at the other side.
  When the client's requests reach an inbox endpoint, publishing a valid record answers
  \<^verbatim>\<open>published\<close>, and the receiving table then holds a row of that source and message id, whether the
  receipt was new or a redelivery.\<close>

theorem http_publish_stores:
  assumes ex: "db_session ex" and inv: "inbox_invariant ex tbl" and new: "i \<notin> col_id ` set tbl"
    and route: "HttpEndpointRouter_resolve endpoints (rec_event_type record) = Inr endpoint"
    and custom: "custom_headers_ok (ep_headers endpoint)" "custom_headers_ok (rec_headers record)"
    and valid: "valid_record record" "\<not> blank source"
    and arrive: "http_delivers arrive (http_request endpoint record)"
    and fits: "list_all (ex_fits ex) [source, rec_message_id record, rec_event_type record]"
      "pred_option (ex_fits ex) (rec_ordering_key record)" "pred_option (ex_fits ex) (rec_correlation_id record)"
    and handler: "handler = (\<lambda>request. make_inbox_endpoint cfg ex i (utc t) source (snd (arrive request)) (fst (arrive request)) tbl)"
  shows "HttpOutboxPublisher_publish show_error (fst \<circ> handler) endpoints record = Inr PublishOutcome_published
    \<and> (\<exists>r \<in> set (snd (handler (http_request endpoint record))).
         text_eq ex (col_source r) source \<and> text_eq ex (col_message_id r) (rec_message_id record))"
proof (rule http_request_accepted [OF ex inv new custom valid arrive fits, of cfg t])
  fix tbl'
  assume "make_inbox_endpoint cfg ex i (utc t) source (snd (arrive (http_request endpoint record)))
      (fst (arrive (http_request endpoint record))) tbl = (Inr \<lparr>resp_status = 202, resp_body = None\<rparr>, tbl')"
    and "\<exists>r \<in> set tbl'. text_eq ex (col_source r) source \<and> text_eq ex (col_message_id r) (rec_message_id record)"
  then show ?thesis by (simp add: http_published [OF route] handler)
qed

section \<open>A concrete exchange\<close>

definition example_endpoint :: HttpEndpoint where
  "example_endpoint = \<lparr>ep_method = ''POST'', ep_url = ''https://billing/events'', ep_headers = [(''X-Team'', ''orders'')]\<rparr>"

definition example_endpoints :: HttpEndpointRouter where
  "example_endpoints = HttpEndpointRouter_register ''order.created'' example_endpoint HttpEndpointRouter_new"

definition example_arrive :: "HttpOutboundRequest \<Rightarrow> pydict \<times> (error + json)" where
  "example_arrive request = (hr_headers request, Inr (hr_payload request))"

lemma example_exchange:
  "HttpEndpointRouter_resolve example_endpoints (rec_event_type example_outbox_record) = Inr example_endpoint"
  "custom_headers_ok (ep_headers example_endpoint)" "custom_headers_ok (rec_headers example_outbox_record)"
  "valid_record example_outbox_record" "http_delivers example_arrive (http_request example_endpoint example_outbox_record)"
  by (simp_all add: HttpEndpointRouter_resolve_def dict_resolve_def example_endpoints_def HttpEndpointRouter_register_def
      HttpEndpointRouter_new_def example_outbox_record_def custom_headers_ok_def example_endpoint_def wf_dict_def
      lower_def lower_char_def code_point_def pactix_headers_def header_names valid_record_def blank_iff is_space_def
      http_delivers_def example_arrive_def)

theorem http_round_trip_witness:
  "\<exists>request env. HttpOutboxPublisher_build_request example_endpoints example_outbox_record = Inr request
     \<and> res_bind (HttpInboundMessage_from_headers (fst (example_arrive request)) (hr_payload request))
         (HttpInboundMessage_to_envelope (utc 9)) = Inr env
     \<and> md_message_id (env_metadata env) = rec_message_id example_outbox_record"
  using http_round_trip [OF example_exchange, of "utc 9"] by blast

theorem http_publish_stores_witness:
  "HttpOutboxPublisher_publish (\<lambda>_. [])
     (fst \<circ> (\<lambda>request. make_inbox_endpoint default_PactixConfig example_postgres 9 (utc 60) ''billing''
        (snd (example_arrive request)) (fst (example_arrive request)) [])) example_endpoints example_outbox_record
   = Inr PublishOutcome_published"
proof -
  have "inbox_invariant example_postgres []" by (simp add: inbox_invariant_def unique_ids_def)
  moreover have "\<not> blank ''billing''" by (simp add: blank_iff is_space_def code_point_def)
  ultimately show ?thesis
    using http_publish_stores [OF postgres_db_session [OF example_postgres_session] _ _ example_exchange(1-4) _
        example_exchange(5) _ _ _ refl, of "[]" 9 "''billing''"]
    by (simp add: example_outbox_record_def)
qed

definition example_arrived :: "string \<Rightarrow> pydict" where
  "example_arrived message_id = [(''X-Pactix-Message-Id'', message_id), (''X-Pactix-Event-Type'', ''order.created'')]"

lemma example_arrived_names:
  "lower ''X-Pactix-Message-Id'' = ''x-pactix-message-id''" "lower ''X-Pactix-Event-Type'' = ''x-pactix-event-type''"
  by (simp_all add: lower_def lower_char_def code_point_def char_of_eq_iff)

lemma headers_storable:
  "json_storable (headers_json (dict_sorted d)) \<longleftrightarrow> (\<forall>(k, v) \<in> set d. CHR 0x00 \<notin> set k \<and> CHR 0x00 \<notin> set v)"
  by (auto simp: headers_json_def list_all_iff dict_sorted_def)

lemma example_arrived_normalized [simp]:
  "normalized_headers (example_arrived message_id) =
     [(''x-pactix-message-id'', message_id), (''x-pactix-event-type'', ''order.created'')]"
  by (simp add: example_arrived_def normalized_headers_def example_arrived_names)

theorem http_endpoint_answers_witness:
  "\<exists>row reason.
     make_inbox_endpoint default_PactixConfig strict_postgres 9 (utc 60) ''billing'' (Inr (JStr ''ok'')) (example_arrived ''m-1'') []
       = (Inr \<lparr>resp_status = 202, resp_body = None\<rparr>, [row])
     \<and> make_inbox_endpoint default_PactixConfig strict_postgres 9 (utc 60) ''billing'' (Inr (JStr ''ok'')) (example_arrived '' '') []
       = (Inr \<lparr>resp_status = 400, resp_body = Some reason\<rparr>, [])
     \<and> make_inbox_endpoint default_PactixConfig strict_postgres 9 (utc 60) ''billing'' (Inr (JStr [CHR 0x00])) (example_arrived ''m-1'') []
       = (Inl DataError, [])"
proof -
  have inv: "inbox_invariant strict_postgres []" "(9::uuid) \<notin> col_id ` set []" by (simp_all add: inbox_invariant_def unique_ids_def)
  note answers = http_endpoint_answers [OF postgres_db_driver [OF strict_postgres_driver] inv refl refl,
      of default_PactixConfig 60 "''billing''" _ "example_arrived _"]
  have blank: "\<not> blank ''m-1''" "\<not> blank ''order.created''" "\<not> blank ''billing''" "blank '' ''"
    by (simp_all add: blank_iff is_space_def code_point_def)
  show ?thesis
    using answers [of "JStr ''ok''" "''m-1''"] answers [of "JStr ''ok''" "'' ''"] answers [of "JStr [CHR 0x00]" "''m-1''"]
    by (auto simp: blank inbox_fits_def row_stored_def pending_inbox_row_def http_received_def strict_postgres_def
        example_postgres_def default_PactixConfig_def default_RetryPolicy_def headers_storable received_from_def Let_def)
qed

end
