(* ===== verification/Refused.thy ===== *)
theory Refused
  imports Settling HttpTransport
begin

text \<open>
  An error text the database refuses.  Recording an outcome writes the publisher's text to \<^verbatim>\<open>last_error\<close>.  If the column cannot hold it, the transaction
  fails, and with it the pass; the attempt is not counted.
\<close>

lemma reclaim_driver:
  "db_driver ex \<Longrightarrow> OutboxStore_reclaim_expired ex (utc t) tbl =
     Inr (rowcount (lease_expired t) tbl, update_where (lease_expired t) (set_reclaimed t) tbl)"
  by (simp add: OutboxStore_reclaim_expired_def db_time_branch lease_expired_def [abs_def] Let_def)

lemma attempt_refused:
  assumes "r \<in> set tbl" "col_id r = i" "\<not> ex_text_ok ex e" "\<And>r. col_last_error (f r) = Some e"
  shows "update_attempt ex i f tbl = Inl DataError"
  using assms by (auto simp: update_attempt_def attempt_stored_def list_ex_iff)

lemma record_refused:
  assumes ex: "db_driver ex" and row: "r \<in> set tbl" "col_id r = rec_id m" and pol: "sane_policy fpow (retry_policy cfg)"
    and outcome: "\<not> PublishOutcome_is_published outcome" "\<not> ex_text_ok ex (or_empty (po_message outcome))"
  shows "OutboxRunner_record fpow cfg ex t1 t2 m outcome s tbl = Inl DataError"
proof -
  note pol' = pol [unfolded sane_policy_def, THEN conjunct1] pol [unfolded sane_policy_def, THEN conjunct2]
  have "update_attempt ex (rec_id m) (set_retry (or_empty (po_message outcome)) av u) tbl = Inl DataError"
    "update_attempt ex (rec_id m) (set_failed (or_empty (po_message outcome)) u) tbl = Inl DataError" for av u
    by (rule attempt_refused [OF row outcome(2)], simp add: set_defs)+
  then have marks: "OutboxStore_mark_retry ex t2 (rec_id m) (or_empty (po_message outcome)) av tbl = Inl DataError"
    "OutboxStore_mark_failed ex t2 (rec_id m) (or_empty (po_message outcome)) tbl = Inl DataError" for av
    by (simp_all add: OutboxStore_mark_retry_def OutboxStore_mark_failed_def ex Let_def)
  obtain us where "next_retry_at fpow (retry_policy cfg) (rec_attempts m) t1 = Inr (dt_add t1 us)"
    by (rule next_retry_at_obtain [OF pol'])
  then show ?thesis
    using outcome(1) by (simp add: OutboxRunner_record_def handle_retryable_failure_def marks)
qed

text \<open>A row that is free at \<open>t\<close> is taken by the pass at \<open>t\<close>, and stays as the claim left it.\<close>

definition free_at :: "int \<Rightarrow> outbox_row \<Rightarrow> bool" where
  "free_at t r \<longleftrightarrow> (col_status r = ''pending'' \<or> lease_expired t r) \<and> col_available_at r \<le> t"

lemma pass_refused:
  assumes ex: "\<And>k. db_driver (conn k)" and lock: "\<not> ex_locked (conn 0) (col_id r)" and t: "clock 0 = utc t"
    and pol: "sane_policy fpow (retry_policy cfg)" and batch: "1 \<le> outbox_batch_size cfg" and free: "free_at t r"
    and answer: "\<And>m. \<exists>outcome. PublisherRegistry_publish truthy (call 0) reg m = Inr outcome \<and> \<not> PublishOutcome_is_published outcome
      \<and> \<not> ex_text_ok (conn 1) (or_empty (po_message outcome))"
  shows "OutboxRunner_run_once fpow cfg truthy call reg conn clock (\<lambda>_ tbl. tbl) [r] =
    (Inl DataError, [set_claimed (t + lease_duration cfg) t (reclaimed_at t r)])"
proof -
  let ?r = "reclaimed_at t r" and ?c = "set_claimed (t + lease_duration cfg) t (reclaimed_at t r)"
  have reclaim: "OutboxStore_reclaim_expired (conn 0) (utc t) [r] = Inr (rowcount (lease_expired t) [r], [?r])"
    by (simp add: reclaim_driver [OF ex] update_where_def reclaimed_at_def)
  have ready: "col_status ?r = ''pending''" "col_available_at ?r \<le> t" "col_id ?r = col_id r"
    using free by (auto simp: free_at_def reclaimed_at_def set_defs)
  then have "select_skip_locked (conn 0) (outbox_claimable (conn 0) t [?r]) col_created_at (outbox_batch_size cfg) [?r] = Inr [?r]"
    using batch lock by (simp add: select_skip_locked_def select_order_by_def outbox_claimable_def)
  from claim_ready_selected [OF ex _ this] obtain rows where
    claim: "OutboxStore_claim_ready cfg (conn 0) (utc t) [?r] = Inr (map (outbox_view (conn 0) OutboxStatus.PROCESSING) rows, [?c])"
    and "mset rows = mset [?c]"
    by (auto simp: unique_ids_def update_where_def)
  from this(2) have "rows = [?c]" by simp
  with claim have claim': "OutboxStore_claim_ready cfg (conn 0) (utc t) [?r] = Inr ([outbox_view (conn 0) OutboxStatus.PROCESSING ?c], [?c])" by simp
  obtain outcome where o: "PublisherRegistry_publish truthy (call 0) reg (outbox_view (conn 0) OutboxStatus.PROCESSING ?c) = Inr outcome"
    "\<not> PublishOutcome_is_published outcome" "\<not> ex_text_ok (conn 1) (or_empty (po_message outcome))"
    using answer by blast
  have "OutboxRunner_record fpow cfg (conn 1) t1 t2 (outbox_view (conn 0) OutboxStatus.PROCESSING ?c) outcome s [?c] = Inl DataError" for t1 t2 s
    by (rule record_refused [OF ex, where r = ?c]) (use pol o(2,3) in simp_all)
  then show ?thesis
    by (simp add: OutboxRunner_run_once_def t reclaim claim' OutboxRunner_row_def o(1))
qed

lemma claimed_free_later:
  assumes "free_at t r" "t + lease_duration cfg < t'" "t \<le> t'"
  shows "free_at t' (set_claimed (t + lease_duration cfg) t (reclaimed_at t r))"
  using assms by (auto simp: free_at_def lease_expired_def reclaimed_at_def set_defs)

text \<open>Property C39: a message whose error text the database cannot hold never settles and uses up no attempt, in
  contrast to every other one (PostgreSQL refuses a NUL character and MySQL a text that is too long, and the text of
  an HTTP publisher contains the body of the response).  However often a worker polls, with passes further
  apart than the lease: every pass raises \<^verbatim>\<open>DataError\<close>, which ends it, and the message is left as claimed,
  with the attempts it had, to be claimed first by the next pass.\<close>

theorem outbox_refused_error_never_settles:
  assumes "\<And>j k. db_driver (conn j k)" and "\<And>j. \<not> ex_locked (conn j 0) (col_id r)" and "\<And>j. clock j 0 = utc (t j)"
    and "sane_policy fpow (retry_policy cfg)" and "1 \<le> outbox_batch_size cfg"
    and "free_at (t 0) r" and "\<And>j. t j \<le> t (j + 1)" and "\<And>j. t j + lease_duration cfg < t (j + 1)"
    and "\<And>j m. \<exists>outcome. PublisherRegistry_publish truthy (call j 0) reg m = Inr outcome \<and> \<not> PublishOutcome_is_published outcome
      \<and> \<not> ex_text_ok (conn j 1) (or_empty (po_message outcome))"
  shows "\<exists>events r'. run_loop interval (map (\<lambda>j. OutboxRunner_run_once fpow cfg truthy (call j) reg (conn j) (clock j) (\<lambda>_ tbl. tbl)) [0..<n]) [r]
      = (None, events, [r']) \<and> warnings events = replicate n DataError
    \<and> col_id r' = col_id r \<and> col_attempts r' = col_attempts r \<and> (0 < n \<longrightarrow> col_status r' = ''processing'')"
proof -
  let ?pass = "\<lambda>j. OutboxRunner_run_once fpow cfg truthy (call j) reg (conn j) (clock j) (\<lambda>_ tbl. tbl)"
  have "\<exists>events r'. run_loop interval (map ?pass [j..<j + n]) [q] = (None, events, [r']) \<and> warnings events = replicate n DataError
      \<and> col_id r' = col_id q \<and> col_attempts r' = col_attempts q \<and> (0 < n \<longrightarrow> col_status r' = ''processing'')"
    if "free_at (t j) q" "col_id q = col_id r" for j q
    using that
  proof (induction n arbitrary: j q)
    case 0
    then show ?case by simp
  next
    case (Suc n)
    let ?q = "set_claimed (t j + lease_duration cfg) (t j) (reclaimed_at (t j) q)"
    have one: "?pass j [q] = (Inl DataError, [?q])"
      by (rule pass_refused) (use assms Suc.prems in auto)
    have q: "free_at (t (Suc j)) ?q" "col_id ?q = col_id q" "col_attempts ?q = col_attempts q" "col_status ?q = ''processing''"
      using claimed_free_later [OF Suc.prems(1), of cfg "t (j + 1)"] assms(7,8) [of j] by (simp_all add: reclaimed_at_def)
    obtain events r' where rest: "run_loop interval (map ?pass [Suc j..<Suc j + n]) [?q] = (None, events, [r'])"
      "warnings events = replicate n DataError" "col_id r' = col_id ?q" "col_attempts r' = col_attempts ?q"
      "0 < n \<longrightarrow> col_status r' = ''processing''"
      using Suc.IH [OF q(1)] q(2) Suc.prems(2) by auto
    have last: "n = 0 \<Longrightarrow> r' = ?q" using rest(1) by simp
    have "[j..<j + Suc n] = j # [Suc j..<Suc j + n]" by (simp add: upt_conv_Cons)
    with one rest q last show ?case
      by (intro exI [of _ "Warning DataError # Sleep interval # events"] exI [of _ r']) (cases n; simp)
  qed
  from this [of 0 r] assms(6) show ?thesis by simp
qed

text \<open>A response with status 500 whose body has a NUL character.\<close>

definition nul_response :: HttpResponse where
  "nul_response = \<lparr>resp_status = 500, resp_body = Some (''oops'' @ [CHR 0x00])\<rparr>"

lemma nul_response_refused:
  "\<not> PublishOutcome_is_published (HttpOutboxPublisher_classify_response nul_response)"
  "\<not> ex_text_ok strict_postgres (or_empty (po_message (HttpOutboxPublisher_classify_response nul_response)))"
  by (simp_all add: nul_response_def HttpOutboxPublisher_classify_response_def outcome_tests outcome_defs or_empty_def
      strict_postgres_def strip_def is_space_def code_point_def Let_def)

theorem outbox_refused_error_never_settles_witness:
  "\<exists>events r'. run_loop (Fin 60) (map (\<lambda>j. OutboxRunner_run_once example_pow default_PactixConfig (\<lambda>_. True)
        (\<lambda>_ _ _. Inr (HttpOutboxPublisher_classify_response nul_response)) example_catch_all (\<lambda>_. strict_postgres)
        (\<lambda>k. utc (50 + 60000000 * int j)) (\<lambda>_ tbl. tbl)) [0..<1000])
        [pending_outbox_row default_PactixConfig 9 5 example_envelope] = (None, events, [r'])
     \<and> warnings events = replicate 1000 DataError \<and> col_attempts r' = 0 \<and> col_status r' = ''processing''"
proof -
  let ?row = "pending_outbox_row default_PactixConfig 9 5 example_envelope"
  have free: "free_at (50 + 60000000 * int 0) ?row" by (simp add: free_at_def pending_outbox_row_def)
  have att: "col_attempts ?row = 0" by (simp add: pending_outbox_row_def)
  have lock: "\<not> ex_locked strict_postgres i" for i by (simp add: strict_postgres_def)
  have pol: "sane_policy example_pow (retry_policy default_PactixConfig)" using pass_envD(3) [OF example_pass_env] .
  have lease: "lease_duration default_PactixConfig = 30000000" "1 \<le> outbox_batch_size default_PactixConfig"
    by (simp_all add: default_PactixConfig_def)
  have answer: "\<exists>outcome. PublisherRegistry_publish (\<lambda>_. True) (\<lambda>_ _. Inr (HttpOutboxPublisher_classify_response nul_response)) example_catch_all m
        = Inr outcome \<and> \<not> PublishOutcome_is_published outcome \<and> \<not> ex_text_ok strict_postgres (or_empty (po_message outcome))" for m
    using nul_response_refused
    by (simp add: example_catch_all_def PublisherRegistry_register_all_def PublisherRegistry_new_def
        PublisherRegistry_publish_def PublisherRegistry_resolve_def)
  show ?thesis
    using outbox_refused_error_never_settles [of "\<lambda>_ _. strict_postgres" ?row "\<lambda>j k. utc (50 + 60000000 * int j)" "\<lambda>j. 50 + 60000000 * int j"
        example_pow default_PactixConfig "\<lambda>_. True" "\<lambda>_ _ _ _. Inr (HttpOutboxPublisher_classify_response nul_response)" example_catch_all
        "Fin 60" 1000, OF _ lock refl pol lease(2) free _ _ answer] att lease(1)
    by auto
qed

end
