(* ===== verification/WorkerSystem.thy ===== *)
theory WorkerSystem
  imports LeaseQueue
begin

text \<open>
  Several workers on one table, in any interleaving.  Workers share nothing but the table and
  the clock: each claims a batch in one transaction and settles its rows one transaction at a
  time, producers add rows, and a worker may crash at any point and forget what it holds, or take
  longer than its lease.  The relation below is generic in the three transactions; \<open>worker_queue\<close> states what they promise,
  and the outbox and the inbox interpret it with their runners' transactions.
\<close>

section \<open>The interleaving\<close>

text \<open>The clock, the table, and the rows each worker has yet to settle with the end of their lease.\<close>

record ('t, 'm) worker_system =
  sys_now :: int
  sys_table :: 't
  sys_held :: "nat \<Rightarrow> ('m \<times> int) list"

datatype 'm worker_event = Ticked | Added | Claimed nat | Settled nat 'm int | Crashed nat

text \<open>
  Every step is open to every worker at any time.  In particular the outcome of a row is recorded
  whether or not the lease \<open>l\<close> still runs: the marking statements do not look at it.  A pass uses a time
  it read from the clock earlier.
\<close>

inductive worker_step ::
  "('t \<Rightarrow> 't \<Rightarrow> bool) \<Rightarrow> (int \<Rightarrow> 't \<Rightarrow> 'm list \<Rightarrow> int \<Rightarrow> 't \<Rightarrow> bool) \<Rightarrow> ('m \<Rightarrow> 't \<Rightarrow> 't \<Rightarrow> bool)
   \<Rightarrow> 'm worker_event \<Rightarrow> ('t, 'm) worker_system \<Rightarrow> ('t, 'm) worker_system \<Rightarrow> bool"
  for add pass settle where
  ticked: "sys_now s \<le> t \<Longrightarrow> worker_step add pass settle Ticked s (s\<lparr>sys_now := t\<rparr>)"
| added: "add (sys_table s) tbl \<Longrightarrow> worker_step add pass settle Added s (s\<lparr>sys_table := tbl\<rparr>)"
| claimed: "sys_held s w = [] \<Longrightarrow> t \<le> sys_now s \<Longrightarrow> pass t (sys_table s) ms l tbl \<Longrightarrow>
    worker_step add pass settle (Claimed w) s
      (s\<lparr>sys_table := tbl, sys_held := (sys_held s)(w := map (\<lambda>m. (m, l)) ms)\<rparr>)"
| settled: "sys_held s w = (m, l) # rest \<Longrightarrow> settle m (sys_table s) tbl \<Longrightarrow>
    worker_step add pass settle (Settled w m l) s (s\<lparr>sys_table := tbl, sys_held := (sys_held s)(w := rest)\<rparr>)"
| crashed: "worker_step add pass settle (Crashed w) s (s\<lparr>sys_held := (sys_held s)(w := [])\<rparr>)"

inductive_cases worker_stepE [consumes 1, case_names ticked added claimed settled crashed]:
  "worker_step add pass settle e s s'"

text \<open>
  An interleaving is any sequence of steps.  It is timely for a row if no worker records an outcome of
  that row after the lease it holds it under; what happens to other rows is left open.
\<close>

definition any_step ::
  "('t \<Rightarrow> 't \<Rightarrow> bool) \<Rightarrow> (int \<Rightarrow> 't \<Rightarrow> 'm list \<Rightarrow> int \<Rightarrow> 't \<Rightarrow> bool) \<Rightarrow> ('m \<Rightarrow> 't \<Rightarrow> 't \<Rightarrow> bool)
   \<Rightarrow> ('t, 'm) worker_system \<Rightarrow> ('t, 'm) worker_system \<Rightarrow> bool" where
  "any_step add pass settle s s' \<longleftrightarrow> (\<exists>e. worker_step add pass settle e s s')"

definition in_time :: "('m \<Rightarrow> uuid) \<Rightarrow> uuid \<Rightarrow> ('t, 'm) worker_system \<Rightarrow> 'm worker_event \<Rightarrow> bool" where
  "in_time rid i s e = (case e of Settled w m l \<Rightarrow> rid m = i \<longrightarrow> sys_now s \<le> l | _ \<Rightarrow> True)"

definition timely_step ::
  "('m \<Rightarrow> uuid) \<Rightarrow> uuid \<Rightarrow> ('t \<Rightarrow> 't \<Rightarrow> bool) \<Rightarrow> (int \<Rightarrow> 't \<Rightarrow> 'm list \<Rightarrow> int \<Rightarrow> 't \<Rightarrow> bool) \<Rightarrow> ('m \<Rightarrow> 't \<Rightarrow> 't \<Rightarrow> bool)
   \<Rightarrow> ('t, 'm) worker_system \<Rightarrow> ('t, 'm) worker_system \<Rightarrow> bool" where
  "timely_step rid i add pass settle s s' \<longleftrightarrow> (\<exists>e. in_time rid i s e \<and> worker_step add pass settle e s s')"

lemma in_time_simps [simp]:
  "in_time rid i s Ticked" "in_time rid i s Added" "in_time rid i s (Claimed w)" "in_time rid i s (Crashed w)"
  "in_time rid i s (Settled w m l) \<longleftrightarrow> (rid m = i \<longrightarrow> sys_now s \<le> l)"
  by (simp_all add: in_time_def)

lemma timely_stepI: "worker_step add pass settle e s s' \<Longrightarrow> in_time rid i s e \<Longrightarrow> timely_step rid i add pass settle s s'"
  by (auto simp: timely_step_def)

lemma timely_any: "timely_step rid i add pass settle s s' \<Longrightarrow> any_step add pass settle s s'"
  by (auto simp: timely_step_def any_step_def)

definition idle_system :: "int \<Rightarrow> 't \<Rightarrow> ('t, 'm) worker_system" where
  "idle_system t tbl = \<lparr>sys_now = t, sys_table = tbl, sys_held = (\<lambda>_. [])\<rparr>"

text \<open>Worker \<open>w\<close> holds the row of \<open>m\<close> under a lease that still runs.\<close>

definition holds :: "('t, 'm) worker_system \<Rightarrow> nat \<Rightarrow> 'm \<Rightarrow> int \<Rightarrow> bool" where
  "holds s w m l \<longleftrightarrow> (m, l) \<in> set (sys_held s w) \<and> sys_now s \<le> l"

text \<open>
  A row \<open>i\<close> held under a running lease is processing under that lease, and one worker holds it.
\<close>

definition lease_inv :: "('m \<Rightarrow> uuid) \<Rightarrow> uuid \<Rightarrow> ('a message_row_scheme list, 'm) worker_system \<Rightarrow> bool" where
  "lease_inv rid i s \<longleftrightarrow>
     unique_ids (sys_table s) \<and>
     (\<forall>w. distinct (map (rid \<circ> fst) (sys_held s w))) \<and>
     (\<forall>w m l. holds s w m l \<longrightarrow> rid m = i \<longrightarrow>
        (\<exists>r. row_of (sys_table s) i = Some r \<and> col_status r = ''processing'' \<and> col_lease_until r = Some l)) \<and>
     (\<forall>w m l w' m' l'. holds s w m l \<longrightarrow> holds s w' m' l' \<longrightarrow> rid m = i \<longrightarrow> rid m' = i \<longrightarrow> w = w')"

lemma lease_inv_idle: "unique_ids tbl \<Longrightarrow> lease_inv rid i (idle_system t tbl)"
  by (simp add: lease_inv_def idle_system_def holds_def)

text \<open>The proof obligation of every step.\<close>

lemma lease_invI:
  assumes "unique_ids (sys_table s)" and "\<And>w. distinct (map (rid \<circ> fst) (sys_held s w))"
    and "\<And>w m l. holds s w m l \<Longrightarrow> rid m = i \<Longrightarrow>
      \<exists>r. row_of (sys_table s) i = Some r \<and> col_status r = ''processing'' \<and> col_lease_until r = Some l"
    and "\<And>w m l w' m' l'. holds s w m l \<Longrightarrow> holds s w' m' l' \<Longrightarrow> rid m = i \<Longrightarrow> rid m' = i \<Longrightarrow> w = w'"
  shows "lease_inv rid i s"
  using assms unfolding lease_inv_def by blast

lemma lease_invD:
  assumes "lease_inv rid i s"
  shows "unique_ids (sys_table s)" and "distinct (map (rid \<circ> fst) (sys_held s w))"
    and "holds s w m l \<Longrightarrow> rid m = i \<Longrightarrow>
      \<exists>r. row_of (sys_table s) i = Some r \<and> col_status r = ''processing'' \<and> col_lease_until r = Some l"
    and "holds s w m l \<Longrightarrow> holds s w' m' l' \<Longrightarrow> rid m = i \<Longrightarrow> rid m' = i \<Longrightarrow> w = w'"
  using assms unfolding lease_inv_def by blast+

lemma holds_row:
  assumes "lease_inv rid i s" "holds s w m l" "rid m = i"
  obtains r where "row_of (sys_table s) i = Some r" "col_status r = ''processing''" "col_lease_until r = Some l"
    "leased_at (sys_now s) r"
proof -
  have "sys_now s \<le> l" using assms(2) by (simp add: holds_def)
  moreover obtain r where "row_of (sys_table s) i = Some r" "col_status r = ''processing''" "col_lease_until r = Some l"
    using lease_invD(3) [OF assms] by blast
  ultimately show thesis using that by (simp add: leased_at_def)
qed

text \<open>A step after which no worker holds more, and that keeps the row if it is still held.\<close>

lemma lease_inv_less:
  assumes inv: "lease_inv rid i s" and "unique_ids (sys_table s')" "\<And>w. distinct (map (rid \<circ> fst) (sys_held s' w))"
    and sub: "\<And>w m l. holds s' w m l \<Longrightarrow> rid m = i \<Longrightarrow> holds s w m l \<and> row_of (sys_table s') i = row_of (sys_table s) i"
  shows "lease_inv rid i s'"
proof (rule lease_invI)
  show "\<exists>r. row_of (sys_table s') i = Some r \<and> col_status r = ''processing'' \<and> col_lease_until r = Some l"
    if "holds s' w m l" "rid m = i" for w m l using sub [OF that] lease_invD(3) [OF inv, of w m l] that(2) by simp
  show "w = w'" if "holds s' w m l" "holds s' w' m' l'" "rid m = i" "rid m' = i" for w m l w' m' l'
    using sub [OF that(1,3)] sub [OF that(2,4)] lease_invD(4) [OF inv _ _ that(3,4)] by blast
qed (use assms in simp_all)

section \<open>What the transactions promise\<close>

locale worker_queue =
  fixes rid :: "'m \<Rightarrow> uuid"
    and add :: "'a message_row_scheme list \<Rightarrow> 'a message_row_scheme list \<Rightarrow> bool"
    and pass :: "int \<Rightarrow> 'a message_row_scheme list \<Rightarrow> 'm list \<Rightarrow> int \<Rightarrow> 'a message_row_scheme list \<Rightarrow> bool"
    and settle :: "'m \<Rightarrow> 'a message_row_scheme list \<Rightarrow> 'a message_row_scheme list \<Rightarrow> bool"
  assumes add_unique: "add tbl tbl' \<Longrightarrow> unique_ids tbl \<Longrightarrow> unique_ids tbl'"
    and add_keeps: "add tbl tbl' \<Longrightarrow> row_of tbl i = Some r \<Longrightarrow> row_of tbl' i = Some r"
    and pass_law: "pass t tbl ms l tbl' \<Longrightarrow> unique_ids tbl \<Longrightarrow> pass_ok rid t tbl ms l tbl'"
    and settle_law: "settle m tbl tbl' \<Longrightarrow> one_row_update (rid m) tbl tbl'"
begin

lemmas pass_laws = pass_okD [OF pass_law]
  and settle_laws = one_row_updateD [OF settle_law]

lemma lease_inv_claimed:
  assumes inv: "lease_inv rid i s" and idle: "sys_held s w = []" and t: "t \<le> sys_now s"
    and pass: "pass t (sys_table s) ms l tbl"
  shows "lease_inv rid i (s\<lparr>sys_table := tbl, sys_held := (sys_held s)(w := map (\<lambda>m. (m, l)) ms)\<rparr>)"
    (is "lease_inv rid i ?s")
proof (rule lease_invI)
  note u = lease_invD(1) [OF inv]
  show "unique_ids (sys_table ?s)" using pass_laws(1) [OF pass u] by simp
  show "distinct (map (rid \<circ> fst) (sys_held ?s v))" for v
    using pass_laws(2) [OF pass u] lease_invD(2) [OF inv] by (simp add: comp_def)
  have other: "row_of tbl i = row_of (sys_table s) i \<and> i \<notin> rid ` set ms" if h: "holds s v m k" "rid m = i" for v m k
  proof -
    obtain r where r: "row_of (sys_table s) i = Some r" "col_status r = ''processing''" "leased_at (sys_now s) r"
      by (rule holds_row [OF inv h])
    have "col_status r \<noteq> ''pending''" by (simp add: r(2))
    moreover have "leased_at t r" using r(3) t by (auto simp: leased_at_def)
    ultimately show ?thesis using pass_laws(4) [OF pass u r(1) _ leased_not_expired] r(1) by simp
  qed
  have cases: "holds ?s v m k \<longleftrightarrow> (if v = w then m \<in> set ms \<and> k = l \<and> sys_now s \<le> l else holds s v m k)" for v m k
    by (auto simp: holds_def)
  show "\<exists>r. row_of (sys_table ?s) i = Some r \<and> col_status r = ''processing'' \<and> col_lease_until r = Some k"
    if "holds ?s v m k" "rid m = i" for v m k
    using that pass_laws(3) [OF pass u, of m] other [of v m k] lease_invD(3) [OF inv, of v m k] by (auto simp: cases split: if_splits)
  show "v = v'" if "holds ?s v m k" "holds ?s v' m' k'" "rid m = i" "rid m' = i" for v m k v' m' k'
    using that other [of v m k] other [of v' m' k'] lease_invD(4) [OF inv, of v m k v' m' k']
    by (auto simp: cases split: if_splits) (metis imageI)
qed

lemma lease_inv_settled:
  assumes inv: "lease_inv rid i s" and held: "sys_held s w = (m, l) # rest" and time: "rid m = i \<Longrightarrow> sys_now s \<le> l"
    and settle: "settle m (sys_table s) tbl"
  shows "lease_inv rid i (s\<lparr>sys_table := tbl, sys_held := (sys_held s)(w := rest)\<rparr>)" (is "lease_inv rid i ?s")
proof (rule lease_inv_less [OF inv])
  show "unique_ids (sys_table ?s)" using settle_laws(1) [OF settle] lease_invD(1) [OF inv] by simp
  show "distinct (map (rid \<circ> fst) (sys_held ?s v))" for v
    using lease_invD(2) [OF inv, of v] held by auto
  have before: "holds s v n k \<and> rid m \<noteq> i" if h: "holds ?s v n k" "rid n = i" for v n k
  proof -
    have hs: "holds s v n k" using h(1) held by (auto simp: holds_def split: if_splits)
    moreover have "rid m \<noteq> i"
    proof
      assume m: "rid m = i"
      then have "holds s w m l" using held time by (simp add: holds_def)
      then have "v = w" using lease_invD(4) [OF inv hs] h(2) m by blast
      then have "(n, k) \<in> set rest" using h(1) by (simp add: holds_def)
      then show False using lease_invD(2) [OF inv, of w] held m h(2) by (force simp: image_iff)
    qed
    ultimately show ?thesis ..
  qed
  show "holds s v n k \<and> row_of (sys_table ?s) i = row_of (sys_table s) i" if "holds ?s v n k" "rid n = i" for v n k
    using before [OF that] settle_laws(2) [OF settle, of i] by simp
qed

lemma lease_inv_step:
  assumes "worker_step add pass settle e s s'" and "in_time rid i s e" and inv: "lease_inv rid i s"
  shows "lease_inv rid i s'"
  using assms(1,2)
proof (cases rule: worker_stepE)
  case (ticked t)
  show ?thesis by (rule lease_inv_less [OF inv]) (use ticked lease_invD(1,2) [OF inv] in \<open>auto simp: holds_def\<close>)
next
  case (added tbl)
  have "row_of tbl i = row_of (sys_table s) i" if "holds s w m l" "rid m = i" for w m l
    using lease_invD(3) [OF inv that] add_keeps [OF added(3), of i] by auto
  then show ?thesis
    by (intro lease_inv_less [OF inv])
      (use added lease_invD(1,2) [OF inv] add_unique [OF added(3)] in \<open>auto simp: holds_def\<close>)
next
  case (crashed w)
  show ?thesis
    by (rule lease_inv_less [OF inv])
      (use crashed lease_invD(1,2) [OF inv] in \<open>auto simp: holds_def split: if_splits\<close>)
qed (use assms(2) lease_inv_claimed [OF inv] lease_inv_settled [OF inv] in simp_all)

text \<open>A row that is neither pending nor processing is not written again, as long as its own outcomes are
  recorded in time.\<close>

lemma finished_step:
  assumes "worker_step add pass settle e s s'" and time: "in_time rid i s e" and inv: "lease_inv rid i s"
    and r: "row_of (sys_table s) i = Some r" "\<not> unfinished r"
  shows "row_of (sys_table s') i = Some r"
  using assms(1)
proof (cases rule: worker_stepE)
  case (added tbl)
  then show ?thesis using add_keeps r(1) by simp
next
  case (claimed w t ms l tbl)
  have "col_status r \<noteq> ''pending''" "\<not> lease_expired t r"
    using r(2) expired_unfinished [of t r] by (auto simp: unfinished_def)
  then show ?thesis using pass_laws(4) [OF claimed(5) lease_invD(1) [OF inv] r(1)] claimed(2) by simp
next
  case (settled w m l rest tbl)
  have "rid m \<noteq> i"
  proof
    assume m: "rid m = i"
    then have "holds s w m l" using settled time by (simp add: holds_def)
    then obtain r' where "row_of (sys_table s) i = Some r'" "col_status r' = ''processing''"
      by (rule holds_row [OF inv]) (use m in auto)
    with r show False by (auto simp: unfinished_def)
  qed
  then show ?thesis using settle_laws(2) [OF settled(4)] r(1) settled(2) by simp
qed (use r in simp_all)

text \<open>No step loses a row, in time or not.\<close>

lemma unique_ids_step:
  assumes "worker_step add pass settle e s s'" and u: "unique_ids (sys_table s)"
  shows "unique_ids (sys_table s')"
  using assms(1)
proof (cases rule: worker_stepE)
  case (claimed w t ms l tbl)
  then show ?thesis using pass_laws(1) [OF claimed(5) u] by simp
qed (use u add_unique settle_laws(1) in auto)

lemma row_kept_step:
  assumes "worker_step add pass settle e s s'" and u: "unique_ids (sys_table s)" and r: "row_of (sys_table s) i \<noteq> None"
  shows "row_of (sys_table s') i \<noteq> None"
  using assms(1)
proof (cases rule: worker_stepE)
  case (added tbl)
  then show ?thesis using add_keeps [OF added(3)] r by auto
next
  case (claimed w t ms l tbl)
  then show ?thesis using pass_laws(5) [OF claimed(5) u r] by simp
next
  case (settled w m l rest tbl)
  then show ?thesis using settle_laws(3) [OF settled(4) r] by simp
qed (use r in simp_all)

text \<open>The same for executions.\<close>

lemma timely_execution:
  assumes "(timely_step rid i add pass settle)\<^sup>*\<^sup>* s s'" and "lease_inv rid i s"
  shows "lease_inv rid i s'"
    and "row_of (sys_table s) i = Some r \<Longrightarrow> \<not> unfinished r \<Longrightarrow> row_of (sys_table s') i = Some r"
proof -
  have inv: "lease_inv rid i s''" if "(timely_step rid i add pass settle)\<^sup>*\<^sup>* s s''" for s''
    using that by (induction rule: rtranclp_induct) (use assms(2) lease_inv_step in \<open>auto simp: timely_step_def\<close>)
  then show "lease_inv rid i s'" using assms(1) .
  show "row_of (sys_table s') i = Some r" if "row_of (sys_table s) i = Some r" "\<not> unfinished r"
    using assms(1)
  proof (induction rule: rtranclp_induct)
    case (step y z)
    then show ?case using finished_step [OF _ _ inv [OF step(1)]] that(2) by (auto simp: timely_step_def)
  qed (rule that(1))
qed

lemma execution:
  assumes "(any_step add pass settle)\<^sup>*\<^sup>* s s'" and "unique_ids (sys_table s)"
  shows "unique_ids (sys_table s')" and "row_of (sys_table s) i \<noteq> None \<Longrightarrow> row_of (sys_table s') i \<noteq> None"
proof -
  have u: "unique_ids (sys_table s'')" if "(any_step add pass settle)\<^sup>*\<^sup>* s s''" for s''
    using that by (induction rule: rtranclp_induct) (use assms(2) unique_ids_step in \<open>auto simp: any_step_def\<close>)
  then show "unique_ids (sys_table s')" using assms(1) .
  show "row_of (sys_table s') i \<noteq> None" if "row_of (sys_table s) i \<noteq> None"
    using assms(1)
  proof (induction rule: rtranclp_induct)
    case (step y z)
    then show ?case using row_kept_step [OF _ u [OF step(1)]] by (fastforce simp: any_step_def)
  qed (rule that)
qed

end

end
