(* ===== verification/Workers.thy ===== *)
theory Workers
  imports OutboxRunner InboxRunner WorkerSystem
begin

text \<open>
  Any number of outbox or inbox workers on one table: the transactions of the two runners are
  instances of \<open>worker_queue\<close>.  No interleaving loses a row.  A row is held by one worker at a time, and
  is final once finished, in the interleavings in which its outcomes are recorded before the
  lease ends; the last section shows what happens when a worker is too slow.
\<close>

lemma row_of_append: "row_of tbl i = Some r \<Longrightarrow> row_of (tbl @ rows) i = Some r"
  by (induction tbl) (auto simp: row_of_def)

section \<open>Outbox workers\<close>

text \<open>A producer's append, the claiming transaction of \<^verbatim>\<open>run_once\<close>, and the body of its loop for one
  row, each on any connection and under any configuration.\<close>

inductive outbox_added :: "outbox_table \<Rightarrow> outbox_table \<Rightarrow> bool" where
  "db_session ex \<Longrightarrow> OutboxStore_append cfg ex i (utc t) env tbl = Inr (rec, tbl') \<Longrightarrow> outbox_added tbl tbl'"

inductive outbox_pass :: "int \<Rightarrow> outbox_table \<Rightarrow> OutboxMessageRecord list \<Rightarrow> int \<Rightarrow> outbox_table \<Rightarrow> bool" where
  "db_session ex \<Longrightarrow> OutboxStore_reclaim_expired ex (utc t) tbl = Inr (n, tbl1) \<Longrightarrow>
   OutboxStore_claim_ready cfg ex (utc t) tbl1 = Inr (ms, tbl2) \<Longrightarrow>
   outbox_pass t tbl ms (t + lease_duration cfg) tbl2"

inductive outbox_settled :: "OutboxMessageRecord \<Rightarrow> outbox_table \<Rightarrow> outbox_table \<Rightarrow> bool" where
  "(\<And>j. db_session (conn j)) \<Longrightarrow> (\<And>j. is_aware (clock j)) \<Longrightarrow>
   OutboxRunner_row fpow cfg publish conn clock k m s tbl = Inr (s', tbl') \<Longrightarrow> outbox_settled m tbl tbl'"

type_synonym outbox_workers = "(outbox_table, OutboxMessageRecord) worker_system"

abbreviation outbox_worker_step ::
  "OutboxMessageRecord worker_event \<Rightarrow> outbox_workers \<Rightarrow> outbox_workers \<Rightarrow> bool" where
  "outbox_worker_step \<equiv> worker_step outbox_added outbox_pass outbox_settled"

abbreviation outbox_timely_step :: "uuid \<Rightarrow> outbox_workers \<Rightarrow> outbox_workers \<Rightarrow> bool" where
  "outbox_timely_step i \<equiv> timely_step rec_id i outbox_added outbox_pass outbox_settled"

lemma outbox_settled_one_row:
  assumes "outbox_settled m tbl tbl'" shows "one_row_update (rec_id m) tbl tbl'"
  using assms
proof cases
  case (1 conn clock fpow cfg publish k s s')
  then show ?thesis using outbox_row_one_row by blast
qed

lemma outbox_added_row:
  assumes "outbox_added tbl tbl'"
  obtains r where "tbl' = tbl @ [r]" "col_id r \<notin> col_id ` set tbl"
  using assms
proof cases
  case (1 ex cfg i t env rec)
  have "outbox_insert ex (pending_outbox_row cfg i t env) tbl = Inr tbl'"
    by (rule append_cases [OF session_driver(1) [OF 1(1)] append_valid [OF 1(2)], of i t cfg tbl]) (use 1(2) in auto)
  then show thesis using that [of "pending_outbox_row cfg i t env"]
    by (auto simp: pending_insert_Inr) (auto simp: pending_outbox_row_def)
qed

interpretation outbox_workers: worker_queue rec_id outbox_added outbox_pass outbox_settled
proof (unfold_locales, goal_cases)
  case (1 tbl tbl')
  then show ?case by (elim outbox_added_row) (auto simp: unique_ids_def)
next
  case (2 tbl tbl' i r)
  then show ?case by (elim outbox_added_row) (simp add: row_of_append)
next
  case (3 t tbl ms l tbl')
  from 3(1) show ?case by cases (use outbox_queue.pass_effect 3(2) in blast)
next
  case (4 m tbl tbl')
  then show ?case by (rule outbox_settled_one_row)
qed

text \<open>Property C7: in every state that outbox workers, producers, crashes and the clock can reach without an
  outcome of row \<open>i\<close> being recorded after the lease it was claimed under (the marking statements do not
  check this), two workers never hold row \<open>i\<close> under running leases, and while one does the row is
  processing under exactly that lease.  Other rows may be recorded as late as they like.\<close>

theorem outbox_workers_exclusive:
  assumes "(outbox_timely_step i)\<^sup>*\<^sup>* (idle_system t []) s"
    and "holds s w m l" "rec_id m = i" and "holds s w' m' l'" "rec_id m' = i"
  shows "w = w' \<and> l = l' \<and>
    (\<exists>r. row_of (sys_table s) i = Some r \<and> col_status r = ''processing'' \<and> col_lease_until r = Some l)"
proof -
  have inv: "lease_inv rec_id i s"
    using outbox_workers.timely_execution(1) [OF assms(1)] by (simp add: lease_inv_idle unique_ids_def)
  from lease_invD(4) [OF inv assms(2,4,3,5)] lease_invD(3) [OF inv assms(2,3)] lease_invD(3) [OF inv assms(4,5)]
  show ?thesis by auto
qed

text \<open>Property C8: a published or failed row is final in every interleaving in which no outcome of that row
  is recorded after its lease: whatever workers and producers do afterwards, it is never written
  again, and no worker holds it under a running lease, so that its publication is recorded once.\<close>

theorem outbox_finished_final:
  assumes "(outbox_timely_step i)\<^sup>*\<^sup>* (idle_system t []) s" and "(outbox_timely_step i)\<^sup>*\<^sup>* s s'"
    and r: "row_of (sys_table s) i = Some r" "col_status r \<in> {''published'', ''failed''}"
  shows "row_of (sys_table s') i = Some r \<and> (\<forall>w m l. holds s' w m l \<longrightarrow> rec_id m \<noteq> i)"
proof -
  have inv: "lease_inv rec_id i s"
    using outbox_workers.timely_execution(1) [OF assms(1)] by (simp add: lease_inv_idle unique_ids_def)
  have "\<not> unfinished r" using r(2) by (auto simp: unfinished_def)
  with outbox_workers.timely_execution(2) [OF assms(2) inv r(1)] have r': "row_of (sys_table s') i = Some r" by blast
  have "rec_id m \<noteq> i" if "holds s' w m l" for w m l
    using lease_invD(3) [OF outbox_workers.timely_execution(1) [OF assms(2) inv] that] r' r(2) by auto
  with r' show ?thesis by blast
qed

section \<open>Inbox workers\<close>

inductive inbox_added :: "inbox_table \<Rightarrow> inbox_table \<Rightarrow> bool" where
  "db_session ex \<Longrightarrow> InboxStore_save_received cfg ex i (utc t) source env tbl = Inr (out, tbl') \<Longrightarrow> inbox_added tbl tbl'"

inductive inbox_pass :: "int \<Rightarrow> inbox_table \<Rightarrow> InboxMessageRecord list \<Rightarrow> int \<Rightarrow> inbox_table \<Rightarrow> bool" where
  ordered: "db_session ex \<Longrightarrow> InboxStore_reclaim_expired ex (utc t) tbl = Inr (n, tbl1) \<Longrightarrow>
   InboxStore_claim_ready cfg ex (utc t) tbl1 = Inr (ms, tbl2) \<Longrightarrow>
   inbox_pass t tbl ms (t + lease_duration cfg) tbl2"
| unordered: "db_session ex \<Longrightarrow> InboxStore_reclaim_expired ex (utc t) tbl = Inr (n, tbl1) \<Longrightarrow>
   InboxStore_claim_ready_unordered cfg ex (utc t) tbl1 = Inr (ms, tbl2) \<Longrightarrow>
   inbox_pass t tbl ms (t + lease_duration cfg) tbl2"

inductive inbox_settled :: "InboxMessageRecord \<Rightarrow> inbox_table \<Rightarrow> inbox_table \<Rightarrow> bool" where
  "(\<And>j. db_session (conn j)) \<Longrightarrow> (\<And>j. is_aware (clock j)) \<Longrightarrow>
   InboxRunner_row fpow cfg runner conn clock k m s tbl = Inr (s', tbl') \<Longrightarrow> inbox_settled m tbl tbl'"

type_synonym inbox_workers = "(inbox_table, InboxMessageRecord) worker_system"

abbreviation inbox_worker_step :: "InboxMessageRecord worker_event \<Rightarrow> inbox_workers \<Rightarrow> inbox_workers \<Rightarrow> bool" where
  "inbox_worker_step \<equiv> worker_step inbox_added inbox_pass inbox_settled"

abbreviation inbox_any_step :: "inbox_workers \<Rightarrow> inbox_workers \<Rightarrow> bool" where
  "inbox_any_step \<equiv> any_step inbox_added inbox_pass inbox_settled"

abbreviation inbox_timely_step :: "uuid \<Rightarrow> inbox_workers \<Rightarrow> inbox_workers \<Rightarrow> bool" where
  "inbox_timely_step i \<equiv> timely_step rec_id i inbox_added inbox_pass inbox_settled"

lemma inbox_settled_one_row: "inbox_settled m tbl tbl' \<Longrightarrow> one_row_update (rec_id m) tbl tbl'"
  by (erule inbox_settled.cases) (metis inbox_row_one_row)

lemma inbox_added_cases:
  assumes "inbox_added tbl tbl'"
  shows "tbl' = tbl \<or> (\<exists>r. tbl' = tbl @ [r] \<and> col_id r \<notin> col_id ` set tbl)"
  using assms
proof cases
  case (1 ex cfg i t source env out)
  then show ?thesis using save_received_cases [OF session_driver(1) [OF 1(1)] 1(2)] by (auto simp: inbox_conflict_def)
qed

interpretation inbox_workers: worker_queue rec_id inbox_added inbox_pass inbox_settled
proof (unfold_locales, goal_cases)
  case (1 tbl tbl')
  then show ?case using inbox_added_cases [OF 1(1)] by (auto simp: unique_ids_def)
next
  case (2 tbl tbl' i r)
  then show ?case using inbox_added_cases [OF 2(1)] by (auto simp: row_of_append)
next
  case (3 t tbl ms l tbl')
  from 3(1) show ?case
  proof cases
    case (ordered ex n tbl1 cfg)
    then show ?thesis using inbox_queue.pass_effect 3(2) by blast
  next
    case (unordered ex n tbl1 cfg)
    then show ?thesis using inbox_unordered.pass_effect 3(2) by blast
  qed
next
  case (4 m tbl tbl')
  then show ?case by (rule inbox_settled_one_row)
qed

text \<open>Property C12: inbox workers, ordered and unordered alike, never lose a received message, in any
  interleaving, outcomes recorded after the lease included.  In the interleavings in which the outcomes
  of row \<open>i\<close> are recorded within its lease, one worker at a time holds the row under a running lease,
  and once processed or failed the row is never written again.\<close>

theorem inbox_workers_safe:
  assumes "inbox_any_step\<^sup>*\<^sup>* (idle_system t []) s" and "inbox_any_step\<^sup>*\<^sup>* s s'"
    and r: "row_of (sys_table s) i = Some r"
  shows "row_of (sys_table s') i \<noteq> None
    \<and> ((inbox_timely_step i)\<^sup>*\<^sup>* (idle_system t []) s \<longrightarrow> (inbox_timely_step i)\<^sup>*\<^sup>* s s' \<longrightarrow>
        (col_status r \<in> {''processed'', ''failed''} \<longrightarrow> row_of (sys_table s') i = Some r)
      \<and> (\<forall>w m l w' m' l'. holds s' w m l \<longrightarrow> holds s' w' m' l' \<longrightarrow> rec_id m = i \<longrightarrow> rec_id m' = i \<longrightarrow> w = w' \<and> l = l'))"
proof (intro conjI impI allI)
  have "unique_ids (sys_table s)" using inbox_workers.execution(1) [OF assms(1)] by (simp add: idle_system_def unique_ids_def)
  then show "row_of (sys_table s') i \<noteq> None" using inbox_workers.execution(2) [OF assms(2)] r by simp
next
  assume timely: "(inbox_timely_step i)\<^sup>*\<^sup>* (idle_system t []) s" "(inbox_timely_step i)\<^sup>*\<^sup>* s s'"
  have inv: "lease_inv rec_id i s"
    using inbox_workers.timely_execution(1) [OF timely(1)] by (simp add: lease_inv_idle unique_ids_def)
  note inv' = inbox_workers.timely_execution(1) [OF timely(2) inv]
  show "row_of (sys_table s') i = Some r" if "col_status r \<in> {''processed'', ''failed''}"
    using inbox_workers.timely_execution(2) [OF timely(2) inv r] that by (auto simp: unfinished_def)
  fix w m l w' m' l'
  assume h: "holds s' w m l" "holds s' w' m' l'" "rec_id m = i" "rec_id m' = i"
  show "w = w'" using lease_invD(4) [OF inv' h] .
  show "l = l'" using lease_invD(3) [OF inv' h(1,3)] lease_invD(3) [OF inv' h(2,4)] by auto
qed

section \<open>A worker that is too slow\<close>

text \<open>
  One message and two workers.  The first claims it and takes longer than its lease; the second
  reclaims it and publishes it.
\<close>

definition example_message :: outbox_row where
  "example_message = pending_outbox_row default_PactixConfig 9 5 example_envelope"

definition first_claim :: outbox_row where
  "first_claim = set_claimed 30000005 5 example_message"

definition second_claim :: outbox_row where
  "second_claim = set_claimed 70000000 40000000 (set_reclaimed 40000000 first_claim)"

abbreviation "claimed_view \<equiv> outbox_view example_postgres OutboxStatus.PROCESSING"

definition one_holds :: "(outbox_table, OutboxMessageRecord) worker_system" where
  "one_holds = \<lparr>sys_now = 5, sys_table = [first_claim], sys_held = (\<lambda>_. [])(0 := [(claimed_view first_claim, 30000005)])\<rparr>"

definition both_hold :: "(outbox_table, OutboxMessageRecord) worker_system" where
  "both_hold = \<lparr>sys_now = 40000000, sys_table = [second_claim],
     sys_held = (\<lambda>_. [])(0 := [(claimed_view first_claim, 30000005)], 1 := [(claimed_view second_claim, 70000000)])\<rparr>"

definition one_published :: "(outbox_table, OutboxMessageRecord) worker_system" where
  "one_published = \<lparr>sys_now = 40000000, sys_table = [set_published 50 second_claim],
     sys_held = (\<lambda>_. [])(0 := [(claimed_view first_claim, 30000005)])\<rparr>"

lemma example_message_simps [simp]:
  "col_id example_message = 9" "col_status example_message = ''pending''" "col_available_at example_message = 5"
  "col_attempts example_message = 0" "col_max_attempts example_message = 10"
  by (simp_all add: example_message_def pending_outbox_row_def default_PactixConfig_def default_RetryPolicy_def)

lemma claim_single:
  assumes "col_status q = ''pending''" "col_available_at q \<le> t"
  shows "OutboxStore_claim_ready default_PactixConfig example_postgres (utc t) [q] =
    Inr ([claimed_view (set_claimed (t + 30000000) t q)], [set_claimed (t + 30000000) t q])"
proof -
  have "select_skip_locked example_postgres (outbox_claimable example_postgres t [q]) col_created_at
      (outbox_batch_size default_PactixConfig) [q] = Inr [q]"
    using assms
    by (simp add: select_skip_locked_def select_order_by_def outbox_claimable_def default_PactixConfig_def example_postgres_def)
  from claim_ready_selected [OF _ _ this] show ?thesis
    by (auto simp: unique_ids_def default_PactixConfig_def update_where_def)
qed

lemma settled_published:
  "outbox_settled m tbl (update_where (\<lambda>r. col_id r = rec_id m) (set_published 50) tbl)"
  by (rule outbox_settled.intros [where conn = "\<lambda>_. example_postgres" and clock = "\<lambda>_. utc 50"
      and publish = "\<lambda>_ _. Inr PublishOutcome_published"])
    (simp_all add: OutboxRunner_row_def OutboxRunner_record_def outcome_tests outcome_defs mark_published_eq)

lemma settled_retry:
  assumes "rec_attempts m + 1 < rec_max_attempts m"
  obtains f where "outbox_settled m tbl (update_where (\<lambda>r. col_id r = rec_id m) f tbl)"
    and "\<And>r. col_status (f r) = ''pending''" "\<And>r. col_id (f r) = col_id r"
proof -
  have pol: "pow_nonneg example_pow (rp_multiplier (retry_policy default_PactixConfig))"
    "sane_intervals (retry_policy default_PactixConfig)"
    using example_pass_env by (simp_all add: pass_env_def sane_policy_def)
  obtain us where us: "handle_retryable_failure example_pow (retry_policy default_PactixConfig)
      (OutboxStore_mark_retry example_postgres (utc 60)) (OutboxStore_mark_failed example_postgres (utc 60))
      (rec_id m) (rec_attempts m) (rec_max_attempts m) ''busy'' (utc 60) tbl
    = Inr (RETRY_SCHEDULED, update_where (\<lambda>r. col_id r = rec_id m) (set_retry ''busy'' (60 + us) 60) tbl)"
    by (rule outbox_retry.handle_retried [OF _ _ _ assms pol, of example_postgres "utc 60" "utc 60" "rec_id m" "''busy''" tbl]) simp_all
  have "outbox_settled m tbl (update_where (\<lambda>r. col_id r = rec_id m) (set_retry ''busy'' (60 + us) 60) tbl)"
    by (rule outbox_settled.intros [where conn = "\<lambda>_. example_postgres" and clock = "\<lambda>_. utc 60" and fpow = example_pow
        and cfg = default_PactixConfig and publish = "\<lambda>_ _. Inr (PublishOutcome_retryable ''busy'')"])
      (simp_all add: OutboxRunner_row_def OutboxRunner_record_def outcome_tests outcome_defs or_empty_def us)
  then show thesis using that by simp
qed

lemma one_holds_reached: "(outbox_timely_step i)\<^sup>*\<^sup>* (idle_system 5 []) one_holds"
proof -
  have "outbox_added [] [example_message]"
    by (rule outbox_added.intros [OF _ example_append [folded example_message_def]]) simp
  then have "outbox_worker_step Added (idle_system 5 []) (idle_system 5 [example_message])"
    using worker_step.added [of outbox_added "idle_system 5 []"] by (simp add: idle_system_def)
  then have "outbox_timely_step i (idle_system 5 []) (idle_system 5 [example_message])" by (rule timely_stepI) simp
  moreover have "outbox_pass 5 [example_message] [claimed_view first_claim] 30000005 [first_claim]"
    using outbox_pass.intros [of example_postgres 5 "[example_message]" 0 "[example_message]" default_PactixConfig]
      claim_single [of example_message 5]
    by (simp add: outbox_queue.reclaim_eq rowcount_def update_where_def lease_expired_def first_claim_def default_PactixConfig_def)
  then have "outbox_worker_step (Claimed 0) (idle_system 5 [example_message]) one_holds"
    using worker_step.claimed [of "idle_system 5 [example_message]" 0 5 outbox_pass "[claimed_view first_claim]" 30000005]
    by (simp add: idle_system_def one_holds_def)
  then have "outbox_timely_step i (idle_system 5 [example_message]) one_holds" by (rule timely_stepI) simp
  ultimately show ?thesis by auto
qed

lemma both_hold_reached: "(outbox_timely_step i)\<^sup>*\<^sup>* one_holds both_hold"
proof -
  have "outbox_timely_step i one_holds (one_holds\<lparr>sys_now := 40000000\<rparr>)"
    by (rule timely_stepI [OF worker_step.ticked]) (simp_all add: one_holds_def)
  moreover have "outbox_pass 40000000 [first_claim] [claimed_view second_claim] 70000000 [second_claim]"
    using outbox_pass.intros [of example_postgres 40000000 "[first_claim]" 1 "[set_reclaimed 40000000 first_claim]" default_PactixConfig]
      claim_single [of "set_reclaimed 40000000 first_claim" 40000000]
    by (simp add: outbox_queue.reclaim_eq rowcount_def update_where_def lease_expired_def second_claim_def first_claim_def
        set_defs default_PactixConfig_def)
  then have "outbox_worker_step (Claimed 1) (one_holds\<lparr>sys_now := 40000000\<rparr>) both_hold"
    using worker_step.claimed [of "one_holds\<lparr>sys_now := 40000000\<rparr>" 1 40000000 outbox_pass "[claimed_view second_claim]" 70000000]
    by (simp add: one_holds_def both_hold_def)
  then have "outbox_timely_step i (one_holds\<lparr>sys_now := 40000000\<rparr>) both_hold" by (rule timely_stepI) simp
  ultimately show ?thesis by auto
qed

lemma second_claim_simps [simp]: "col_id second_claim = 9" "col_id first_claim = 9"
  by (simp_all add: second_claim_def first_claim_def)

lemma one_published_reached: "(outbox_timely_step i)\<^sup>*\<^sup>* both_hold one_published"
proof -
  have "outbox_settled (claimed_view second_claim) [second_claim] [set_published 50 second_claim]"
    using settled_published [of "claimed_view second_claim" "[second_claim]"] by (simp add: update_where_def)
  then have "outbox_timely_step i both_hold (both_hold\<lparr>sys_table := [set_published 50 second_claim], sys_held := (sys_held both_hold)(1 := [])\<rparr>)"
    by (intro timely_stepI [OF worker_step.settled [where l = 70000000 and m = "claimed_view second_claim"]]) (simp_all add: both_hold_def)
  moreover have "both_hold\<lparr>sys_table := [set_published 50 second_claim], sys_held := (sys_held both_hold)(1 := [])\<rparr> = one_published"
    by (auto simp: both_hold_def one_published_def)
  ultimately show ?thesis by auto
qed

lemma rec_claimed_view [simp]: "rec_attempts (claimed_view r) = col_attempts r" "rec_max_attempts (claimed_view r) = col_max_attempts r"
  by (simp_all add: outbox_view_def)

text \<open>Property C32: why the lease matters: the marking statements select by id alone.  There is an
  execution, timely for every row up to its last step, in which a row is published, and the worker whose
  lease ran out then records a retryable failure: the published row is pending again and will be
  published a second time.\<close>

theorem outbox_overrun_reopens:
  "\<exists>s s' r r' w m l. (\<forall>i. (outbox_timely_step i)\<^sup>*\<^sup>* (idle_system 5 []) s)
     \<and> row_of (sys_table s) 9 = Some r \<and> col_status r = ''published''
     \<and> l < sys_now s \<and> outbox_worker_step (Settled w m l) s s'
     \<and> row_of (sys_table s') 9 = Some r' \<and> col_status r' = ''pending''"
proof -
  have reach: "(outbox_timely_step i)\<^sup>*\<^sup>* (idle_system 5 []) one_published" for i
    using one_holds_reached [of i] both_hold_reached [of i] one_published_reached [of i] by simp
  obtain f where f: "outbox_settled (claimed_view first_claim) [set_published 50 second_claim] [f (set_published 50 second_claim)]"
    "\<And>r. col_status (f r) = ''pending''" "\<And>r. col_id (f r) = col_id r"
    using settled_retry [of "claimed_view first_claim" "[set_published 50 second_claim]"]
    by (auto simp: update_where_def first_claim_def)
  let ?s = "one_published\<lparr>sys_table := [f (set_published 50 second_claim)], sys_held := (sys_held one_published)(0 := [])\<rparr>"
  have "outbox_worker_step (Settled 0 (claimed_view first_claim) 30000005) one_published ?s"
    by (rule worker_step.settled) (simp_all add: one_published_def f(1))
  moreover have "30000005 < sys_now one_published" by (simp add: one_published_def)
  moreover have "row_of (sys_table one_published) 9 = Some (set_published 50 second_claim)"
    "row_of (sys_table ?s) 9 = Some (f (set_published 50 second_claim))"
    by (simp_all add: row_of_def one_published_def f(3))
  moreover have "col_status (set_published 50 second_claim) = ''published''" by (simp add: set_published_def)
  ultimately show ?thesis using reach f(2) by blast
qed

theorem outbox_workers_exclusive_witness:
  "\<exists>s m l r. (outbox_timely_step 9)\<^sup>*\<^sup>* (idle_system 5 []) s \<and> holds s 1 m l \<and> rec_id m = 9
     \<and> row_of (sys_table s) 9 = Some r \<and> col_status r = ''processing'' \<and> col_lease_until r = Some l"
proof -
  have reach: "(outbox_timely_step 9)\<^sup>*\<^sup>* (idle_system 5 []) both_hold"
    using one_holds_reached [of 9] both_hold_reached [of 9] by simp
  have h: "holds both_hold 1 (claimed_view second_claim) 70000000" "rec_id (claimed_view second_claim) = 9"
    by (simp_all add: holds_def both_hold_def)
  obtain r where "row_of (sys_table both_hold) 9 = Some r" "col_status r = ''processing''" "col_lease_until r = Some 70000000"
    using outbox_workers_exclusive [OF reach h h] by auto
  then show ?thesis using reach h by blast
qed

theorem outbox_finished_final_witness:
  "\<exists>s s' r. (outbox_timely_step 9)\<^sup>*\<^sup>* (idle_system 5 []) s \<and> (outbox_timely_step 9)\<^sup>*\<^sup>* s s' \<and> sys_now s' = 90000000
     \<and> row_of (sys_table s') 9 = Some r \<and> col_status r = ''published''"
proof -
  have reach: "(outbox_timely_step 9)\<^sup>*\<^sup>* (idle_system 5 []) one_published"
    using one_holds_reached [of 9] both_hold_reached [of 9] one_published_reached [of 9] by simp
  have later: "(outbox_timely_step 9)\<^sup>*\<^sup>* one_published (one_published\<lparr>sys_now := 90000000\<rparr>)"
    by (rule r_into_rtranclp, rule timely_stepI [OF worker_step.ticked]) (simp_all add: one_published_def)
  have "row_of (sys_table one_published) 9 = Some (set_published 50 second_claim)" by (simp add: row_of_def one_published_def)
  moreover have st: "col_status (set_published 50 second_claim) = ''published''" by (simp add: set_published_def)
  ultimately have "row_of (sys_table (one_published\<lparr>sys_now := 90000000\<rparr>)) 9 = Some (set_published 50 second_claim)"
    using outbox_finished_final [OF reach later] by simp
  moreover have "sys_now (one_published\<lparr>sys_now := 90000000\<rparr>) = 90000000" by simp
  ultimately show ?thesis using reach later st by blast
qed

theorem inbox_workers_safe_witness:
  "\<exists>s s' r m l. inbox_any_step\<^sup>*\<^sup>* (idle_system 60 []) s \<and> inbox_any_step\<^sup>*\<^sup>* s s' \<and> sys_now s' = 90
     \<and> row_of (sys_table s) 9 = Some r \<and> row_of (sys_table s') 9 \<noteq> None
     \<and> holds s' 3 m l \<and> rec_id m = 9 \<and> (\<forall>w. holds s' w m l \<longleftrightarrow> w = 3)"
proof -
  let ?row = "pending_inbox_row default_PactixConfig 9 60 ''billing'' (example_receipt ''m-9'')"
  have "\<exists>out. InboxStore_save_received default_PactixConfig example_postgres 9 (utc 60) ''billing''
      (example_receipt ''m-9'') [] = Inr (out, [?row])"
    using save_received_fresh [of example_postgres "''billing''" "example_receipt ''m-9''" default_PactixConfig 9 60 "[]"]
    by (auto simp: is_space_def code_point_def)
  then have added: "inbox_added [] [?row]" using inbox_added.intros [of example_postgres] by auto
  define s :: inbox_workers where "s = idle_system 60 [?row]"
  have row: "col_id ?row = 9" "col_status ?row = ''pending''" "unique_ids [?row]"
    by (simp_all add: pending_inbox_row_def unique_ids_def)
  obtain ms tbl where c: "InboxStore_claim_ready default_PactixConfig example_postgres (utc 90) [?row] = Inr (ms, tbl)" "ms \<noteq> []"
    using inbox_queue.claim_progress [of example_postgres "[?row]" default_PactixConfig ?row 90] row
    by (auto simp: inbox_claimable_fifo_def pending_inbox_row_def default_PactixConfig_def)
  define m where "m = hd ms"
  have m: "m \<in> set ms" "rec_id m = 9"
    using c(2) inbox_queue.claim_effect(7) [OF _ row(3) c(1)] row(1) by (auto simp: m_def dest: hd_in_set)
  have pass: "inbox_pass 90 [?row] ms 30000090 tbl"
    using inbox_pass.ordered [of example_postgres 90 "[?row]" 0 "[?row]" default_PactixConfig ms tbl] c(1) row(2)
    by (simp add: inbox_queue.reclaim_eq rowcount_def update_where_def lease_expired_def default_PactixConfig_def)
  let ?s1 = "s\<lparr>sys_now := 90\<rparr>"
  let ?s' = "?s1\<lparr>sys_table := tbl, sys_held := (sys_held ?s1)(3 := map (\<lambda>m. (m, 30000090)) ms)\<rparr>"
  have steps: "inbox_worker_step Added (idle_system 60 []) s" "inbox_worker_step Ticked s ?s1" "inbox_worker_step (Claimed 3) ?s1 ?s'"
    using worker_step.added [of inbox_added "idle_system 60 []"] added
      worker_step.ticked [of s 90 inbox_added inbox_pass inbox_settled]
      worker_step.claimed [of ?s1 3 90 inbox_pass ms 30000090 tbl inbox_added inbox_settled] pass
    by (auto simp: s_def idle_system_def)
  then have timely: "(inbox_timely_step 9)\<^sup>*\<^sup>* (idle_system 60 []) s" "(inbox_timely_step 9)\<^sup>*\<^sup>* s ?s'"
    using timely_stepI [OF steps(1), of rec_id 9] timely_stepI [OF steps(2), of rec_id 9] timely_stepI [OF steps(3), of rec_id 9]
    by auto
  then have reach: "inbox_any_step\<^sup>*\<^sup>* (idle_system 60 []) s" "inbox_any_step\<^sup>*\<^sup>* s ?s'"
    by (auto elim: rtranclp_mono [THEN predicate2D, rotated] intro: timely_any)
  have at9: "row_of (sys_table s) 9 = Some ?row" by (simp add: s_def idle_system_def row_of_def row(1))
  note safe = inbox_workers_safe [OF reach at9]
  have "holds ?s' 3 m 30000090" using m(1) by (simp add: holds_def)
  moreover from this have "holds ?s' w m 30000090 \<longleftrightarrow> w = 3" for w using safe timely m(2) by blast
  moreover have "sys_now ?s' = 90" by simp
  ultimately show ?thesis using reach at9 safe m(2) by blast
qed

end
