(* ===== verification/Delivery.thy ===== *)
theory Delivery
  imports OutboxRunner
begin

text \<open>
  From one service's outbox to another service's inbox.  A sender's workers append, claim, publish
  and record in any interleaving, with crashes, retries and outcomes recorded late; between them
  and the receiving table lies a transport.  The locale \<open>carrier\<close> is what a transport promises:
  once a publish call has answered \<^verbatim>\<open>published\<close>, the message has arrived, and stays so.  HTTP and Kafka
  interpret it, and what was published is then received exactly once.
\<close>

section \<open>The sending side\<close>

text \<open>The message a row and a record carry.\<close>

definition carries :: "outbox_row \<Rightarrow> MessageEnvelope \<Rightarrow> bool" where
  "carries r env \<longleftrightarrow>
     col_message_id r = md_message_id (env_metadata env) \<and> col_event_type r = md_event_type (env_metadata env) \<and>
     col_message_key r = md_message_key (env_metadata env) \<and> col_ordering_key r = md_ordering_key (env_metadata env) \<and>
     col_correlation_id r = md_correlation_id (env_metadata env) \<and> col_payload r = env_payload env \<and>
     col_headers r = dict_sorted (md_headers (env_metadata env))"

definition carried :: "OutboxMessageRecord \<Rightarrow> MessageEnvelope \<Rightarrow> bool" where
  "carried m env \<longleftrightarrow>
     rec_message_id m = md_message_id (env_metadata env) \<and> rec_event_type m = md_event_type (env_metadata env) \<and>
     rec_message_key m = md_message_key (env_metadata env) \<and> rec_ordering_key m = md_ordering_key (env_metadata env) \<and>
     rec_correlation_id m = md_correlation_id (env_metadata env) \<and> rec_payload m = env_payload env \<and>
     wf_dict (rec_headers m) \<and> map_of (rec_headers m) = map_of (md_headers (env_metadata env))"

lemma carried_view:
  assumes "db_session ex" "carries r env" "wf_dict (md_headers (env_metadata env))"
  shows "carried (outbox_view ex st r) env"
  using assms db_session_json [OF assms(1)]
  by (auto simp: carried_def carries_def outbox_view_def json_faithful_def map_of_dict_sorted)

text \<open>
  The sending service and what is behind its transport: the outbox table, the records that were
  ever claimed, the answers of publish calls that may still be recorded, and the world the
  transport reaches.
\<close>

record 'w delivery =
  dl_outbox :: outbox_table
  dl_claimed :: "OutboxMessageRecord set"
  dl_answers :: "(OutboxMessageRecord \<times> PublishOutcome) set"
  dl_world :: 'w

definition idle_delivery :: "'w \<Rightarrow> 'w delivery" where
  "idle_delivery w = \<lparr>dl_outbox = [], dl_claimed = {}, dl_answers = {}, dl_world = w\<rparr>"

text \<open>
  One step.  \<open>attempt\<close> is a publish call with its answer, \<open>world\<close> a step of the receiving side.  A record
  may be attempted at any time after its claim and any number of times, and an answer recorded
  late, more than once or never.
\<close>

inductive delivery_step ::
  "(OutboxMessageRecord \<Rightarrow> 'w \<Rightarrow> error + PublishOutcome \<Rightarrow> 'w \<Rightarrow> bool) \<Rightarrow> ('w \<Rightarrow> 'w \<Rightarrow> bool) \<Rightarrow> (MessageEnvelope \<Rightarrow> bool)
   \<Rightarrow> executor \<Rightarrow> 'w delivery \<Rightarrow> 'w delivery \<Rightarrow> bool"
  for attempt world sendable ex where
  appended: "sendable env \<Longrightarrow> OutboxStore_append cfg ex i (utc t) env (dl_outbox s) = Inr (rec, tbl) \<Longrightarrow>
    delivery_step attempt world sendable ex s (s\<lparr>dl_outbox := tbl\<rparr>)"
| claimed: "OutboxStore_reclaim_expired ex (utc t) (dl_outbox s) = Inr (n, tbl1) \<Longrightarrow>
    OutboxStore_claim_ready cfg ex (utc t) tbl1 = Inr (ms, tbl2) \<Longrightarrow>
    delivery_step attempt world sendable ex s (s\<lparr>dl_outbox := tbl2, dl_claimed := dl_claimed s \<union> set ms\<rparr>)"
| answered: "m \<in> dl_claimed s \<Longrightarrow> attempt m (dl_world s) (Inr outcome) w \<Longrightarrow>
    delivery_step attempt world sendable ex s (s\<lparr>dl_answers := insert (m, outcome) (dl_answers s), dl_world := w\<rparr>)"
| raised: "m \<in> dl_claimed s \<Longrightarrow> attempt m (dl_world s) (Inl e) w \<Longrightarrow>
    delivery_step attempt world sendable ex s (s\<lparr>dl_world := w\<rparr>)"
| recorded: "(m, outcome) \<in> dl_answers s \<Longrightarrow> is_aware t1 \<Longrightarrow> is_aware t2 \<Longrightarrow>
    OutboxRunner_record fpow cfg ex t1 t2 m outcome summary (dl_outbox s) = Inr (summary', tbl) \<Longrightarrow>
    delivery_step attempt world sendable ex s (s\<lparr>dl_outbox := tbl\<rparr>)"
| received: "world (dl_world s) w \<Longrightarrow> delivery_step attempt world sendable ex s (s\<lparr>dl_world := w\<rparr>)"

section \<open>What the sender's tables keep\<close>

text \<open>The columns no call changes after the insertion.\<close>

definition content_of ::
  "outbox_row \<Rightarrow> uuid \<times> string \<times> string \<times> string option \<times> string option \<times> string option \<times> json \<times> pydict" where
  "content_of r = (col_id r, col_message_id r, col_event_type r, col_message_key r, col_ordering_key r,
     col_correlation_id r, col_payload r, col_headers r)"

lemma content_set [simp]:
  "content_of (set_claimed l n r) = content_of r" "content_of (set_reclaimed n r) = content_of r"
  "content_of (set_retry e a n r) = content_of r" "content_of (set_failed e n r) = content_of r"
  "content_of (set_published n r) = content_of r"
  by (simp_all add: content_of_def set_defs set_published_def)

lemma content_carries: "content_of r' = content_of r \<Longrightarrow> carries r' env = carries r env"
  by (simp add: content_of_def carries_def)

text \<open>No row comes or goes, and only rows that satisfy \<open>Q\<close> may become published.\<close>

definition rows_kept :: "(outbox_row \<Rightarrow> bool) \<Rightarrow> outbox_table \<Rightarrow> outbox_table \<Rightarrow> bool" where
  "rows_kept Q tbl tbl' \<longleftrightarrow>
     (\<forall>r' \<in> set tbl'. \<exists>r \<in> set tbl. content_of r' = content_of r \<and>
        (col_status r' = ''published'' \<longrightarrow> col_status r = ''published'' \<or> Q r)) \<and>
     (\<forall>r \<in> set tbl. \<exists>r' \<in> set tbl'. content_of r' = content_of r)"

lemma rows_kept_update:
  assumes "\<And>r. content_of (f r) = content_of r" and "\<And>r. p r \<Longrightarrow> col_status (f r) = ''published'' \<Longrightarrow> Q r"
  shows "rows_kept Q tbl (update_where p f tbl)"
  unfolding rows_kept_def
proof (intro conjI ballI)
  fix r'
  assume "r' \<in> set (update_where p f tbl)"
  then show "\<exists>r \<in> set tbl. content_of r' = content_of r \<and>
      (col_status r' = ''published'' \<longrightarrow> col_status r = ''published'' \<or> Q r)"
    by (cases rule: update_where_cases) (use assms in auto)
next
  fix r
  assume "r \<in> set tbl"
  then show "\<exists>r' \<in> set (update_where p f tbl). content_of r' = content_of r"
    using assms(1) by (intro bexI [of _ "if p r then f r else r"]) (auto simp: set_update_where)
qed

lemma rows_kept_trans:
  assumes "rows_kept (\<lambda>_. False) tbl tbl1" "rows_kept (\<lambda>_. False) tbl1 tbl2"
  shows "rows_kept (\<lambda>_. False) tbl tbl2"
  unfolding rows_kept_def
proof (intro conjI ballI)
  fix r2
  assume "r2 \<in> set tbl2"
  then obtain r1 where "r1 \<in> set tbl1" "content_of r2 = content_of r1" "col_status r2 = ''published'' \<longrightarrow> col_status r1 = ''published''"
    using assms(2) unfolding rows_kept_def by blast
  moreover from this(1) obtain r where "r \<in> set tbl" "content_of r1 = content_of r"
      "col_status r1 = ''published'' \<longrightarrow> col_status r = ''published''"
    using assms(1) unfolding rows_kept_def by blast
  ultimately show "\<exists>r \<in> set tbl. content_of r2 = content_of r \<and>
      (col_status r2 = ''published'' \<longrightarrow> col_status r = ''published'' \<or> False)" by auto
next
  fix r
  assume "r \<in> set tbl"
  then obtain r1 where "r1 \<in> set tbl1" "content_of r1 = content_of r" using assms(1) unfolding rows_kept_def by blast
  moreover from this(1) obtain r2 where "r2 \<in> set tbl2" "content_of r2 = content_of r1"
    using assms(2) unfolding rows_kept_def by blast
  ultimately show "\<exists>r2 \<in> set tbl2. content_of r2 = content_of r" by auto
qed

lemma pass_rows_kept:
  assumes ex: "db_session ex" and u: "unique_ids tbl"
    and "OutboxStore_reclaim_expired ex (utc t) tbl = Inr (n, tbl1)"
    and "OutboxStore_claim_ready cfg ex (utc t) tbl1 = Inr (ms, tbl2)"
  shows "rows_kept (\<lambda>_. False) tbl tbl2"
proof (rule rows_kept_trans)
  have tbl1: "tbl1 = update_where (lease_expired t) (set_reclaimed t) tbl"
    using assms(3) by (simp add: outbox_queue.reclaim_eq [OF ex])
  then show "rows_kept (\<lambda>_. False) tbl tbl1" by (auto intro!: rows_kept_update)
  have "unique_ids tbl1" using u by (simp add: tbl1)
  from outbox_queue.claim_selects [OF ex this assms(4)]
  show "rows_kept (\<lambda>_. False) tbl1 tbl2" by (auto intro!: rows_kept_update)
qed

lemma record_rows_kept:
  assumes "db_session ex" "is_aware t1" "is_aware t2"
    and "OutboxRunner_record fpow cfg ex t1 t2 m outcome s tbl = Inr (s', tbl')"
  shows "rows_kept (\<lambda>r. col_id r = rec_id m \<and> PublishOutcome_is_published outcome) tbl tbl'"
  using assms by (cases rule: outbox_record_cases) (auto intro!: rows_kept_update)

lemma record_invariant:
  assumes "db_session ex" "is_aware t1" "is_aware t2" "outbox_invariant ex tbl"
    and "OutboxRunner_record fpow cfg ex t1 t2 m outcome s tbl = Inr (s', tbl')"
  shows "outbox_invariant ex tbl'"
  using assms(1-3,5) by (cases rule: outbox_record_cases) (simp_all add: outbox_invariant_set assms(4))

section \<open>The contract of a transport\<close>

locale carrier =
  fixes attempt :: "OutboxMessageRecord \<Rightarrow> 'w \<Rightarrow> error + PublishOutcome \<Rightarrow> 'w \<Rightarrow> bool"
    and world :: "'w \<Rightarrow> 'w \<Rightarrow> bool"
    and sound :: "'w \<Rightarrow> bool"
    and sendable :: "MessageEnvelope \<Rightarrow> bool"
    and arrived :: "string \<Rightarrow> 'w \<Rightarrow> bool"
  assumes attempt_sound: "sound w \<Longrightarrow> sendable env \<Longrightarrow> carried m env \<Longrightarrow> attempt m w res w' \<Longrightarrow> sound w'"
    and world_sound: "sound w \<Longrightarrow> world w w' \<Longrightarrow> sound w'"
    and attempt_keeps: "sound w \<Longrightarrow> attempt m w res w' \<Longrightarrow> arrived i w \<Longrightarrow> arrived i w'"
    and world_keeps: "sound w \<Longrightarrow> world w w' \<Longrightarrow> arrived i w \<Longrightarrow> arrived i w'"
    and attempt_arrives: "sound w \<Longrightarrow> sendable env \<Longrightarrow> carried m env \<Longrightarrow> attempt m w (Inr outcome) w' \<Longrightarrow>
      PublishOutcome_is_published outcome \<Longrightarrow> arrived (rec_message_id m) w'"
    and sendable_headers: "sendable env \<Longrightarrow> wf_dict (md_headers (env_metadata env))"
begin

text \<open>Rows and records carry sendable messages, and what counts as published has arrived.\<close>

definition delivery_inv :: "executor \<Rightarrow> 'w delivery \<Rightarrow> bool" where
  "delivery_inv ex s \<longleftrightarrow> sound (dl_world s) \<and> outbox_invariant ex (dl_outbox s) \<and>
     (\<forall>r \<in> set (dl_outbox s). (\<exists>env. sendable env \<and> carries r env) \<and>
        (col_status r = ''published'' \<longrightarrow> arrived (col_message_id r) (dl_world s))) \<and>
     (\<forall>m \<in> dl_claimed s. (\<exists>env. sendable env \<and> carried m env) \<and>
        (\<exists>r \<in> set (dl_outbox s). col_id r = rec_id m \<and> col_message_id r = rec_message_id m)) \<and>
     (\<forall>(m, outcome) \<in> dl_answers s. m \<in> dl_claimed s \<and>
        (PublishOutcome_is_published outcome \<longrightarrow> arrived (rec_message_id m) (dl_world s)))"

lemma delivery_invD:
  assumes "delivery_inv ex s"
  shows "sound (dl_world s)" and "outbox_invariant ex (dl_outbox s)"
    and "r \<in> set (dl_outbox s) \<Longrightarrow> \<exists>env. sendable env \<and> carries r env"
    and "r \<in> set (dl_outbox s) \<Longrightarrow> col_status r = ''published'' \<Longrightarrow> arrived (col_message_id r) (dl_world s)"
    and "m \<in> dl_claimed s \<Longrightarrow> \<exists>env. sendable env \<and> carried m env"
    and "m \<in> dl_claimed s \<Longrightarrow> \<exists>r \<in> set (dl_outbox s). col_id r = rec_id m \<and> col_message_id r = rec_message_id m"
    and "(m, outcome) \<in> dl_answers s \<Longrightarrow> m \<in> dl_claimed s"
    and "(m, outcome) \<in> dl_answers s \<Longrightarrow> PublishOutcome_is_published outcome \<Longrightarrow> arrived (rec_message_id m) (dl_world s)"
  using assms unfolding delivery_inv_def by blast+

text \<open>Steps that change the outbox only.\<close>

lemma delivery_inv_outbox:
  assumes inv: "delivery_inv ex s" and "outbox_invariant ex tbl" and kept: "rows_kept Q (dl_outbox s) tbl"
    and Q: "\<And>r. r \<in> set (dl_outbox s) \<Longrightarrow> Q r \<Longrightarrow> arrived (col_message_id r) (dl_world s)"
  shows "delivery_inv ex (s\<lparr>dl_outbox := tbl\<rparr>)"
proof -
  note old = delivery_invD [OF inv]
  have rows: "(\<exists>env. sendable env \<and> carries r' env) \<and> (col_status r' = ''published'' \<longrightarrow> arrived (col_message_id r') (dl_world s))"
    if "r' \<in> set tbl" for r'
  proof -
    obtain r where r: "r \<in> set (dl_outbox s)" "content_of r' = content_of r"
      "col_status r' = ''published'' \<longrightarrow> col_status r = ''published'' \<or> Q r"
      using kept \<open>r' \<in> set tbl\<close> unfolding rows_kept_def by blast
    then have "col_message_id r' = col_message_id r" by (simp add: content_of_def)
    then show ?thesis using r old(3) [OF r(1)] old(4) [OF r(1)] Q [OF r(1)] content_carries [OF r(2)] by auto
  qed
  have "\<exists>r \<in> set tbl. col_id r = rec_id m \<and> col_message_id r = rec_message_id m" if m: "m \<in> dl_claimed s" for m
  proof -
    obtain r where r: "r \<in> set (dl_outbox s)" "col_id r = rec_id m" "col_message_id r = rec_message_id m"
      using old(6) [OF m] by blast
    with kept obtain r' where "r' \<in> set tbl" "content_of r' = content_of r" unfolding rows_kept_def by blast
    with r show ?thesis by (intro bexI [of _ r']) (simp_all add: content_of_def)
  qed
  with rows old assms(2) show ?thesis unfolding delivery_inv_def by auto
qed

text \<open>Steps that change the world only.\<close>

lemma delivery_inv_world:
  assumes inv: "delivery_inv ex s" and "sound w" and "\<And>i. arrived i (dl_world s) \<Longrightarrow> arrived i w"
  shows "delivery_inv ex (s\<lparr>dl_world := w\<rparr>)"
  using delivery_invD [OF inv] assms(2,3) unfolding delivery_inv_def by auto

lemma delivery_inv_append:
  assumes ex: "db_session ex" and inv: "delivery_inv ex s" and env: "sendable env"
    and app: "OutboxStore_append cfg ex i (utc t) env (dl_outbox s) = Inr (rec, tbl)"
  shows "delivery_inv ex (s\<lparr>dl_outbox := tbl\<rparr>)"
proof -
  let ?row = "pending_outbox_row cfg i t env"
  note old = delivery_invD [OF inv]
  have tbl: "tbl = dl_outbox s @ [?row]"
    by (rule append_cases [OF session_driver(1) [OF ex] append_valid [OF app], of i t cfg "dl_outbox s"]) (use app in \<open>auto simp: pending_insert_Inr\<close>)
  have "carries ?row env" "col_status ?row = ''pending''" by (simp_all add: carries_def pending_outbox_row_def)
  with old env outbox_invariant_append [OF ex old(2) app] show ?thesis unfolding delivery_inv_def by (fastforce simp: tbl)
qed

lemma delivery_inv_claim:
  assumes ex: "db_session ex" and inv: "delivery_inv ex s"
    and r: "OutboxStore_reclaim_expired ex (utc t) (dl_outbox s) = Inr (n, tbl1)"
    and c: "OutboxStore_claim_ready cfg ex (utc t) tbl1 = Inr (ms, tbl2)"
  shows "delivery_inv ex (s\<lparr>dl_outbox := tbl2, dl_claimed := dl_claimed s \<union> set ms\<rparr>)"
proof -
  note old = delivery_invD [OF inv]
  have u: "unique_ids (dl_outbox s)" using old(2) by (simp add: outbox_invariant_def)
  then have u1: "unique_ids tbl1" using outbox_queue.reclaim_effect(2) [OF ex r] by simp
  have inv2: "outbox_invariant ex tbl2"
    using outbox_call_invariant [OF outbox_call.claim [OF c] ex] outbox_call_invariant [OF outbox_call.reclaim [OF r] ex old(2)] by blast
  let ?s = "s\<lparr>dl_outbox := tbl2\<rparr>"
  have inv': "delivery_inv ex ?s" by (rule delivery_inv_outbox [OF inv inv2 pass_rows_kept [OF ex u r c]]) simp
  have "(\<exists>env. sendable env \<and> carried m env) \<and> (\<exists>q \<in> set tbl2. col_id q = rec_id m \<and> col_message_id q = rec_message_id m)"
    if m: "m \<in> set ms" for m
  proof (rule claimed_stored [OF ex u1 c m])
    fix q :: outbox_row
    let ?q = "set_claimed (t + lease_duration cfg) t q"
    assume q: "m = outbox_view ex OutboxStatus.PROCESSING ?q" "row_of tbl2 (rec_id m) = Some ?q"
    then have mem: "?q \<in> set tbl2" using row_of_mem by blast
    then obtain env where "sendable env" "carries ?q env" using delivery_invD(3) [OF inv'] by auto
    then have "carried m env" using carried_view [OF ex] sendable_headers q(1) by blast
    moreover have "col_id ?q = rec_id m" "col_message_id ?q = rec_message_id m" by (simp_all add: q(1) outbox_view_def)
    ultimately show ?thesis using mem \<open>sendable env\<close> by blast
  qed
  with inv' show ?thesis unfolding delivery_inv_def by auto
qed

lemma delivery_step_inv:
  assumes ex: "db_session ex" and inv: "delivery_inv ex s" and step: "delivery_step attempt world sendable ex s s'"
  shows "delivery_inv ex s'"
  using step
proof cases
  case appended
  then show ?thesis using delivery_inv_append [OF ex inv] by blast
next
  case claimed
  then show ?thesis using delivery_inv_claim [OF ex inv] by blast
next
  case (answered m outcome w)
  note old = delivery_invD [OF inv]
  obtain env where env: "sendable env" "carried m env" using old(5) answered(2) by blast
  have "delivery_inv ex (s\<lparr>dl_world := w\<rparr>)"
    by (rule delivery_inv_world [OF inv attempt_sound [OF old(1) env answered(3)] attempt_keeps [OF old(1) answered(3)]])
  moreover have "PublishOutcome_is_published outcome \<Longrightarrow> arrived (rec_message_id m) w"
    by (rule attempt_arrives [OF old(1) env answered(3)])
  ultimately show ?thesis using answered(1,2) unfolding delivery_inv_def by auto
next
  case (raised m e w)
  note old = delivery_invD [OF inv]
  obtain env where env: "sendable env" "carried m env" using old(5) raised(2) by blast
  show ?thesis
    unfolding raised(1)
    by (rule delivery_inv_world [OF inv attempt_sound [OF old(1) env raised(3)] attempt_keeps [OF old(1) raised(3)]])
next
  case (recorded m outcome t1 t2 fpow cfg summary summary' tbl)
  note old = delivery_invD [OF inv]
  show ?thesis
    unfolding recorded(1)
  proof (rule delivery_inv_outbox [OF inv record_invariant [OF ex recorded(3,4) old(2) recorded(5)]
        record_rows_kept [OF ex recorded(3-5)]])
    fix r
    assume r: "r \<in> set (dl_outbox s)" "col_id r = rec_id m \<and> PublishOutcome_is_published outcome"
    obtain q where "q \<in> set (dl_outbox s)" "col_id q = rec_id m" "col_message_id q = rec_message_id m"
      using old(6) [OF old(7) [OF recorded(2)]] by blast
    then have "q = r" using old(2) r by (metis outbox_invariant_def row_of_Some option.inject)
    then show "arrived (col_message_id r) (dl_world s)"
      using old(8) [OF recorded(2)] r(2) \<open>col_message_id q = rec_message_id m\<close> by simp
  qed
next
  case (received w)
  note old = delivery_invD [OF inv]
  show ?thesis
    unfolding received(1)
    by (rule delivery_inv_world [OF inv world_sound [OF old(1) received(2)] world_keeps [OF old(1) received(2)]])
qed

lemma delivery_reachable:
  assumes "db_session ex" "sound w" and "(delivery_step attempt world sendable ex)\<^sup>*\<^sup>* (idle_delivery w) s"
  shows "delivery_inv ex s"
  using assms(3)
proof (induction rule: rtranclp_induct)
  case base
  show ?case using assms(2) by (simp add: delivery_inv_def idle_delivery_def outbox_invariant_def unique_ids_def)
next
  case (step s s')
  then show ?case using delivery_step_inv [OF assms(1)] by blast
qed

end

section \<open>A concrete run\<close>

definition example_sent :: OutboxMessageRecord where
  "example_sent = outbox_view example_postgres OutboxStatus.PROCESSING
     (set_claimed 30000050 50 (pending_outbox_row default_PactixConfig 9 5 example_envelope))"

lemma example_sent_simps [simp]:
  "rec_message_id example_sent = ''id-1''" "rec_event_type example_sent = ''order.created''" "rec_id example_sent = 9"
  "rec_ordering_key example_sent = None" "rec_correlation_id example_sent = None" "rec_message_key example_sent = None"
  "rec_headers example_sent = [(''a'', ''1''), (''b'', ''2'')]" "rec_attempts example_sent = 0"
  by code_simp+

lemma example_pass:
  "OutboxStore_reclaim_expired example_postgres (utc 50) [pending_outbox_row default_PactixConfig 9 5 example_envelope]
     = Inr (0, [pending_outbox_row default_PactixConfig 9 5 example_envelope])"
  "OutboxStore_claim_ready default_PactixConfig example_postgres (utc 50) [pending_outbox_row default_PactixConfig 9 5 example_envelope]
     = Inr ([example_sent], [set_claimed 30000050 50 (pending_outbox_row default_PactixConfig 9 5 example_envelope)])"
  by code_simp+

text \<open>The sender's part of a run: append, claim, an answered publish call, and its recording.\<close>

lemma example_delivery_run:
  assumes "sendable example_envelope" "attempt example_sent w (Inr PublishOutcome_published) w'"
  shows "(delivery_step attempt world sendable example_postgres)\<^sup>*\<^sup>* (idle_delivery w)
    \<lparr>dl_outbox = [set_published 61 (set_claimed 30000050 50 (pending_outbox_row default_PactixConfig 9 5 example_envelope))],
     dl_claimed = {example_sent}, dl_answers = {(example_sent, PublishOutcome_published)}, dl_world = w'\<rparr>"
proof -
  let ?row = "pending_outbox_row default_PactixConfig 9 5 example_envelope"
  let ?row' = "set_claimed 30000050 50 ?row"
  let ?step = "delivery_step attempt world sendable example_postgres"
  have s1: "?step (idle_delivery w) \<lparr>dl_outbox = [?row], dl_claimed = {}, dl_answers = {}, dl_world = w\<rparr>"
    using delivery_step.appended [where sendable = sendable, OF assms(1), of default_PactixConfig example_postgres 9 5 "idle_delivery w"] example_append
    by (simp add: idle_delivery_def)
  have s2: "?step \<lparr>dl_outbox = [?row], dl_claimed = {}, dl_answers = {}, dl_world = w\<rparr>
      \<lparr>dl_outbox = [?row'], dl_claimed = {example_sent}, dl_answers = {}, dl_world = w\<rparr>"
    using delivery_step.claimed [of example_postgres 50 "\<lparr>dl_outbox = [?row], dl_claimed = {}, dl_answers = {}, dl_world = w\<rparr>",
        OF _ example_pass(2)] example_pass(1)
    by simp
  have s3: "?step \<lparr>dl_outbox = [?row'], dl_claimed = {example_sent}, dl_answers = {}, dl_world = w\<rparr>
      \<lparr>dl_outbox = [?row'], dl_claimed = {example_sent}, dl_answers = {(example_sent, PublishOutcome_published)}, dl_world = w'\<rparr>"
    using delivery_step.answered [of example_sent "\<lparr>dl_outbox = [?row'], dl_claimed = {example_sent}, dl_answers = {}, dl_world = w\<rparr>" attempt
        PublishOutcome_published w'] assms(2)
    by simp
  have s4: "?step \<lparr>dl_outbox = [?row'], dl_claimed = {example_sent}, dl_answers = {(example_sent, PublishOutcome_published)}, dl_world = w'\<rparr>
      \<lparr>dl_outbox = [set_published 61 ?row'], dl_claimed = {example_sent}, dl_answers = {(example_sent, PublishOutcome_published)}, dl_world = w'\<rparr>"
  proof -
    have id: "col_id ?row' = 9" by (simp add: pending_outbox_row_def)
    have "OutboxRunner_record example_pow default_PactixConfig example_postgres (utc 61) (utc 61) example_sent PublishOutcome_published
        summary [?row'] = Inr (summary\<lparr>published := published summary + 1\<rparr>, [set_published 61 ?row'])" for summary
      using id by (simp add: OutboxRunner_record_def mark_published_eq outcome_tests outcome_defs)
    then show ?thesis
      using delivery_step.recorded [of example_sent PublishOutcome_published
          "\<lparr>dl_outbox = [?row'], dl_claimed = {example_sent}, dl_answers = {(example_sent, PublishOutcome_published)}, dl_world = w'\<rparr>"
          "utc 61" "utc 61" example_pow default_PactixConfig example_postgres]
      by auto
  qed
  show ?thesis
    using r_into_rtranclp [of ?step, OF s1] s2 s3 s4 by (blast intro: rtranclp.rtrancl_into_rtrancl)
qed

end
