(* ===== verification/HttpDelivery.thy ===== *)
theory HttpDelivery
  imports Delivery HttpTransport
begin

text \<open>
  The outbox runner, the HTTP publisher and the receiver's inbox endpoint together: however
  requests and responses are lost and whoever crashes, a message that counts as published is in
  the receiving inbox exactly once.
\<close>

section \<open>A request over an unreliable network\<close>

text \<open>What happens to one request: it is answered, the answer is lost, or the request is.\<close>

datatype network = Answered | Response_lost error | Request_lost error

text \<open>
  The receiving service: its session, the source it stores messages under, what its framework
  hands to the handler, and what the client sees when the handler raises.
\<close>

record http_link =
  hl_session :: executor
  hl_source :: string
  hl_endpoints :: HttpEndpointRouter
  hl_arrive :: "HttpOutboundRequest \<Rightarrow> pydict \<times> (error + json)"
  hl_crash :: "error \<Rightarrow> error + HttpResponse"
  hl_show :: "error \<Rightarrow> string"

definition http_handler ::
  "http_link \<Rightarrow> PactixConfig \<Rightarrow> uuid \<Rightarrow> int \<Rightarrow> HttpOutboundRequest \<Rightarrow> inbox_table \<Rightarrow> (error + HttpResponse) \<times> inbox_table" where
  "http_handler L cfg i t request tbl =
     make_inbox_endpoint cfg (hl_session L) i (utc t) (hl_source L) (snd (hl_arrive L request)) (fst (hl_arrive L request)) tbl"

fun http_transmit ::
  "(error \<Rightarrow> error + HttpResponse) \<Rightarrow> (inbox_table \<Rightarrow> (error + HttpResponse) \<times> inbox_table) \<Rightarrow> network \<Rightarrow> inbox_table
   \<Rightarrow> (error + HttpResponse) \<times> inbox_table" where
  "http_transmit crash handler (Request_lost e) tbl = (Inl e, tbl)"
| "http_transmit crash handler (Response_lost e) tbl = (Inl e, snd (handler tbl))"
| "http_transmit crash handler Answered tbl =
     (case handler tbl of (Inl e, tbl') \<Rightarrow> (crash e, tbl') | (Inr response, tbl') \<Rightarrow> (Inr response, tbl'))"

text \<open>A publish call of the HTTP publisher whose request, if it builds one, meets the fate \<open>net\<close>.\<close>

inductive http_attempt ::
  "http_link \<Rightarrow> OutboxMessageRecord \<Rightarrow> inbox_table \<Rightarrow> error + PublishOutcome \<Rightarrow> inbox_table \<Rightarrow> bool" for L m tbl where
  "res = HttpOutboxPublisher_publish (hl_show L)
     (\<lambda>request. fst (http_transmit (hl_crash L) (http_handler L cfg i t request) net tbl)) (hl_endpoints L) m \<Longrightarrow>
   tbl' = (case HttpOutboxPublisher_build_request (hl_endpoints L) m of
      Inl e \<Rightarrow> tbl
    | Inr request \<Rightarrow> snd (http_transmit (hl_crash L) (http_handler L cfg i t request) net tbl)) \<Longrightarrow>
   http_attempt L m tbl res tbl'"

text \<open>
  A supported database, a stack that delivers bodies and the library's headers, and a framework
  that does not answer success for a handler that raised.
\<close>

definition http_setting :: "http_link \<Rightarrow> bool" where
  "http_setting L \<longleftrightarrow> db_session (hl_session L) \<and> (\<forall>request. http_delivers (hl_arrive L) request) \<and>
     (\<forall>e response. hl_crash L e = Inr response \<longrightarrow> \<not> (200 \<le> resp_status response \<and> resp_status response < 300))"

definition http_sound :: "http_link \<Rightarrow> inbox_table \<Rightarrow> bool" where
  "http_sound L tbl \<longleftrightarrow> http_setting L \<and> inbox_invariant (hl_session L) tbl"

text \<open>Messages the receiver's columns can hold and whose custom headers leave the library's alone.\<close>

definition http_sendable :: "http_link \<Rightarrow> MessageEnvelope \<Rightarrow> bool" where
  "http_sendable L env \<longleftrightarrow>
     custom_headers_ok (md_headers (env_metadata env)) \<and>
     (case HttpEndpointRouter_resolve (hl_endpoints L) (md_event_type (env_metadata env)) of
        Inl e \<Rightarrow> True | Inr endpoint \<Rightarrow> custom_headers_ok (ep_headers endpoint)) \<and>
     receivable (hl_session L) (hl_source L) env"

definition http_arrived :: "http_link \<Rightarrow> string \<Rightarrow> inbox_table \<Rightarrow> bool" where
  "http_arrived L i tbl = received_from (hl_session L) (hl_source L) i tbl"

section \<open>HTTP is a carrier\<close>

text \<open>The handler changes the table by receipts only.\<close>

lemma http_handler_call:
  "snd (http_handler L cfg i t request tbl) = tbl \<or> inbox_call (hl_session L) tbl (snd (http_handler L cfg i t request tbl))"
proof (cases "http_handler L cfg i t request tbl")
  case (Pair res tbl')
  show ?thesis
  proof (cases "tbl' = tbl")
    case False
    with Pair obtain out env where
      "InboxStore_save_received cfg (hl_session L) i (utc t) (hl_source L) env tbl = Inr (out, tbl')"
      by (auto simp: http_handler_def make_inbox_endpoint_def save_by_envelope in_transaction_Inr in_transaction_Inl
          split: sum.splits error.splits option.splits prod.splits)
    with Pair show ?thesis by (auto intro: inbox_call.received)
  qed (simp add: Pair)
qed

lemma http_transmit_table:
  "snd (http_transmit crash handler net tbl) = tbl \<or> snd (http_transmit crash handler net tbl) = snd (handler tbl)"
  by (cases net) (auto split: prod.split sum.split)

lemma http_attempt_call:
  assumes "http_attempt L m tbl res tbl'"
  shows "tbl' = tbl \<or> inbox_call (hl_session L) tbl tbl'"
  using assms
proof cases
  case (1 cfg i t net)
  show ?thesis
  proof (cases "HttpOutboxPublisher_build_request (hl_endpoints L) m")
    case (Inr request)
    then show ?thesis
      using 1(2) http_transmit_table [of "hl_crash L" "http_handler L cfg i t request" net tbl]
        http_handler_call [of L cfg i t request tbl] by auto
  qed (simp add: 1(2))
qed

lemma classify_published:
  "po_kind (HttpOutboxPublisher_classify_response response) = KIND_PUBLISHED \<longleftrightarrow>
     200 \<le> resp_status response \<and> resp_status response < 300"
  by (simp add: HttpOutboxPublisher_classify_response_def outcome_tests outcome_defs Let_def)

text \<open>An accepted request was saved.\<close>

lemma endpoint_accepted:
  assumes "make_inbox_endpoint cfg ex i now source json headers tbl = (Inr response, tbl')" "resp_status response < 300"
  obtains payload out where "json = Inr payload" "HttpInboxEndpoint_save cfg ex i now source headers payload tbl = (Inr out, tbl')"
  using assms by (auto simp: make_inbox_endpoint_def split: sum.splits error.splits option.splits prod.splits)

lemma custom_headers_same:
  assumes "wf_dict d'" "map_of d' = map_of d"
  shows "custom_headers_ok d \<Longrightarrow> custom_headers_ok d'"
  using assms by (metis custom_headers_ok_def dom_map_of_conv_image_fst)

text \<open>A request for a sendable message that the handler accepts leaves the message received.\<close>

lemma http_accepted_received:
  assumes L: "http_setting L" and env: "http_sendable L env" "carried m env"
    and route: "HttpEndpointRouter_resolve (hl_endpoints L) (rec_event_type m) = Inr endpoint"
    and ok: "http_handler L cfg i t (http_request endpoint m) tbl = (Inr response, tbl')" "resp_status response < 300"
  shows "http_arrived L (rec_message_id m) tbl'"
proof -
  let ?arrived = "fst (hl_arrive L (http_request endpoint m))"
  have delivers: "http_delivers (hl_arrive L) (http_request endpoint m)" and ex: "db_session (hl_session L)"
    using L by (simp_all add: http_setting_def)
  obtain payload out where saved: "HttpInboxEndpoint_save cfg (hl_session L) i (utc t) (hl_source L) ?arrived payload tbl = (Inr out, tbl')"
    using endpoint_accepted [OF ok(1) [unfolded http_handler_def] ok(2)] by blast
  have custom: "custom_headers_ok (ep_headers endpoint)" "custom_headers_ok (rec_headers m)"
    using env route custom_headers_same [of "rec_headers m" "md_headers (env_metadata env)"]
    by (simp_all add: http_sendable_def carried_def)
  from saved obtain env' where env':
    "HttpInboundMessage_to_envelope (utc t) \<lparr>hi_message_id = rec_message_id m, hi_event_type = rec_event_type m,
       hi_message_key = rec_message_key m, hi_ordering_key = rec_ordering_key m, hi_correlation_id = rec_correlation_id m,
       hi_headers = normalized_headers ?arrived, hi_payload = payload\<rparr> = Inr env'"
    and save: "InboxStore_save_received cfg (hl_session L) i (utc t) (hl_source L) env' tbl = Inr (out, tbl')"
    using from_headers_eq [OF custom, of ?arrived payload] delivers
    by (auto simp: save_by_envelope http_delivers_def http_request_def in_transaction_Inr split: sum.splits)
  then have md: "md_message_id (env_metadata env') = rec_message_id m" "md_event_type (env_metadata env') = rec_event_type m"
    "md_ordering_key (env_metadata env') = rec_ordering_key m" "md_correlation_id (env_metadata env') = rec_correlation_id m"
    by (auto simp: HttpInboundMessage_to_envelope_def Let_def MessageEnvelope_new_Inr_iff builder_defs split: option.splits)
  have "inbox_fits (hl_session L) (pending_inbox_row cfg i t (hl_source L) env')"
    using env by (simp add: receivable_fits [OF ex] receivable_def md http_sendable_def carried_def)
  from save_received_stores [OF session_driver(1) [OF ex] this save] show ?thesis by (simp add: http_arrived_def received_from_def md(1))
qed

lemma http_attempt_arrives:
  assumes L: "http_setting L" and env: "http_sendable L env" "carried m env"
    and attempt: "http_attempt L m tbl (Inr outcome) tbl'" and pub: "PublishOutcome_is_published outcome"
  shows "http_arrived L (rec_message_id m) tbl'"
  using attempt
proof cases
  case (1 cfg i t net)
  let ?send = "\<lambda>request. http_transmit (hl_crash L) (http_handler L cfg i t request) net tbl"
  from 1(1) obtain endpoint where route: "HttpEndpointRouter_resolve (hl_endpoints L) (rec_event_type m) = Inr endpoint"
    by (cases "HttpEndpointRouter_resolve (hl_endpoints L) (rec_event_type m)")
      (auto simp: HttpOutboxPublisher_publish_def HttpOutboxPublisher_build_request_def)
  note req = build_request_eq [OF route]
  obtain response where response: "fst (?send (http_request endpoint m)) = Inr response"
      "200 \<le> resp_status response" "resp_status response < 300"
    using 1(1) pub
    by (auto simp: HttpOutboxPublisher_publish_def req classify_published outcome_tests outcome_defs split: sum.splits if_splits)
  have "tbl' = snd (?send (http_request endpoint m))" using 1(2) by (simp add: req)
  with response L have "http_handler L cfg i t (http_request endpoint m) tbl = (Inr response, tbl')"
    by (cases net) (auto simp: http_setting_def split: prod.splits sum.splits)
  from http_accepted_received [OF L env route this response(3)] show ?thesis .
qed

interpretation http_carrier: carrier "http_attempt L" "inbox_call (hl_session L)" "http_sound L" "http_sendable L" "http_arrived L" for L
proof unfold_locales
  fix w w' :: inbox_table and m :: OutboxMessageRecord and res i
  assume w: "http_sound L w" and a: "http_attempt L m w res w'"
  have ex: "db_session (hl_session L)" "inbox_invariant (hl_session L) w" using w by (simp_all add: http_sound_def http_setting_def)
  from http_attempt_call [OF a] show "http_sound L w'" and "http_arrived L i w \<Longrightarrow> http_arrived L i w'"
    using w ex by (auto simp: http_sound_def http_arrived_def intro: inbox_call_invariant(1) received_from_kept)
next
  fix w w' :: inbox_table and i
  assume w: "http_sound L w" and c: "inbox_call (hl_session L) w w'"
  then have ex: "db_session (hl_session L)" "inbox_invariant (hl_session L) w" by (simp_all add: http_sound_def http_setting_def)
  show "http_sound L w'" using w inbox_call_invariant(1) [OF c ex] by (simp add: http_sound_def)
  show "http_arrived L i w \<Longrightarrow> http_arrived L i w'" unfolding http_arrived_def by (rule received_from_kept [OF c ex])
next
  show "http_arrived L (rec_message_id m) w'"
    if "http_sound L w" "http_sendable L env" "carried m env" "http_attempt L m w (Inr outcome) w'" "PublishOutcome_is_published outcome"
    for w w' env m outcome
    using that http_attempt_arrives by (simp add: http_sound_def)
qed (simp add: http_sendable_def custom_headers_ok_def)

text \<open>Property C1: end to end over HTTP, at-least-once publishing and deduplicated receipt make exactly
  one delivery.  Whatever appends, claims, lost requests, lost responses, crashes, retries and
  late or repeated recordings happen on the sending side, and whatever the receiver's workers and
  other senders do meanwhile: for every outbox row that is published, the receiving inbox holds
  exactly one row of its source and message id.\<close>

theorem http_delivered_exactly_once:
  assumes "db_session ex" and "http_setting L"
    and run: "(delivery_step (http_attempt L) (inbox_call (hl_session L)) (http_sendable L) ex)\<^sup>*\<^sup>* (idle_delivery []) s"
    and r: "r \<in> set (dl_outbox s)" "col_status r = ''published''"
  shows "\<exists>!b. b \<in> set (dl_world s) \<and> text_eq (hl_session L) (col_source b) (hl_source L)
    \<and> text_eq (hl_session L) (col_message_id b) (col_message_id r)"
proof (rule received_once)
  have "http_sound L []" using assms(2) by (simp add: http_sound_def inbox_invariant_def unique_ids_def)
  from http_carrier.delivery_reachable [OF assms(1) this run] have inv: "http_carrier.delivery_inv L ex s" .
  from http_carrier.delivery_invD(1) [OF inv] show "inbox_invariant (hl_session L) (dl_world s)" by (simp add: http_sound_def)
  from http_carrier.delivery_invD(4) [OF inv r] show "received_from (hl_session L) (hl_source L) (col_message_id r) (dl_world s)"
    by (simp add: http_arrived_def)
qed

section \<open>A concrete delivery\<close>

text \<open>One message on its way from the outbox to the endpoint.\<close>

definition example_link :: http_link where
  "example_link = \<lparr>hl_session = example_postgres, hl_source = ''billing'', hl_endpoints = example_endpoints,
     hl_arrive = example_arrive, hl_crash = (\<lambda>_. Inr \<lparr>resp_status = 500, resp_body = None\<rparr>), hl_show = (\<lambda>_. ''timeout'')\<rparr>"

lemma example_link_simps [simp]:
  "hl_session example_link = example_postgres" "hl_source example_link = ''billing''"
  "hl_endpoints example_link = example_endpoints" "hl_arrive example_link = example_arrive"
  by (simp_all add: example_link_def)

lemma example_setting: "http_setting example_link"
  by (simp add: http_setting_def example_link_def http_delivers_def example_arrive_def)

lemma example_custom_headers [simp]:
  "custom_headers_ok [(''b'', ''2''), (''a'', ''1'')]" "custom_headers_ok [(''a'', ''1''), (''b'', ''2'')]"
  by (simp_all add: custom_headers_ok_def wf_dict_def pactix_headers_def header_names lower_def lower_char_def code_point_def)

lemma example_route: "HttpEndpointRouter_resolve example_endpoints ''order.created'' = Inr example_endpoint"
  using example_exchange(1) by (simp add: example_outbox_record_def)

lemma example_sendable: "http_sendable example_link example_envelope"
  by (simp add: http_sendable_def receivable_def example_envelope_def builder_defs example_route example_exchange(2))

lemma example_http_attempt:
  obtains tbl' where "http_attempt example_link example_sent [] (Inr PublishOutcome_published) tbl'"
proof (rule http_request_accepted [of example_postgres "[]" 7 example_endpoint example_sent "''billing''" example_arrive
      default_PactixConfig 60])
  show "valid_record example_sent" "\<not> blank ''billing''" by (simp_all add: valid_record_def blank_iff is_space_def code_point_def)
  show "http_delivers example_arrive (http_request example_endpoint example_sent)"
    by (simp add: http_delivers_def example_arrive_def)
  fix tbl'
  assume a: "make_inbox_endpoint default_PactixConfig example_postgres 7 (utc 60) ''billing''
      (snd (example_arrive (http_request example_endpoint example_sent)))
      (fst (example_arrive (http_request example_endpoint example_sent))) [] = (Inr \<lparr>resp_status = 202, resp_body = None\<rparr>, tbl')"
  have "http_attempt example_link example_sent [] (Inr PublishOutcome_published) tbl'"
  proof (rule http_attempt.intros)
    show "Inr PublishOutcome_published = HttpOutboxPublisher_publish (hl_show example_link)
        (\<lambda>request. fst (http_transmit (hl_crash example_link) (http_handler example_link default_PactixConfig 7 60 request) Answered []))
        (hl_endpoints example_link) example_sent"
      by (rule sym, rule http_published [of _ _ example_endpoint]) (simp_all add: example_route http_handler_def a)
    show "tbl' = (case HttpOutboxPublisher_build_request (hl_endpoints example_link) example_sent of
        Inl e \<Rightarrow> []
      | Inr request \<Rightarrow> snd (http_transmit (hl_crash example_link) (http_handler example_link default_PactixConfig 7 60 request) Answered []))"
      by (simp add: build_request_eq [OF example_route [folded example_sent_simps(2)]] http_handler_def a)
  qed
  then show thesis by (rule that)
qed (simp_all add: example_exchange(2) inbox_invariant_def unique_ids_def)

theorem http_delivered_exactly_once_witness:
  "\<exists>s. (delivery_step (http_attempt example_link) (inbox_call example_postgres) (http_sendable example_link) example_postgres)\<^sup>*\<^sup>*
       (idle_delivery []) s
     \<and> map col_status (dl_outbox s) = [''published'']
     \<and> (\<exists>!b. b \<in> set (dl_world s) \<and> text_eq example_postgres (col_source b) ''billing''
           \<and> text_eq example_postgres (col_message_id b) ''id-1'')"
proof (rule example_http_attempt)
  fix tbl'
  assume "http_attempt example_link example_sent [] (Inr PublishOutcome_published) tbl'"
  note run = example_delivery_run [where sendable = "http_sendable example_link" and attempt = "http_attempt example_link",
      OF example_sendable this, of "inbox_call (hl_session example_link)"]
  have "\<exists>!b. b \<in> set tbl' \<and> text_eq example_postgres (col_source b) ''billing'' \<and> text_eq example_postgres (col_message_id b) ''id-1''"
    using http_delivered_exactly_once [OF postgres_db_session [OF example_postgres_session] example_setting run]
    by (simp add: set_published_def set_claimed_def pending_outbox_row_def example_envelope_def builder_defs)
  with run [unfolded example_link_simps] show ?thesis by (intro exI conjI) (auto simp: set_published_def)
qed

end
