(* ===== verification/Decimal.thy ===== *)
theory Decimal
  imports Float64
begin

text \<open>
  Decimal numbers as the standard library writes and reads them: the digits of an integer,
  \<^verbatim>\<open>float.__repr__\<close> and the number scanner of \<^verbatim>\<open>json.loads\<close>.  The theory proves that seventeen digits
  identify a binary64 number and that the scanner reads back every integer and every float
  that was written.
\<close>

section \<open>Digits\<close>

definition is_digit :: "char \<Rightarrow> bool" where
  "is_digit c \<longleftrightarrow> 48 \<le> code_point c \<and> code_point c \<le> 57"

definition digit_value :: "char \<Rightarrow> nat" where
  "digit_value c = code_point c - 48"

definition nat_of_digits :: "string \<Rightarrow> nat" where
  "nat_of_digits ds = foldl (\<lambda>n c. 10 * n + digit_value c) 0 ds"

section \<open>Writing a float\<close>

text \<open>
  \<^verbatim>\<open>float.__repr__\<close>: among the decimals with the fewest digits that round to the number, the
  closest one; then positional notation for exponents from -4 to 15 and scientific notation
  with at least two exponent digits beyond.
\<close>

definition pow10 :: "int \<Rightarrow> rat" where
  "pow10 e = (if 0 \<le> e then 10 ^ nat e else 1 / 10 ^ nat (- e))"

definition ilog10 :: "rat \<Rightarrow> int" where
  "ilog10 r =
     (let (p, q) = quotient_of r; k = int (length (str_nat (nat p))) - int (length (str_nat (nat q)))
      in if pow10 k \<le> r then k else k - 1)"

definition decimal_with :: "rat \<Rightarrow> nat \<Rightarrow> (int \<times> int) option" where
  "decimal_with x n =
     (let k = ilog10 x - int n + 1;
          m = \<lfloor>x / pow10 k\<rfloor>;
          d = x / pow10 k - of_int m;
          reads = (\<lambda>m. fl (of_int m * pow10 k) = Fin x);
          nearer_first = (if d < 1/2 \<or> d = 1/2 \<and> even m then [m, m + 1] else [m + 1, m])
      in map_option (\<lambda>m. (m, k)) (find reads nearer_first))"

fun shortest_decimal :: "rat \<Rightarrow> nat list \<Rightarrow> int \<times> int" where
  "shortest_decimal x [] = (\<lfloor>x / pow10 (ilog10 x - 16)\<rfloor>, ilog10 x - 16)"
| "shortest_decimal x (n # ns) = (case decimal_with x n of Some mk \<Rightarrow> mk | None \<Rightarrow> shortest_decimal x ns)"

definition strip_zeros :: "string \<Rightarrow> string" where
  "strip_zeros ds = rev (dropWhile (\<lambda>c. c = CHR ''0'') (rev ds))"

definition two_digits :: "nat \<Rightarrow> string" where
  "two_digits n = (if n < 10 then CHR ''0'' # str_nat n else str_nat n)"

definition format_repr :: "string \<Rightarrow> int \<Rightarrow> string" where
  "format_repr ds decpt =
     (let zeros = (\<lambda>n. replicate (nat n) (CHR ''0'')); len = int (length ds)
      in if -4 < decpt \<and> decpt \<le> 16 then
           (if decpt \<le> 0 then ''0.'' @ zeros (- decpt) @ ds
            else if len \<le> decpt then ds @ zeros (decpt - len) @ ''.0''
            else take (nat decpt) ds @ ''.'' @ drop (nat decpt) ds)
         else
           take 1 ds @ (if len = 1 then '''' else ''.'' @ drop 1 ds) @ ''e'' @
           (if decpt - 1 < 0 then ''-'' else ''+'') @ two_digits (nat \<bar>decpt - 1\<bar>))"

definition repr_pos :: "rat \<Rightarrow> string" where
  "repr_pos x =
     (let (m, k) = shortest_decimal x [1..<18]; ds = str_nat (nat m)
      in format_repr (strip_zeros ds) (k + int (length ds)))"

fun float_repr :: "pyfloat \<Rightarrow> string" where
  "float_repr NaN = ''NaN''"
| "float_repr PInf = ''Infinity''"
| "float_repr NInf = ''-Infinity''"
| "float_repr (Fin x) =
     (if x = 0 then ''0.0'' else if x < 0 then CHR ''-'' # repr_pos (- x) else repr_pos x)"

section \<open>Reading a number\<close>

text \<open>Numbers: an integer part without leading zeros, then an optional fraction and exponent.\<close>

definition number_sign :: "string \<Rightarrow> bool \<times> string" where
  "number_sign s = (case s of [] \<Rightarrow> (False, s) | c # r \<Rightarrow> if c = CHR ''-'' then (True, r) else (False, s))"

definition number_int :: "string \<Rightarrow> (string \<times> string) option" where
  "number_int s =
     (case s of
        [] \<Rightarrow> None
      | c # r \<Rightarrow>
          if c = CHR ''0'' then Some (''0'', r)
          else if is_digit c then Some (takeWhile is_digit s, dropWhile is_digit s)
          else None)"

definition number_frac :: "string \<Rightarrow> string \<times> string" where
  "number_frac s =
     (case s of
        [] \<Rightarrow> ([], s)
      | c # r \<Rightarrow> if c = CHR ''.'' \<and> takeWhile is_digit r \<noteq> [] then (takeWhile is_digit r, dropWhile is_digit r) else ([], s))"

definition number_exp :: "string \<Rightarrow> int option \<times> string" where
  "number_exp s =
     (case s of
        [] \<Rightarrow> (None, s)
      | c # r \<Rightarrow>
          if c = CHR ''e'' \<or> c = CHR ''E'' then
            (let (neg, ds) = (case r of [] \<Rightarrow> (False, r)
                | g # r' \<Rightarrow> if g = CHR ''-'' then (True, r') else if g = CHR ''+'' then (False, r') else (False, r))
             in if takeWhile is_digit ds = [] then (None, s)
                else (Some ((if neg then - 1 else 1) * int (nat_of_digits (takeWhile is_digit ds))), dropWhile is_digit ds))
          else (None, s))"

definition json_number :: "string \<Rightarrow> (json \<times> string) option" where
  "json_number s =
     (let (neg, s1) = number_sign s; sign = (if neg then - 1 else 1 :: int)
      in case number_int s1 of
           None \<Rightarrow> None
         | Some (int_part, s2) \<Rightarrow>
             (let (frac, s3) = number_frac s2; (expo, s4) = number_exp s3
              in if frac = [] \<and> expo = None then Some (JInt (sign * int (nat_of_digits int_part)), s4)
                 else Some (JFloat (fl (of_int (sign * int (nat_of_digits (int_part @ frac)))
                        * pow10 ((case expo of None \<Rightarrow> 0 | Some e \<Rightarrow> e) - int (length frac)))), s4)))"

lemma number_shorter: "json_number s = Some (v, r) \<Longrightarrow> length r < length s"
proof -
  have tw: "length (dropWhile P xs) \<le> length xs" for P and xs :: string by (rule length_dropWhile_le)
  have sign: "length (snd (number_sign s)) \<le> length s" for s by (simp add: number_sign_def split: list.split)
  have int_part: "number_int s = Some (ds, r) \<Longrightarrow> length r < length s" for s ds r
    using tw [of is_digit "tl s"] by (auto simp: number_int_def le_imp_less_Suc split: list.splits if_splits)
  have frac: "length (snd (number_frac s)) \<le> length s" for s
    using tw [of is_digit "tl s"] by (auto simp: number_frac_def split: list.split)
  have expo: "length (snd (number_exp s)) \<le> length s" for s
    using tw [of is_digit "tl s"] tw [of is_digit "tl (tl s)"]
    by (auto simp: number_exp_def Let_def split: list.split)
  assume "json_number s = Some (v, r)"
  then obtain ds s2 where i: "number_int (snd (number_sign s)) = Some (ds, s2)"
    and r: "r = snd (number_exp (snd (number_frac s2)))"
    by (auto simp: json_number_def Let_def split: prod.splits option.splits if_splits)
  show ?thesis using int_part [OF i] sign [of s] frac [of s2] expo [of "snd (number_frac s2)"] unfolding r by linarith
qed

section \<open>Seventeen digits identify a binary64 number\<close>

lemma fl_rat_half_ulp:
  assumes "x = of_int j * pow2 (ulp_exp d)" "\<bar>d - x\<bar> < pow2 (ulp_exp d) / 2" "d \<noteq> 0"
  shows "fl_rat d = x"
proof -
  let ?u = "pow2 (ulp_exp d)"
  have "d / ?u - of_int j = (d - x) / ?u" by (simp add: assms(1) field_simps)
  then have "\<bar>d / ?u - of_int j\<bar> = \<bar>d - x\<bar> / ?u" by (simp add: abs_divide)
  also have "\<dots> < 1/2" using assms(2) by (simp add: field_simps)
  finally have "round_even (d / ?u) = j" by (rule round_even_near)
  with assms(1,3) show ?thesis by (simp add: fl_rat_def)
qed

lemma fl_rat_fixed:
  assumes "fl_rat x = x"
  obtains j where "x = of_int j * pow2 (ulp_exp x)"
proof (cases "x = 0")
  case True
  then show thesis using that [of 0] by simp
next
  case False
  then show thesis using assms that [of "round_even (x / pow2 (ulp_exp x))"] by (simp add: fl_rat_def)
qed

lemma ilog2_ge: "pow2 k \<le> r \<Longrightarrow> k \<le> ilog2 r"
proof -
  assume a: "pow2 k \<le> r"
  then have "0 < r" using pow2_pos [of k] by linarith
  from le_less_trans [OF a ilog2_bounds(2) [OF this]] show ?thesis by (simp add: pow2_less_iff)
qed

lemma ilog2_le: "0 < r \<Longrightarrow> r < pow2 (k + 1) \<Longrightarrow> ilog2 r \<le> k"
  using le_less_trans [OF ilog2_bounds(1) [of r]] by (force simp: pow2_less_iff)

lemma int_multiple_gap:
  assumes "of_int a * u < of_int b * (u :: rat)" "0 < u"
  shows "of_int a * u + u \<le> of_int b * u"
proof -
  have "a + 1 \<le> b" using assms by (simp add: mult_less_cancel_right_pos)
  then have "of_int (a + 1) * u \<le> of_int b * u" using assms(2) by (intro mult_right_mono) (simp_all only: of_int_le_iff less_imp_le)
  then show ?thesis by (simp add: algebra_simps)
qed

text \<open>
  A rational within a relative distance of \<open>2 ^ -54\<close> of a binary64 number rounds to it, also
  where the number is a power of two and the numbers below it are twice as dense.
\<close>

lemma pow2_half: "pow2 e = pow2 (e - 1) * 2"
  using pow2_add [of "e - 1" 1] by (simp add: pow2_def [of 1])

lemma ilog2_near:
  assumes "pow2 k \<le> x" "x < pow2 (k + 1)" "\<bar>d - x\<bar> < pow2 (k - 53)"
  shows "0 < d" "k - 1 \<le> ilog2 d" "ilog2 d \<le> k + 1"
proof -
  have mono: "pow2 (k - 53) \<le> pow2 (k - 1)" "pow2 (k - 1) \<le> pow2 (k + 1)" by (rule pow2_mono, simp)+
  have low: "pow2 (k - 1) \<le> d" using assms mono(1) pow2_half [of k] by (simp add: abs_less_iff)
  have "pow2 (k + 2) = pow2 (k + 1) * 2" using pow2_half [of "k + 2"] by (simp add: add.commute)
  then have up: "d < pow2 (k + 2)" using assms mono by (simp add: abs_less_iff)
  show d: "0 < d" using low pow2_pos [of "k - 1"] by linarith
  show "k - 1 \<le> ilog2 d" "ilog2 d \<le> k + 1"
    using ilog2_ge [OF low] ilog2_le [OF d, of "k + 1"] up by (simp_all add: add.commute)
qed

lemma fl_rat_near:
  assumes x: "0 < x" "fl_rat x = x" and near: "\<bar>d - x\<bar> < x * pow2 (- 54)"
  shows "fl_rat d = x"
proof -
  define k where "k = ilog2 x"
  define U where "U = pow2 (ulp_exp x)"
  obtain j where j: "x = of_int j * U" using fl_rat_fixed [OF x(2)] unfolding U_def .
  have U: "0 < U" by (simp add: U_def)
  have kx: "pow2 k \<le> x" "x < pow2 (k + 1)" using ilog2_bounds [OF x(1)] by (simp_all add: k_def)
  note half = pow2_half
  have "x * pow2 (- 54) < pow2 (k + 1) * pow2 (- 54)" using kx(2) by (intro mult_strict_right_mono) simp_all
  then have close: "\<bar>d - x\<bar> < pow2 (k - 53)" using near by (simp flip: pow2_add)
  have "k - 52 \<le> ulp_exp x" using x(1) by (simp add: ulp_exp_def k_def)
  then have "pow2 (k - 52) \<le> U" unfolding U_def by (rule pow2_mono)
  then have U2: "pow2 (k - 53) \<le> U / 2" using half [of "k - 52"] by simp
  have d: "0 < d" and kd: "k - 1 \<le> ilog2 d" "ilog2 d \<le> k + 1" using ilog2_near [OF kx close] by simp_all
  consider (same) "ulp_exp d = ulp_exp x" | (finer) "ulp_exp d < ulp_exp x" | (coarser) "ulp_exp x < ulp_exp d" by linarith
  then show ?thesis
  proof cases
    case same
    then have ud: "pow2 (ulp_exp d) = U" by (simp only: U_def)
    have "\<bar>d - x\<bar> < U / 2" using close U2 by linarith
    then show ?thesis using fl_rat_half_ulp [of x j d, unfolded ud, OF j] d by simp
  next
    case finer
    then have ux: "ulp_exp x = k - 52" and ud: "k - 53 \<le> ulp_exp d" and "ilog2 d < k"
      using x(1) d kd by (auto simp: ulp_exp_def k_def)
    then have "d < pow2 k" using ilog2_ge [of k d] by linarith
    have 52: "pow2 k = of_int (2 ^ 52) * U" using pow2_multiple [of "k - 52" k] by (simp add: U_def ux)
    have "x = pow2 k"
    proof (rule ccontr)
      assume "x \<noteq> pow2 k"
      with kx(1) j 52 have "pow2 k + U \<le> x" using int_multiple_gap [of "2 ^ 52" U j] U by simp
      with \<open>d < pow2 k\<close> close U2 U show False by (simp add: abs_less_iff)
    qed
    have "pow2 k * pow2 (- 54) = pow2 (k - 53 - 1)" by (simp flip: pow2_add)
    then have dist: "\<bar>d - x\<bar> < pow2 (ulp_exp d) / 2"
      using near half [of "k - 53"] pow2_mono [OF ud] \<open>x = pow2 k\<close> by simp
    have "x = of_int (2 ^ nat (k - ulp_exp d)) * pow2 (ulp_exp d)"
      using pow2_multiple [of "ulp_exp d" k] finer ux \<open>x = pow2 k\<close> by simp
    from fl_rat_half_ulp [OF this dist] d show ?thesis by blast
  next
    case coarser
    then have "ulp_exp d = ilog2 d - 52" and k1: "ilog2 d = k + 1" using x(1) d kd by (auto simp: ulp_exp_def k_def)
    with coarser have "ulp_exp x \<le> k + 1" by simp
    then have "pow2 (k + 1) = of_int (2 ^ nat (k + 1 - ulp_exp x)) * U" unfolding U_def by (rule pow2_multiple)
    then have "x + U \<le> pow2 (k + 1)" using int_multiple_gap [of j U, folded j, OF _ U] kx(2) by metis
    moreover have "pow2 (k + 1) \<le> d" using ilog2_bounds(1) [OF d] k1 by simp
    ultimately have False using close U2 U by (simp add: abs_less_iff)
    then show ?thesis ..
  qed
qed

lemma fl_near:
  assumes "0 < x" "fl x = Fin x" "\<bar>d - x\<bar> < x * pow2 (- 54)"
  shows "fl d = Fin x"
proof -
  have "fl_rat x = x" using assms(2) by (auto simp: fl_def split: if_splits)
  with assms fl_rat_near [of x d] show ?thesis by (auto simp: fl_def split: if_splits)
qed

lemma fl_0 [simp]: "fl 0 = Fin 0"
proof -
  have "\<not> pow2 1024 \<le> 0" using pow2_pos [of 1024] by linarith
  then show ?thesis by (simp add: fl_def)
qed

lemma fl_minus: "fl d = Fin x \<Longrightarrow> fl (- d) = Fin (- x)"
  using pow2_pos [of 1024] by (auto simp: fl_def not_le split: if_splits)


lemma fl_rat_idem: "fl_rat (fl_rat r) = fl_rat r"
proof (cases "r = 0")
  case False
  let ?u = "ulp_exp r"
  define j where "j = round_even (r / pow2 ?u)"
  have fl: "fl_rat r = of_int j * pow2 ?u" using False by (simp add: fl_rat_def j_def)
  have u: "- 1074 \<le> ?u" "ilog2 \<bar>r\<bar> - 52 \<le> ?u" by (simp_all add: ulp_exp_def)
  have "\<bar>r\<bar> < pow2 (ilog2 \<bar>r\<bar> + 1)" using False by (intro ilog2_bounds) simp
  also have "\<dots> \<le> pow2 (53 + ?u)" using u(2) by (intro pow2_mono) simp
  finally have "\<bar>r / pow2 ?u\<bar> \<le> of_int (2 ^ 53)" using pow2_multiple [of ?u "53 + ?u"] by (simp add: abs_divide field_simps)
  then have "- of_int (2 ^ 53) \<le> r / pow2 ?u" "r / pow2 ?u \<le> of_int (2 ^ 53)" by (simp_all only: abs_le_iff) linarith
  then have "round_even (of_int (- (2 ^ 53))) \<le> j" "j \<le> round_even (of_int (2 ^ 53))"
    unfolding j_def by (intro round_even_mono; simp)+
  then have "\<bar>j\<bar> < 2 ^ 53 \<or> \<bar>j\<bar> = 2 ^ 53" unfolding round_even_of_int by linarith
  then show ?thesis
  proof
    assume "\<bar>j\<bar> < 2 ^ 53"
    then show ?thesis unfolding fl using u(1) by (intro fl_rat_exact) simp_all
  next
    assume j: "\<bar>j\<bar> = 2 ^ 53"
    then have "j = 2 ^ 53 \<or> j = - (2 ^ 53)" by linarith
    then have eq: "fl_rat r = of_int (sgn j) * pow2 (53 + ?u)"
      using pow2_multiple [of ?u "53 + ?u"] by (elim disjE) (simp_all add: fl)
    show ?thesis using u(1) by (intro fl_rat_exact [OF eq]) (simp_all add: abs_sgn_eq)
  qed
qed simp

lemma fl_Fin_idem: "fl d = Fin x \<Longrightarrow> fl x = Fin x"
  by (auto simp: fl_def fl_rat_idem split: if_splits)

section \<open>Digits read back\<close>

lemma code_point_char_of [simp]: "n < 256 \<Longrightarrow> code_point (char_of n) = n"
  by (simp add: code_point_def)

lemma nat_of_digits_simps [simp]:
  "nat_of_digits [] = 0" "nat_of_digits (ds @ [c]) = 10 * nat_of_digits ds + digit_value c"
  by (simp_all add: nat_of_digits_def)

lemma nat_of_digits_append: "nat_of_digits (ds @ es) = nat_of_digits ds * 10 ^ length es + nat_of_digits es"
  by (induction es rule: rev_induct) (simp_all flip: append_assoc)

lemma nat_of_digits_zeros [simp]: "nat_of_digits (replicate n CHR ''0'') = 0"
  by (induction n) (simp_all add: replicate_append_same [symmetric] digit_value_def code_point_def)

lemma nat_of_digits_zero [simp]: "nat_of_digits (CHR ''0'' # ds) = nat_of_digits ds"
  using nat_of_digits_append [of "''0''" ds] by (simp add: nat_of_digits_def digit_value_def code_point_def)

lemma digit_char [simp]: "d < 10 \<Longrightarrow> is_digit (char_of (48 + d))" "d < 10 \<Longrightarrow> digit_value (char_of (48 + d)) = d"
  by (simp_all add: is_digit_def digit_value_def)

lemma is_digit_zero [simp]: "is_digit CHR ''0''"
  by (simp add: is_digit_def code_point_def)

lemma nat_of_str_nat [simp]: "nat_of_digits (str_nat n) = n"
proof (induction n rule: str_nat.induct)
  case (1 n)
  then show ?case by (cases "n < 10") (simp_all add: str_nat.simps [of n] nat_of_digits_def)
qed

lemma str_nat_digits [simp]: "list_all is_digit (str_nat n)"
proof (induction n rule: str_nat.induct)
  case (1 n)
  then show ?case by (cases "n < 10") (simp_all add: str_nat.simps [of n])
qed

lemma str_nat_nonempty [simp]: "str_nat n \<noteq> []"
  by (simp add: str_nat.simps [of n])

lemma hd_str_nat: "hd (str_nat n) = CHR ''0'' \<longleftrightarrow> n = 0"
proof (induction n rule: str_nat.induct)
  case (1 n)
  show ?case
  proof (cases "n < 10")
    case True
    have "char_of (of_char CHR ''0'' :: nat) = CHR ''0''" by (rule char_of_char)
    then have "char_of (48 + n) = CHR ''0'' \<longleftrightarrow> n = 0"
      using digit_char(2) [OF True] digit_char(2) [of 0] by (cases "n = 0") auto
    with True show ?thesis by (simp add: str_nat.simps [of n])
  qed (use 1 in \<open>simp add: str_nat.simps [of n] div_eq_0_iff\<close>)
qed

lemma str_nat_lower: "0 < n \<Longrightarrow> 10 ^ (length (str_nat n) - 1) \<le> n"
  and str_nat_upper: "n < 10 ^ length (str_nat n)"
proof (induction n rule: str_nat.induct)
  case (1 n)
  { case 1
    show ?case
    proof (cases "n < 10")
      case False
      then have "10 ^ (length (str_nat (n div 10)) - 1) \<le> n div 10" using "1.IH"(1) by simp
      then have "10 * 10 ^ (length (str_nat (n div 10)) - 1) \<le> n" by linarith
      moreover have "0 < length (str_nat (n div 10))" by simp
      ultimately show ?thesis
        using False by (simp add: str_nat.simps [of n] flip: power_Suc del: length_greater_0_conv)
    qed (use 1 in \<open>simp add: str_nat.simps [of n]\<close>)
  next
    case 2
    show ?case
    proof (cases "n < 10")
      case False
      then have "n div 10 < 10 ^ length (str_nat (n div 10))" using "1.IH"(2) by simp
      then have "n < 10 * 10 ^ length (str_nat (n div 10))" by linarith
      with False show ?thesis by (simp add: str_nat.simps [of n])
    qed (simp add: str_nat.simps [of n])
  }
qed


section \<open>The written digits denote the float\<close>

lemma pow10_powi: "pow10 e = 10 powi e"
  by (simp add: pow10_def power_int_def field_simps)

lemma pow10_pos [simp]: "0 < pow10 e"
  by (simp add: pow10_powi)

lemma pow10_neq_0 [simp]: "pow10 e \<noteq> 0"
  by (metis less_irrefl pow10_pos)

lemma pow10_add: "pow10 (a + b) = pow10 a * pow10 b"
  by (simp add: pow10_powi power_int_add)

lemma pow10_int [simp]: "pow10 (int n) = 10 ^ n"
  by (simp add: pow10_def)

lemma ilog10_le:
  assumes "0 < r" shows "pow10 (ilog10 r) \<le> r"
proof -
  obtain p q where pq: "quotient_of r = (p, q)" by (cases "quotient_of r")
  let ?lp = "length (str_nat (nat p))" and ?lq = "length (str_nat (nat q))"
  have q: "0 < q" using pq by (rule quotient_of_denom_pos)
  have r: "r = of_int p / of_int q" using pq by (rule quotient_of_div)
  with assms q have p: "0 < p" by (simp add: zero_less_divide_iff)
  have "(of_nat (10 ^ (?lp - 1)) :: rat) \<le> of_nat (nat p)" and "(of_nat (nat q) :: rat) < of_nat (10 ^ ?lq)"
    unfolding of_nat_le_iff of_nat_less_iff using str_nat_lower [of "nat p"] str_nat_upper [of "nat q"] p by simp_all
  then have "(10 ^ (?lp - 1) :: rat) \<le> of_int p" "(of_int q :: rat) < 10 ^ ?lq" using p q by simp_all
  then have "10 ^ (?lp - 1) / 10 ^ ?lq \<le> r" unfolding r using p q by (intro frac_le) simp_all
  moreover have "int (?lp - 1) = int ?lp - 1" using str_nat_nonempty [of "nat p"] by (cases "str_nat (nat p)") simp_all
  then have p10: "10 ^ (?lp - 1) = pow10 (int ?lp - int ?lq - 1) * 10 ^ ?lq"
    using pow10_add [of "int ?lp - int ?lq - 1" "int ?lq"] pow10_int [of "?lp - 1"] by simp
  ultimately have "pow10 (int ?lp - int ?lq - 1) \<le> r" unfolding p10 by simp
  then show ?thesis using pq by (auto simp: ilog10_def Let_def)
qed

lemma decimal_with_Some:
  assumes "decimal_with x n = Some (m, k)" "0 < x"
  shows "fl (of_int m * pow10 k) = Fin x" and "0 < m"
proof -
  from assms(1) have "m \<in> {\<lfloor>x / pow10 k\<rfloor>, \<lfloor>x / pow10 k\<rfloor> + 1}" and r: "fl (of_int m * pow10 k) = Fin x"
    by (auto simp: decimal_with_def Let_def split: if_splits)
  moreover have "0 \<le> \<lfloor>x / pow10 k\<rfloor>" using assms(2) by (simp add: less_imp_le)
  moreover have "m \<noteq> 0" using r assms(2) by auto
  ultimately show "0 < m" by (elim insertE emptyE) linarith+
  show "fl (of_int m * pow10 k) = Fin x" by (rule r)
qed

lemma decimal_17_near:
  assumes "0 < x"
  shows "x / pow10 (ilog10 x - 16) * pow2 (- 54) > 1/2"
proof -
  have "pow10 (ilog10 x) \<le> x" using assms by (rule ilog10_le)
  then have "1 \<le> x / pow10 (ilog10 x)" by simp
  moreover have "pow10 (ilog10 x) = pow10 (ilog10 x - 16) * 10 ^ 16"
    using pow10_add [of "ilog10 x - 16" 16] by (simp add: pow10_def [of 16])
  ultimately have "10 ^ 16 \<le> x / pow10 (ilog10 x - 16)" by (simp add: field_simps)
  then have "10 ^ 16 * pow2 (- 54) \<le> x / pow10 (ilog10 x - 16) * pow2 (- 54)" by (rule mult_right_mono) simp
  moreover have "(1/2 :: rat) < 10 ^ 16 * pow2 (- 54)" by (simp add: pow2_def)
  ultimately show ?thesis by linarith
qed

lemma decimal_17:
  assumes "0 < x" "fl x = Fin x"
  shows "decimal_with x 17 \<noteq> None"
proof -
  let ?k = "ilog10 x - 16"
  let ?q = "x / pow10 ?k" and ?m = "\<lfloor>x / pow10 (ilog10 x - 16)\<rfloor>"
  have reads: "fl (of_int m * pow10 ?k) = Fin x" if "\<bar>of_int m - ?q\<bar> \<le> 1/2" for m
  proof (rule fl_near [OF assms])
    have "of_int m * pow10 ?k - x = (of_int m - ?q) * pow10 ?k" by (simp add: algebra_simps)
    then have "\<bar>of_int m * pow10 ?k - x\<bar> = \<bar>of_int m - ?q\<bar> * pow10 ?k" by (simp add: abs_mult less_imp_le)
    also have "\<dots> < ?q * pow2 (- 54) * pow10 ?k"
      by (rule mult_strict_right_mono [OF le_less_trans [OF that decimal_17_near [OF assms(1)]] pow10_pos])
    finally show "\<bar>of_int m * pow10 ?k - x\<bar> < x * pow2 (- 54)" by (simp add: field_simps)
  qed
  have "?q - of_int ?m < 1/2 \<Longrightarrow> \<bar>of_int ?m - ?q\<bar> \<le> 1/2" and "1/2 \<le> ?q - of_int ?m \<Longrightarrow> \<bar>of_int (?m + 1) - ?q\<bar> \<le> 1/2"
    using floor_correct [of ?q] by (auto simp: abs_le_iff)
  with reads have "fl (of_int ?m * pow10 ?k) = Fin x \<or> fl (of_int (?m + 1) * pow10 ?k) = Fin x" by (meson not_less)
  then show ?thesis by (auto simp: decimal_with_def Let_def add.commute find_None_iff)
qed

lemma shortest_decimal_Some:
  "n \<in> set ns \<Longrightarrow> decimal_with x n \<noteq> None \<Longrightarrow> \<exists>n'. decimal_with x n' = Some (shortest_decimal x ns)"
  by (induction ns) (auto split: option.splits)

text \<open>The digits \<^verbatim>\<open>repr\<close> prints denote a decimal that rounds to the float.\<close>

lemma shortest_decimal_reads:
  assumes "0 < x" "fl x = Fin x" "shortest_decimal x [1..<18] = (m, k)"
  shows "fl (of_int m * pow10 k) = Fin x" and "0 < m"
proof -
  obtain n where "decimal_with x n = Some (m, k)"
    using shortest_decimal_Some [of 17 "[1..<18]" x] decimal_17 [OF assms(1,2)] assms(3) by auto
  then show "fl (of_int m * pow10 k) = Fin x" and "0 < m" using decimal_with_Some assms(1) by blast+
qed

section \<open>The scanner reads back what was written\<close>

text \<open>The texts of the number grammar, and where a number ends.\<close>

definition num_end :: "string \<Rightarrow> bool" where
  "num_end r \<longleftrightarrow> (case r of [] \<Rightarrow> True | c # _ \<Rightarrow> \<not> is_digit c \<and> c \<noteq> CHR ''.'' \<and> c \<noteq> CHR ''e'' \<and> c \<noteq> CHR ''E'')"

definition int_text :: "string \<Rightarrow> bool" where
  "int_text ds \<longleftrightarrow> list_all is_digit ds \<and> ds \<noteq> [] \<and> (hd ds = CHR ''0'' \<longrightarrow> ds = ''0'')"

definition frac_text :: "string \<Rightarrow> string" where
  "frac_text ds = (if ds = [] then '''' else ''.'' @ ds)"

definition exp_text :: "int option \<Rightarrow> string" where
  "exp_text e = (case e of None \<Rightarrow> '''' | Some i \<Rightarrow> ''e'' @ (if i < 0 then ''-'' else ''+'') @ two_digits (nat \<bar>i\<bar>))"

definition no_digit :: "string \<Rightarrow> bool" where
  "no_digit r \<longleftrightarrow> (case r of [] \<Rightarrow> True | c # _ \<Rightarrow> \<not> is_digit c)"

lemma span_digits:
  assumes "list_all is_digit ds" "no_digit r"
  shows "takeWhile is_digit (ds @ r) = ds" "dropWhile is_digit (ds @ r) = r"
  using assms by (induction ds) (auto simp: no_digit_def split: list.splits)

lemma number_int_text:
  assumes "int_text ds" "no_digit r"
  shows "number_int (ds @ r) = Some (ds, r)"
proof -
  obtain c ds' where ds: "ds = c # ds'" using assms(1) by (cases ds) (auto simp: int_text_def)
  have "list_all is_digit ds" and z: "c = CHR ''0'' \<Longrightarrow> ds' = []" using assms(1) by (auto simp: int_text_def ds)
  from span_digits [OF this(1) assms(2)] this(1) z show ?thesis by (auto simp: number_int_def ds)
qed

lemma number_frac_text:
  assumes "list_all is_digit ds" "no_digit r" "ds = [] \<Longrightarrow> r = [] \<or> hd r \<noteq> CHR ''.''"
  shows "number_frac (frac_text ds @ r) = (ds, r)"
proof (cases "ds = []")
  case True
  then show ?thesis using assms(3) by (cases r) (auto simp: number_frac_def frac_text_def)
qed (simp add: number_frac_def frac_text_def span_digits assms(1,2))

lemma two_digits_simps [simp]:
  "list_all is_digit (two_digits n)" "two_digits n \<noteq> []" "nat_of_digits (two_digits n) = n"
  by (simp_all add: two_digits_def)

lemma number_exp_text:
  assumes "num_end r"
  shows "number_exp (exp_text e @ r) = (e, r)"
proof (cases e)
  case None
  then show ?thesis using assms by (simp add: number_exp_def exp_text_def num_end_def split: list.splits)
next
  case (Some i)
  have "no_digit r" using assms by (auto simp: no_digit_def num_end_def split: list.splits)
  then show ?thesis by (simp add: number_exp_def exp_text_def Some span_digits)
qed

definition number_value :: "bool \<Rightarrow> string \<Rightarrow> string \<Rightarrow> int option \<Rightarrow> json" where
  "number_value neg ip fr e =
     (let sign = (if neg then - 1 else 1 :: int)
      in if fr = [] \<and> e = None then JInt (sign * int (nat_of_digits ip))
         else JFloat (fl (of_int (sign * int (nat_of_digits (ip @ fr))) * pow10 ((case e of None \<Rightarrow> 0 | Some i \<Rightarrow> i) - int (length fr)))))"

lemma json_number_text:
  assumes ip: "int_text ip" and fr: "list_all is_digit fr" and r: "num_end r"
  shows "json_number ((if neg then ''-'' else '''') @ ip @ frac_text fr @ exp_text e @ r) = Some (number_value neg ip fr e, r)"
proof -
  obtain c ip' where c: "ip = c # ip'" "is_digit c" using ip by (cases ip) (auto simp: int_text_def)
  have nd: "no_digit r" "no_digit (exp_text e @ r)" "no_digit (frac_text fr @ exp_text e @ r)"
    and dot: "exp_text e @ r = [] \<or> hd (exp_text e @ r) \<noteq> CHR ''.''"
    using r by (auto simp: no_digit_def num_end_def exp_text_def frac_text_def is_digit_def code_point_def split: list.splits option.splits)
  have "c \<noteq> CHR ''-''" using c(2) by (auto simp: is_digit_def code_point_def)
  then have "number_sign ((if neg then ''-'' else '''') @ ip @ s) = (neg, ip @ s)" for s by (simp add: number_sign_def c(1))
  then show ?thesis
    by (simp only: json_number_def number_value_def number_int_text [OF ip nd(3)] number_frac_text [OF fr nd(2) dot]
        number_exp_text [OF r] Let_def prod.case option.case if_distrib [of Some] if_distrib [of "\<lambda>v. (v, r)"])
qed

text \<open>Integers.\<close>

lemma int_text_str_nat: "int_text (str_nat n)"
proof (cases "n = 0")
  case True
  have "char_of (of_char CHR ''0'' :: nat) = CHR ''0''" by (rule char_of_char)
  with True show ?thesis by (simp add: int_text_def str_nat.simps)
qed (simp add: int_text_def hd_str_nat)

lemma json_number_int: "num_end r \<Longrightarrow> json_number (str_int i @ r) = Some (JInt i, r)"
  using json_number_text [OF int_text_str_nat, of "[]" r "i < 0" "nat \<bar>i\<bar>" None]
  by (simp add: frac_text_def exp_text_def number_value_def str_int_def split: if_splits)

text \<open>Floats: the three layouts of \<^verbatim>\<open>repr\<close> denote the digits scaled by the decimal point.\<close>

lemma pow10_minus: "pow10 (- e) = 1 / pow10 e"
  by (simp add: pow10_powi power_int_minus_divide)

lemma trailing_zeros:
  assumes "0 \<le> n"
  shows "of_nat (nat_of_digits ((ds @ replicate (nat n) CHR ''0'') @ ''0'')) * pow10 (- 1) = of_nat (nat_of_digits ds) * pow10 n"
  using assms by (simp add: nat_of_digits_append pow10_def [of n] pow10_def [of "-1"] digit_value_def code_point_def)

lemma format_repr_text:
  assumes ds: "list_all is_digit ds" "ds \<noteq> []" "hd ds \<noteq> CHR ''0''"
  obtains ip fr e where "format_repr ds decpt = ip @ frac_text fr @ exp_text e" "int_text ip" "list_all is_digit fr"
    "fr \<noteq> [] \<or> e \<noteq> None"
    "of_nat (nat_of_digits (ip @ fr)) * pow10 ((case e of None \<Rightarrow> 0 | Some i \<Rightarrow> i) - int (length fr)) =
     of_nat (nat_of_digits ds) * pow10 (decpt - int (length ds))"
proof -
  let ?zeros = "\<lambda>n. replicate (nat n) CHR ''0''"
  have digits: "list_all is_digit (?zeros n)" for n by (simp add: list_all_iff)
  consider (small) "-4 < decpt" "decpt \<le> 0" | (whole) "0 < decpt" "decpt \<le> 16" "int (length ds) \<le> decpt"
    | (point) "0 < decpt" "decpt \<le> 16" "decpt < int (length ds)" | (sci) "\<not> (-4 < decpt \<and> decpt \<le> 16)"
    by linarith
  then show thesis
  proof cases
    case small
    show thesis
    proof (rule that [of "''0''" "?zeros (- decpt) @ ds" None])
      show "format_repr ds decpt = ''0'' @ frac_text (?zeros (- decpt) @ ds) @ exp_text None"
        using small ds(2) by (simp add: format_repr_def frac_text_def exp_text_def)
    qed (use ds digits small in \<open>simp_all add: int_text_def nat_of_digits_append\<close>)
  next
    case whole
    show thesis
    proof (rule that [of "ds @ ?zeros (decpt - int (length ds))" "''0''" None])
      show "format_repr ds decpt = (ds @ ?zeros (decpt - int (length ds))) @ frac_text ''0'' @ exp_text None"
        using whole by (simp add: format_repr_def frac_text_def exp_text_def)
    qed (use ds digits whole trailing_zeros [of "decpt - int (length ds)" ds] in \<open>simp_all add: int_text_def\<close>)
  next
    case point
    have len: "nat decpt < length ds" using point by simp
    show thesis
    proof (rule that [of "take (nat decpt) ds" "drop (nat decpt) ds" None])
      show "format_repr ds decpt = take (nat decpt) ds @ frac_text (drop (nat decpt) ds) @ exp_text None"
        using point len by (simp add: format_repr_def frac_text_def exp_text_def)
      show "int_text (take (nat decpt) ds)" "list_all is_digit (drop (nat decpt) ds)"
        using ds point by (auto simp: int_text_def list_all_iff dest: in_set_takeD in_set_dropD)
      show "drop (nat decpt) ds \<noteq> [] \<or> None \<noteq> None" using len by simp
    qed (use point len in simp)
  next
    case sci
    obtain c ds' where c: "ds = c # ds'" using ds(2) by (cases ds) auto
    show thesis
    proof (rule that [of "[c]" ds' "Some (decpt - 1)"])
      show "format_repr ds decpt = [c] @ frac_text ds' @ exp_text (Some (decpt - 1))"
        using sci c by (auto simp: format_repr_def frac_text_def exp_text_def Let_def)
    qed (use ds c in \<open>simp_all add: int_text_def diff_diff_eq\<close>)
  qed
qed

lemma strip_zeros_split: "\<exists>j. ds = strip_zeros ds @ replicate j CHR ''0''"
proof -
  let ?P = "\<lambda>c. c = CHR ''0''"
  have "takeWhile ?P (rev ds) = replicate (length (takeWhile ?P (rev ds))) CHR ''0''"
    by (rule replicate_length_same [symmetric]) (auto dest: set_takeWhileD)
  then obtain j where j: "takeWhile ?P (rev ds) = replicate j CHR ''0''" by blast
  have "ds = rev (takeWhile ?P (rev ds) @ dropWhile ?P (rev ds))" by simp
  then show ?thesis unfolding rev_append j rev_replicate strip_zeros_def [symmetric] by blast
qed

lemma json_number_repr_pos:
  assumes x: "0 < x" "fl x = Fin x" and r: "num_end r"
  shows "json_number ((if neg then ''-'' else '''') @ repr_pos x @ r) = Some (JFloat (Fin (if neg then - x else x)), r)"
proof -
  obtain m k where mk: "shortest_decimal x [1..<18] = (m, k)" by (cases "shortest_decimal x [1..<18]")
  define ds where "ds = str_nat (nat m)"
  have reads: "fl (of_int m * pow10 k) = Fin x" and "0 < m" using shortest_decimal_reads [OF x mk] by simp_all
  then have "hd ds \<noteq> CHR ''0''" by (simp add: ds_def hd_str_nat)
  obtain j where j: "ds = strip_zeros ds @ replicate j CHR ''0''" using strip_zeros_split by blast
  have "strip_zeros ds \<noteq> []"
    using j \<open>hd ds \<noteq> CHR ''0''\<close> str_nat_nonempty [of "nat m"] by (cases j) (auto simp: ds_def)
  moreover have "list_all is_digit (strip_zeros ds)" "hd (strip_zeros ds) \<noteq> CHR ''0''"
    using j \<open>hd ds \<noteq> CHR ''0''\<close> \<open>strip_zeros ds \<noteq> []\<close> str_nat_digits [of "nat m"]
    by (metis ds_def list_all_append, metis hd_append)
  ultimately obtain ip fr e where t: "format_repr (strip_zeros ds) (k + int (length ds)) = ip @ frac_text fr @ exp_text e"
    "int_text ip" "list_all is_digit fr" "fr \<noteq> [] \<or> e \<noteq> None"
    and v: "of_nat (nat_of_digits (ip @ fr)) * pow10 ((case e of None \<Rightarrow> 0 | Some i \<Rightarrow> i) - int (length fr)) =
      of_nat (nat_of_digits (strip_zeros ds)) * pow10 (k + int (length ds) - int (length (strip_zeros ds)))"
    using format_repr_text [of "strip_zeros ds" "k + int (length ds)"] by metis
  have "length ds = length (strip_zeros ds) + j" using arg_cong [OF j, of length] by simp
  then have "pow10 (k + int (length ds) - int (length (strip_zeros ds))) = pow10 k * 10 ^ j" by (simp add: pow10_add)
  moreover have "of_nat (nat_of_digits (strip_zeros ds)) * 10 ^ j = (of_int m :: rat)"
  proof -
    have "nat_of_digits (strip_zeros ds) * 10 ^ j = nat m"
      using arg_cong [OF j, of nat_of_digits] by (simp add: nat_of_digits_append) (simp add: ds_def)
    then have "of_nat (nat_of_digits (strip_zeros ds) * 10 ^ j) = (of_nat (nat m) :: rat)" by simp
    with \<open>0 < m\<close> show ?thesis by simp
  qed
  ultimately have "of_nat (nat_of_digits (ip @ fr)) * pow10 ((case e of None \<Rightarrow> 0 | Some i \<Rightarrow> i) - int (length fr)) = of_int m * pow10 k"
    unfolding v by (simp add: ac_simps)
  then have "number_value neg ip fr e = JFloat (fl ((if neg then - 1 else 1) * (of_int m * pow10 k)))"
    using t(4) by (auto simp: number_value_def)
  moreover have "repr_pos x = ip @ frac_text fr @ exp_text e" by (simp only: repr_pos_def mk ds_def [symmetric] t(1) Let_def prod.case)
  ultimately show ?thesis using json_number_text [OF t(2,3) r, of neg e] reads fl_minus [OF reads] by simp
qed

lemma json_number_float:
  assumes "fl x = Fin x" "num_end r"
  shows "json_number (float_repr (Fin x) @ r) = Some (JFloat (Fin x), r)"
proof -
  consider "x = 0" | "0 < x" | "x < 0" by linarith
  then show ?thesis
  proof cases
    case 1
    show ?thesis using json_number_text [of "''0''" "''0''" r False None] assms(2)
      by (simp add: 1 int_text_def frac_text_def exp_text_def number_value_def)
  next
    case 2
    then show ?thesis using json_number_repr_pos [OF 2 assms, of False] by simp
  next
    case 3
    then show ?thesis using json_number_repr_pos [of "- x" r True] fl_minus [OF assms(1)] assms(2) by simp
  qed
qed

end
