(* ===== verification/Utf8.thy ===== *)
theory Utf8
  imports Prelude "HOL-Library.Word"
begin

text \<open>
  \<^verbatim>\<open>str.encode('utf-8')\<close> and \<^verbatim>\<open>bytes.decode('utf-8')\<close> as the Kafka adapters use them, on code
  points in full and then on the model's strings.  The decoder is strict: it accepts no
  overlong form, no surrogate, nothing above U+10FFFF and no truncated sequence.  The error handler
  \<^verbatim>\<open>surrogatepass\<close>, which \<^verbatim>\<open>json.loads\<close> passes, accepts surrogates in addition.
\<close>

type_synonym byte = "8 word"

definition scalar :: "nat \<Rightarrow> bool" where
  "scalar cp \<longleftrightarrow> cp < 0x110000 \<and> \<not> (0xD800 \<le> cp \<and> cp < 0xE000)"

definition utf8_char :: "nat \<Rightarrow> byte list" where
  "utf8_char cp =
     (if cp < 0x80 then [of_nat cp]
      else if cp < 0x800 then [of_nat (0xC0 + cp div 64), of_nat (0x80 + cp mod 64)]
      else if cp < 0x10000 then
        [of_nat (0xE0 + cp div 4096), of_nat (0x80 + cp div 64 mod 64), of_nat (0x80 + cp mod 64)]
      else
        [of_nat (0xF0 + cp div 262144), of_nat (0x80 + cp div 4096 mod 64),
         of_nat (0x80 + cp div 64 mod 64), of_nat (0x80 + cp mod 64)])"

definition utf8_encode :: "nat list \<Rightarrow> byte list" where
  "utf8_encode cps = concat (map utf8_char cps)"

text \<open>A continuation byte carries six bits.\<close>

definition cont_bits :: "byte \<Rightarrow> nat option" where
  "cont_bits b = (if 0x80 \<le> unat b \<and> unat b < 0xC0 then Some (unat b - 0x80) else None)"

definition utf8_two :: "byte \<Rightarrow> byte \<Rightarrow> nat option" where
  "utf8_two b c =
     (case cont_bits c of
        Some x \<Rightarrow> (let cp = (unat b - 0xC0) * 64 + x in if 0x80 \<le> cp then Some cp else None)
      | None \<Rightarrow> None)"

definition utf8_three :: "byte \<Rightarrow> byte \<Rightarrow> byte \<Rightarrow> nat option" where
  "utf8_three b c d =
     (case (cont_bits c, cont_bits d) of
        (Some x, Some y) \<Rightarrow>
          (let cp = (unat b - 0xE0) * 4096 + x * 64 + y in if 0x800 \<le> cp \<and> scalar cp then Some cp else None)
      | _ \<Rightarrow> None)"

definition utf8_four :: "byte \<Rightarrow> byte \<Rightarrow> byte \<Rightarrow> byte \<Rightarrow> nat option" where
  "utf8_four b c d e =
     (case (cont_bits c, cont_bits d, cont_bits e) of
        (Some x, Some y, Some z) \<Rightarrow>
          (let cp = (unat b - 0xF0) * 262144 + x * 4096 + y * 64 + z
           in if 0x10000 \<le> cp \<and> scalar cp then Some cp else None)
      | _ \<Rightarrow> None)"

text \<open>The first character of a text and the bytes after it.\<close>

fun utf8_next :: "byte list \<Rightarrow> (nat \<times> byte list) option" where
  "utf8_next [] = None"
| "utf8_next (b # bs) =
     (if unat b < 0x80 then Some (unat b, bs)
      else if unat b < 0xC0 then None
      else if unat b < 0xE0 then
        (case bs of c # r \<Rightarrow> map_option (\<lambda>cp. (cp, r)) (utf8_two b c) | _ \<Rightarrow> None)
      else if unat b < 0xF0 then
        (case bs of c # d # r \<Rightarrow> map_option (\<lambda>cp. (cp, r)) (utf8_three b c d) | _ \<Rightarrow> None)
      else if unat b < 0xF8 then
        (case bs of c # d # e # r \<Rightarrow> map_option (\<lambda>cp. (cp, r)) (utf8_four b c d e) | _ \<Rightarrow> None)
      else None)"

lemma utf8_next_shorter: "utf8_next bs = Some (cp, r) \<Longrightarrow> length r < length bs"
  by (cases bs) (auto split: if_splits list.splits)

function utf8_decode :: "byte list \<Rightarrow> nat list option" where
  "utf8_decode bs =
     (if bs = [] then Some []
      else case utf8_next bs of
             None \<Rightarrow> None
           | Some (cp, r) \<Rightarrow> map_option (Cons cp) (utf8_decode r))"
  by pat_completeness auto
termination
  by (relation "measure length") (auto dest: utf8_next_shorter)

declare utf8_decode.simps [simp del]

section \<open>Decoding is the inverse of encoding\<close>

lemma unat_byte: "n < 256 \<Longrightarrow> unat (of_nat n :: byte) = n"
  by (simp add: unat_of_nat)

lemma cont_bits_of_nat: "n < 64 \<Longrightarrow> cont_bits (of_nat (0x80 + n)) = Some n"
  by (simp add: cont_bits_def unat_byte del: of_nat_add)

lemma cont_bits_Some: "cont_bits b = Some x \<Longrightarrow> x < 64 \<and> b = of_nat (0x80 + x)"
  by (auto simp: cont_bits_def simp flip: of_nat_add split: if_splits)

lemma div_64_chain:
  fixes n :: nat
  shows "n div 64 * 64 + n mod 64 = n" and "n div 4096 * 4096 + n div 64 mod 64 * 64 + n mod 64 = n"
    and "n div 262144 * 262144 + n div 4096 mod 64 * 4096 + n div 64 mod 64 * 64 + n mod 64 = n"
proof -
  have split: "m div 64 * 64 + m mod 64 = m" for m :: nat by simp
  have a: "n div 4096 = n div 64 div 64" and b: "n div 262144 = n div 64 div 64 div 64"
    by (simp_all add: div_mult2_eq [symmetric])
  show "n div 64 * 64 + n mod 64 = n" by (rule split)
  show "n div 4096 * 4096 + n div 64 mod 64 * 64 + n mod 64 = n"
    unfolding a using split [of n] split [of "n div 64"] by linarith
  show "n div 262144 * 262144 + n div 4096 mod 64 * 4096 + n div 64 mod 64 * 64 + n mod 64 = n"
    unfolding a b using split [of n] split [of "n div 64"] split [of "n div 64 div 64"] by linarith
qed

lemma utf8_next_char:
  assumes "scalar cp"
  shows "utf8_next (utf8_char cp @ r) = Some (cp, r)"
proof -
  consider "cp < 0x80" | "0x80 \<le> cp" "cp < 0x800" | "0x800 \<le> cp" "cp < 0x10000" | "0x10000 \<le> cp" "cp < 0x110000"
    using assms unfolding scalar_def by linarith
  then show ?thesis
  proof cases
    case 1
    then show ?thesis by (simp add: utf8_char_def unat_byte)
  next
    case 2
    define h where "h = cp div 64"
    have "h < 32" using 2 by (simp add: h_def less_mult_imp_div_less)
    then have "unat (of_nat (0xC0 + h) :: byte) = 0xC0 + h" by (intro unat_byte) simp
    with \<open>h < 32\<close> show ?thesis
      using 2 div_64_chain(1) [of cp, folded h_def] by (simp add: utf8_char_def utf8_two_def cont_bits_of_nat Let_def flip: h_def del: of_nat_add)
  next
    case 3
    define h where "h = cp div 4096"
    have "h < 16" using 3 by (simp add: h_def less_mult_imp_div_less)
    then have "unat (of_nat (0xE0 + h) :: byte) = 0xE0 + h" by (intro unat_byte) simp
    with \<open>h < 16\<close> show ?thesis
      using 3 assms div_64_chain(2) [of cp, folded h_def]
      by (simp add: utf8_char_def utf8_three_def cont_bits_of_nat Let_def flip: h_def del: of_nat_add)
  next
    case 4
    define h where "h = cp div 262144"
    have "h < 5" using 4 by (simp add: h_def less_mult_imp_div_less)
    then have "unat (of_nat (0xF0 + h) :: byte) = 0xF0 + h" by (intro unat_byte) simp
    with \<open>h < 5\<close> show ?thesis
      using 4 assms div_64_chain(3) [of cp, folded h_def]
      by (simp add: utf8_char_def utf8_four_def cont_bits_of_nat Let_def flip: h_def del: of_nat_add)
  qed
qed

lemma div_mod_64: "y < 64 \<Longrightarrow> (q * 64 + y) div 64 = q" "y < 64 \<Longrightarrow> (q * 64 + y) mod 64 = (y :: nat)"
  by simp_all

lemma digits_64:
  assumes "x < 64" "y < 64" "z < (64 :: nat)"
  shows "((h * 64 + x) * 64 + y) div 4096 = h" "((h * 64 + x) * 64 + y) div 64 mod 64 = x"
    "((h * 64 + x) * 64 + y) mod 64 = y"
    "(((h * 64 + x) * 64 + y) * 64 + z) div 262144 = h" "(((h * 64 + x) * 64 + y) * 64 + z) div 4096 mod 64 = x"
    "(((h * 64 + x) * 64 + y) * 64 + z) div 64 mod 64 = y" "(((h * 64 + x) * 64 + y) * 64 + z) mod 64 = z"
proof -
  have d: "n div 4096 = n div 64 div 64" "n div 262144 = n div 64 div 64 div 64" for n :: nat
    by (simp_all add: div_mult2_eq [symmetric])
  show "((h * 64 + x) * 64 + y) div 4096 = h" "((h * 64 + x) * 64 + y) div 64 mod 64 = x"
    "((h * 64 + x) * 64 + y) mod 64 = y"
    "(((h * 64 + x) * 64 + y) * 64 + z) div 262144 = h" "(((h * 64 + x) * 64 + y) * 64 + z) div 4096 mod 64 = x"
    "(((h * 64 + x) * 64 + y) * 64 + z) div 64 mod 64 = y" "(((h * 64 + x) * 64 + y) * 64 + z) mod 64 = z"
    unfolding d div_mod_64 [OF assms(1)] div_mod_64 [OF assms(2)] div_mod_64 [OF assms(3)] by (rule refl)+
qed

lemma byte_split: "k \<le> unat b \<Longrightarrow> unat b < k + m \<Longrightarrow> \<exists>x < m. (b :: byte) = of_nat (k + x) \<and> unat b - k = x"
  by (intro exI [of _ "unat b - k"]) (auto simp flip: of_nat_add)

lemma utf8_two_Some:
  assumes "utf8_two b c = Some cp" and "0xC0 \<le> unat b" "unat b < 0xE0"
  shows "scalar cp \<and> utf8_char cp = [b, c]"
proof -
  obtain h where h: "h < 0x20" "b = of_nat (0xC0 + h)" "unat b - 0xC0 = h" using byte_split [where k = "0xC0" and b = b and m = "0x20"] assms(2,3) by auto
  from assms(1) obtain x where "cont_bits c = Some x" "cp = h * 64 + x" "0x80 \<le> cp"
    by (auto simp: utf8_two_def h(3) Let_def split: option.splits if_splits)
  with h cont_bits_Some [of c x] show ?thesis by (auto simp: utf8_char_def scalar_def)
qed

lemma utf8_three_Some:
  assumes "utf8_three b c d = Some cp" and "0xE0 \<le> unat b" "unat b < 0xF0"
  shows "scalar cp \<and> utf8_char cp = [b, c, d]"
proof -
  obtain h where h: "h < 0x10" "b = of_nat (0xE0 + h)" "unat b - 0xE0 = h" using byte_split [where k = "0xE0" and b = b and m = "0x10"] assms(2,3) by auto
  from assms(1) obtain x y where xy: "cont_bits c = Some x" "cont_bits d = Some y" "cp = h * 4096 + x * 64 + y"
    "0x800 \<le> cp" "scalar cp"
    by (auto simp: utf8_three_def h(3) Let_def split: option.splits if_splits)
  have lt: "x < 64" "y < 64" "c = of_nat (0x80 + x)" "d = of_nat (0x80 + y)" using cont_bits_Some xy(1,2) by blast+
  have cp: "cp = (h * 64 + x) * 64 + y" using xy(3) by simp
  have "cp < 0x10000" using xy(3) h(1) lt by simp
  moreover have "cp div 4096 = h" "cp div 64 mod 64 = x" "cp mod 64 = y" unfolding cp by (rule digits_64 [OF lt(1,2) lt(2)])+
  ultimately show ?thesis using xy(4,5) h(2) lt by (simp add: utf8_char_def)
qed

lemma utf8_four_Some:
  assumes "utf8_four b c d e = Some cp" and "0xF0 \<le> unat b" "unat b < 0xF8"
  shows "scalar cp \<and> utf8_char cp = [b, c, d, e]"
proof -
  obtain h where h: "h < 8" "b = of_nat (0xF0 + h)" "unat b - 0xF0 = h" using byte_split [where k = "0xF0" and b = b and m = "8"] assms(2,3) by auto
  from assms(1) obtain x y z where xyz: "cont_bits c = Some x" "cont_bits d = Some y" "cont_bits e = Some z"
    "cp = h * 262144 + x * 4096 + y * 64 + z" "0x10000 \<le> cp" "scalar cp"
    by (auto simp: utf8_four_def h(3) Let_def split: option.splits if_splits)
  have lt: "x < 64" "y < 64" "z < 64" "c = of_nat (0x80 + x)" "d = of_nat (0x80 + y)" "e = of_nat (0x80 + z)"
    using cont_bits_Some xyz(1-3) by blast+
  have cp: "cp = ((h * 64 + x) * 64 + y) * 64 + z" using xyz(4) by simp
  have "cp div 262144 = h" "cp div 4096 mod 64 = x" "cp div 64 mod 64 = y" "cp mod 64 = z"
    unfolding cp by (rule digits_64 [OF lt(1-3)])+
  with xyz(5,6) h(2) lt show ?thesis by (simp add: utf8_char_def)
qed

lemma utf8_next_Some:
  assumes "utf8_next bs = Some (cp, r)"
  shows "scalar cp \<and> bs = utf8_char cp @ r"
proof -
  obtain b bs' where bs: "bs = b # bs'" using assms by (cases bs) auto
  consider "unat b < 0x80" "cp = unat b" "r = bs'"
    | c where "0xC0 \<le> unat b" "unat b < 0xE0" "bs' = c # r" "utf8_two b c = Some cp"
    | c d where "0xE0 \<le> unat b" "unat b < 0xF0" "bs' = c # d # r" "utf8_three b c d = Some cp"
    | c d e where "0xF0 \<le> unat b" "unat b < 0xF8" "bs' = c # d # e # r" "utf8_four b c d e = Some cp"
    using assms by (auto simp: bs not_less split: if_splits list.splits)
  then show ?thesis
  proof cases
    case 1
    then show ?thesis by (simp add: bs scalar_def utf8_char_def)
  next
    case 2
    then show ?thesis using utf8_two_Some by (simp add: bs)
  next
    case 3
    then show ?thesis using utf8_three_Some by (simp add: bs)
  next
    case 4
    then show ?thesis using utf8_four_Some by (simp add: bs)
  qed
qed

lemma utf8_char_nonempty [simp]: "utf8_char cp \<noteq> []"
  by (simp add: utf8_char_def)

lemma utf8_decode_encode: "list_all scalar cps \<Longrightarrow> utf8_decode (utf8_encode cps) = Some cps"
proof (induction cps)
  case Nil
  then show ?case by (simp add: utf8_encode_def utf8_decode.simps)
next
  case (Cons cp cps)
  then show ?case
    by (subst utf8_decode.simps) (simp add: utf8_encode_def utf8_next_char)
qed

lemma utf8_decode_Some: "utf8_decode bs = Some cps \<Longrightarrow> list_all scalar cps \<and> bs = utf8_encode cps"
proof (induction bs arbitrary: cps rule: utf8_decode.induct)
  case (1 bs)
  show ?case
  proof (cases "bs = []")
    case True
    then show ?thesis using 1(2) by (simp add: utf8_decode.simps utf8_encode_def)
  next
    case False
    with 1(2) obtain cp r cps' where next_cp: "utf8_next bs = Some (cp, r)" "utf8_decode r = Some cps'" "cps = cp # cps'"
      by (subst (asm) utf8_decode.simps) (auto split: option.splits)
    with 1(1) [OF False] utf8_next_Some [OF next_cp(1)] show ?thesis by (auto simp: utf8_encode_def)
  qed
qed

text \<open>The decoder accepts exactly the encodings of sequences of scalar values, each as itself.\<close>

lemma utf8_decode_iff: "utf8_decode bs = Some cps \<longleftrightarrow> list_all scalar cps \<and> bs = utf8_encode cps"
  using utf8_decode_encode utf8_decode_Some by blast

section \<open>The error handler surrogatepass\<close>

text \<open>Where the strict decoder stops, three bytes that encode a surrogate are accepted all the same.\<close>

definition utf8_surrogate :: "byte \<Rightarrow> byte \<Rightarrow> byte \<Rightarrow> nat option" where
  "utf8_surrogate b c d =
     (case (cont_bits c, cont_bits d) of
        (Some x, Some y) \<Rightarrow>
          (let cp = (unat b - 0xE0) * 4096 + x * 64 + y
           in if b = 0xED \<and> 0xD800 \<le> cp \<and> cp < 0xE000 then Some cp else None)
      | _ \<Rightarrow> None)"

definition utf8_next_pass :: "byte list \<Rightarrow> (nat \<times> byte list) option" where
  "utf8_next_pass bs =
     (case utf8_next bs of
        Some next \<Rightarrow> Some next
      | None \<Rightarrow>
          (case bs of b # c # d # r \<Rightarrow> map_option (\<lambda>cp. (cp, r)) (utf8_surrogate b c d) | _ \<Rightarrow> None))"

lemma utf8_next_pass_shorter: "utf8_next_pass bs = Some (cp, r) \<Longrightarrow> length r < length bs"
  by (auto simp: utf8_next_pass_def split: option.splits list.splits dest: utf8_next_shorter)

function utf8_decode_pass :: "byte list \<Rightarrow> nat list option" where
  "utf8_decode_pass bs =
     (if bs = [] then Some []
      else case utf8_next_pass bs of
             None \<Rightarrow> None
           | Some (cp, r) \<Rightarrow> map_option (Cons cp) (utf8_decode_pass r))"
  by pat_completeness auto
termination
  by (relation "measure length") (auto dest: utf8_next_pass_shorter)

declare utf8_decode_pass.simps [simp del]

text \<open>It never changes what the strict decoder accepts.\<close>

lemma utf8_decode_pass_strict: "utf8_decode bs = Some cps \<Longrightarrow> utf8_decode_pass bs = Some cps"
proof (induction bs arbitrary: cps rule: utf8_decode.induct)
  case (1 bs)
  show ?case
  proof (cases "bs = []")
    case True
    then show ?thesis using 1(2) by (simp add: utf8_decode.simps utf8_decode_pass.simps)
  next
    case False
    with 1(2) obtain cp r cps' where step: "utf8_next bs = Some (cp, r)" "utf8_decode r = Some cps'" "cps = cp # cps'"
      by (subst (asm) utf8_decode.simps) (auto split: option.splits)
    from 1(1) [OF False step(1) refl step(2)] step False show ?thesis
      by (subst utf8_decode_pass.simps) (simp add: utf8_next_pass_def)
  qed
qed

section \<open>The model's strings\<close>

text \<open>
  A string of the model holds code points below 256.  A text that decodes to other characters
  has no value in the model: \<open>of_code_points\<close> answers \<open>OutsideModel\<close> for it.
\<close>

definition of_code_points :: "nat list \<Rightarrow> error + string" where
  "of_code_points cps =
     (if list_all (\<lambda>cp. cp < 256) cps then Inr (map char_of cps)
      else Inl OutsideModel)"

definition str_encode :: "string \<Rightarrow> byte list" where
  "str_encode s = utf8_encode (map code_point s)"

definition bytes_decode :: "byte list \<Rightarrow> error + string" where
  "bytes_decode bs =
     (case utf8_decode bs of
        None \<Rightarrow> Inl (ValueError ''utf-8 codec cannot decode'')
      | Some cps \<Rightarrow> of_code_points cps)"

definition bytes_decode_pass :: "byte list \<Rightarrow> error + string" where
  "bytes_decode_pass bs =
     (case utf8_decode_pass bs of
        None \<Rightarrow> Inl (ValueError ''utf-8 codec cannot decode'')
      | Some cps \<Rightarrow> of_code_points cps)"

lemma code_point_less [simp]: "code_point c < 256"
  by (simp add: code_point_def)

lemma char_of_code_point [simp]: "char_of (code_point c) = c"
  by (simp add: code_point_def)

lemma of_code_points_str [simp]: "of_code_points (map code_point s) = Inr s"
  by (simp add: of_code_points_def list_all_iff comp_def)

lemma bytes_decode_encode [simp]: "bytes_decode (str_encode s) = Inr s"
proof -
  have "scalar (code_point c)" for c using code_point_less [of c] unfolding scalar_def by linarith
  then have "list_all scalar (map code_point s)" by (simp add: list_all_iff)
  then show ?thesis by (simp add: bytes_decode_def str_encode_def utf8_decode_encode)
qed

lemma bytes_decode_pass_strict: "bytes_decode bs = Inr s \<Longrightarrow> bytes_decode_pass bs = Inr s"
  using utf8_decode_pass_strict by (auto simp: bytes_decode_def bytes_decode_pass_def split: option.splits)

lemma bytes_decode_pass_encode [simp]: "bytes_decode_pass (str_encode s) = Inr s"
  by (simp add: bytes_decode_pass_strict)

end
