(* ===== verification/Json.thy ===== *)
theory Json
  imports Decimal Utf8
begin

text \<open>
  \<^verbatim>\<open>json.dumps\<close> with its default arguments and \<^verbatim>\<open>json.loads\<close> of the standard library, which the Kafka
  adapters put around a payload.  The printer escapes everything outside printable ASCII and writes
  floats the way \<^verbatim>\<open>repr\<close> does (the shortest digits that read back as the same number).  The parser is the
  library's scanner: white space, escapes, numbers, the constants \<^verbatim>\<open>NaN\<close> and \<^verbatim>\<open>Infinity\<close>, and objects
  in which the last value of a repeated key wins.
\<close>

section \<open>Characters\<close>

definition quote :: char where "quote = CHR 0x22"
definition backslash :: char where "backslash = CHR 0x5C"

definition hex_char :: "nat \<Rightarrow> char" where
  "hex_char n = char_of (if n < 10 then 48 + n else 87 + n)"

definition hex_value :: "char \<Rightarrow> nat option" where
  "hex_value c =
     (let n = code_point c
      in if 48 \<le> n \<and> n \<le> 57 then Some (n - 48)
         else if 97 \<le> n \<and> n \<le> 102 then Some (n - 87)
         else if 65 \<le> n \<and> n \<le> 70 then Some (n - 55)
         else None)"

section \<open>Printing\<close>

definition escape_char :: "char \<Rightarrow> string" where
  "escape_char c =
     (if c = quote then [backslash, quote]
      else if c = backslash then [backslash, backslash]
      else if c = CHR 0x0A then [backslash, CHR ''n'']
      else if c = CHR 0x0D then [backslash, CHR ''r'']
      else if c = CHR 0x09 then [backslash, CHR ''t'']
      else if c = CHR 0x0C then [backslash, CHR ''f'']
      else if c = CHR 0x08 then [backslash, CHR ''b'']
      else if 32 \<le> code_point c \<and> code_point c \<le> 126 then [c]
      else [backslash, CHR ''u'', CHR ''0'', CHR ''0'', hex_char (code_point c div 16), hex_char (code_point c mod 16)])"

definition json_quote :: "string \<Rightarrow> string" where
  "json_quote s = quote # concat (map escape_char s) @ [quote]"

fun json_dumps :: "json \<Rightarrow> string" where
  "json_dumps JNull = ''null''"
| "json_dumps (JBool b) = (if b then ''true'' else ''false'')"
| "json_dumps (JInt i) = str_int i"
| "json_dumps (JFloat x) = float_repr x"
| "json_dumps (JStr s) = json_quote s"
| "json_dumps (JList xs) = ''['' @ comma_separated (map json_dumps xs) @ '']''"
| "json_dumps (JObj kvs) = ''{'' @ comma_separated (map (\<lambda>(k, v). json_quote k @ '': '' @ json_dumps v) kvs) @ ''}''"

section \<open>Parsing\<close>

definition json_error :: "string \<Rightarrow> error" where
  "json_error msg = ValueError msg"

definition is_ws :: "char \<Rightarrow> bool" where
  "is_ws c \<longleftrightarrow> code_point c \<in> {32, 9, 10, 13}"

definition skip_ws :: "string \<Rightarrow> string" where
  "skip_ws s = dropWhile is_ws s"

definition escape_value :: "char \<Rightarrow> char option" where
  "escape_value c =
     (if c = quote then Some quote
      else if c = backslash then Some backslash
      else if c = CHR ''/'' then Some (CHR ''/'')
      else if c = CHR ''b'' then Some (CHR 0x08)
      else if c = CHR ''f'' then Some (CHR 0x0C)
      else if c = CHR ''n'' then Some (CHR 0x0A)
      else if c = CHR ''r'' then Some (CHR 0x0D)
      else if c = CHR ''t'' then Some (CHR 0x09)
      else None)"

definition hex4 :: "char \<Rightarrow> char \<Rightarrow> char \<Rightarrow> char \<Rightarrow> nat option" where
  "hex4 a b c d =
     (case (hex_value a, hex_value b, hex_value c, hex_value d) of
        (Some w, Some x, Some y, Some z) \<Rightarrow> Some (((w * 16 + x) * 16 + y) * 16 + z)
      | _ \<Rightarrow> None)"

text \<open>The rest of a string literal after its opening quote.\<close>

fun scan_string :: "string \<Rightarrow> error + (string \<times> string)" where
  "scan_string [] = Inl (json_error ''Unterminated string'')"
| "scan_string (c # s) =
     (if c = quote then Inr ([], s)
      else if c = backslash then
        (case s of
           [] \<Rightarrow> Inl (json_error ''Unterminated string'')
         | e # s' \<Rightarrow>
             if e = CHR ''u'' then
               (case s' of
                  a # b # c # d # r \<Rightarrow>
                    (case hex4 a b c d of
                       None \<Rightarrow> Inl (json_error ''Invalid unicode escape'')
                     | Some n \<Rightarrow>
                         res_bind (of_code_points [n]) (\<lambda>ch. res_bind (scan_string r) (\<lambda>(t, r'). Inr (ch @ t, r'))))
                | _ \<Rightarrow> Inl (json_error ''Invalid unicode escape''))
             else
               (case escape_value e of
                  None \<Rightarrow> Inl (json_error ''Invalid escape'')
                | Some ch \<Rightarrow> res_bind (scan_string s') (\<lambda>(t, r). Inr (ch # t, r))))
      else if code_point c < 32 then Inl (json_error ''Invalid control character'')
      else res_bind (scan_string s) (\<lambda>(t, r). Inr (c # t, r)))"

text \<open>
  The scanner.  The first argument bounds the recursion; \<open>parse_fuel\<close> below shows that twice the
  length of the text and one more never runs out.
\<close>

fun parse_value :: "nat \<Rightarrow> string \<Rightarrow> error + (json \<times> string)"
  and parse_elements :: "nat \<Rightarrow> string \<Rightarrow> error + (json list \<times> string)"
  and parse_members :: "nat \<Rightarrow> string \<Rightarrow> error + ((string \<times> json) list \<times> string)" where
  "parse_value 0 s = Inl (json_error ''fuel'')"
| "parse_value (Suc n) s =
     (case s of
        [] \<Rightarrow> Inl (json_error ''Expecting value'')
      | c # r \<Rightarrow>
          if c = quote then res_bind (scan_string r) (\<lambda>(t, r'). Inr (JStr t, r'))
          else if c = CHR ''{'' then
            (case skip_ws r of
               [] \<Rightarrow> Inl (json_error ''Expecting property name enclosed in double quotes'')
             | c' # r' \<Rightarrow>
                 if c' = CHR ''}'' then Inr (JObj [], r')
                 else res_bind (parse_members n (skip_ws r)) (\<lambda>(kvs, r''). Inr (JObj (dict_update [] kvs), r'')))
          else if c = CHR ''['' then
            (case skip_ws r of
               [] \<Rightarrow> Inl (json_error ''Expecting value'')
             | c' # r' \<Rightarrow>
                 if c' = CHR '']'' then Inr (JList [], r')
                 else res_bind (parse_elements n (skip_ws r)) (\<lambda>(xs, r''). Inr (JList xs, r'')))
          else if take 4 s = ''null'' then Inr (JNull, drop 4 s)
          else if take 4 s = ''true'' then Inr (JBool True, drop 4 s)
          else if take 5 s = ''false'' then Inr (JBool False, drop 5 s)
          else
            (case json_number s of
               Some result \<Rightarrow> Inr result
             | None \<Rightarrow>
                 if take 3 s = ''NaN'' then Inr (JFloat NaN, drop 3 s)
                 else if take 8 s = ''Infinity'' then Inr (JFloat PInf, drop 8 s)
                 else if take 9 s = ''-Infinity'' then Inr (JFloat NInf, drop 9 s)
                 else Inl (json_error ''Expecting value'')))"
| "parse_elements 0 s = Inl (json_error ''fuel'')"
| "parse_elements (Suc n) s =
     res_bind (parse_value n s) (\<lambda>(v, r).
       case skip_ws r of
         [] \<Rightarrow> Inl (json_error ''Expecting , delimiter'')
       | c # r' \<Rightarrow>
           if c = CHR '']'' then Inr ([v], r')
           else if c = CHR '','' then res_bind (parse_elements n (skip_ws r')) (\<lambda>(vs, r''). Inr (v # vs, r''))
           else Inl (json_error ''Expecting , delimiter''))"
| "parse_members 0 s = Inl (json_error ''fuel'')"
| "parse_members (Suc n) s =
     (case s of
        [] \<Rightarrow> Inl (json_error ''Expecting property name enclosed in double quotes'')
      | c # r \<Rightarrow>
          if c \<noteq> quote then Inl (json_error ''Expecting property name enclosed in double quotes'')
          else res_bind (scan_string r) (\<lambda>(k, r1).
            case skip_ws r1 of
              [] \<Rightarrow> Inl (json_error ''Expecting : delimiter'')
            | c1 # r2 \<Rightarrow>
                if c1 \<noteq> CHR '':'' then Inl (json_error ''Expecting : delimiter'')
                else res_bind (parse_value n (skip_ws r2)) (\<lambda>(v, r3).
                  case skip_ws r3 of
                    [] \<Rightarrow> Inl (json_error ''Expecting , delimiter'')
                  | c3 # r4 \<Rightarrow>
                      if c3 = CHR ''}'' then Inr ([(k, v)], r4)
                      else if c3 = CHR '','' then
                        res_bind (parse_members n (skip_ws r4)) (\<lambda>(kvs, r5). Inr ((k, v) # kvs, r5))
                      else Inl (json_error ''Expecting , delimiter''))))"

definition json_loads_text :: "string \<Rightarrow> error + json" where
  "json_loads_text s =
     res_bind (parse_value (2 * length s + 1) (skip_ws s)) (\<lambda>(v, r).
       if skip_ws r = [] then Inr v else Inl (json_error ''Extra data''))"

text \<open>
  \<^verbatim>\<open>json.loads\<close> of bytes: \<^verbatim>\<open>detect_encoding\<close> looks for byte order marks and zero bytes, and the text is decoded
  with \<^verbatim>\<open>surrogatepass\<close>.  Documents in UTF-16 or UTF-32, and those with a character beyond Latin-1 or a surrogate, as
  bytes or as an escape, are \<open>OutsideModel\<close>.
\<close>

definition utf8_detected :: "byte list \<Rightarrow> bool" where
  "utf8_detected bs \<longleftrightarrow>
     \<not> (take 2 bs = [0xFF, 0xFE] \<or> take 2 bs = [0xFE, 0xFF] \<or> take 4 bs = [0, 0, 0xFE, 0xFF] \<or>
        4 \<le> length bs \<and> (bs ! 0 = 0 \<or> bs ! 1 = 0) \<or>
        length bs = 2 \<and> (bs ! 0 = 0 \<or> bs ! 1 = 0))"

definition json_loads :: "byte list \<Rightarrow> error + json" where
  "json_loads bs =
     (if take 3 bs = [0xEF, 0xBB, 0xBF] then res_bind (bytes_decode_pass (drop 3 bs)) json_loads_text
      else if utf8_detected bs then res_bind (bytes_decode_pass bs) json_loads_text
      else Inl OutsideModel)"

section \<open>The scanner consumes text, and its bound never runs out\<close>

lemma skip_ws_le: "length (skip_ws s) \<le> length s"
  by (simp add: skip_ws_def length_dropWhile_le)

lemma skip_ws_Cons: "skip_ws s = c # r \<Longrightarrow> length r < length s"
  using skip_ws_le [of s] by simp

lemma scan_string_shorter: "scan_string s = Inr (t, r) \<Longrightarrow> length r < length s"
proof (induction s arbitrary: t r rule: scan_string.induct)
  case 1
  then show ?case by simp
next
  case (2 c s)
  then show ?case by (fastforce split: if_splits list.splits option.splits)
qed

text \<open>A value is scanned without recursion, or it is an object or an array.\<close>

lemma parse_value_cases:
  assumes "parse_value (Suc n) s = Inr (v, r)"
  obtains (leaf) "length r < length s" and "\<And>xs. v = JList xs \<Longrightarrow> xs = []" and "\<And>kvs. v = JObj kvs \<Longrightarrow> kvs = []"
  | (members) s' kvs where "s = CHR ''{'' # s'" "parse_members n (skip_ws s') = Inr (kvs, r)" "v = JObj (dict_update [] kvs)"
  | (elements) s' xs where "s = CHR ''['' # s'" "parse_elements n (skip_ws s') = Inr (xs, r)" "v = JList xs"
proof -
  obtain c s' where s: "s = c # s'" using assms by (cases s) auto
  have num: "length r < length s" "\<forall>xs. v \<noteq> JList xs" "\<forall>kvs. v \<noteq> JObj kvs" if "json_number s = Some (v, r)"
    using number_shorter [OF that] that by (auto simp: json_number_def Let_def split: prod.splits option.splits if_splits)
  consider "c = quote" | "c = CHR ''{''" "c \<noteq> quote" | "c = CHR ''[''" "c \<noteq> quote" | "c \<noteq> quote" "c \<noteq> CHR ''{''" "c \<noteq> CHR ''[''"
    by blast
  then show thesis
  proof cases
    case 1
    then show thesis using assms s leaf scan_string_shorter [of s'] by fastforce
  next
    case 2
    then show thesis using assms s leaf members [of s'] skip_ws_Cons [of s']
      by (cases "skip_ws s'") (auto split: if_splits)
  next
    case 3
    then show thesis using assms s leaf elements [of s'] skip_ws_Cons [of s']
      by (cases "skip_ws s'") (auto split: if_splits)
  next
    case 4
    have "length (drop (Suc k) (c # s')) < length (c # s')" for k by simp
    with 4 show thesis using assms s leaf num by (auto split: if_splits option.splits)
  qed
qed

lemma parse_elements_cases:
  assumes "parse_elements (Suc n) s = Inr (xs, r)"
  obtains (one) v r1 where "parse_value n s = Inr (v, r1)" "skip_ws r1 = CHR '']'' # r" "xs = [v]"
  | (more) v r1 r2 vs where "parse_value n s = Inr (v, r1)" "skip_ws r1 = CHR '','' # r2"
      "parse_elements n (skip_ws r2) = Inr (vs, r)" "xs = v # vs"
proof -
  obtain v r1 where v: "parse_value n s = Inr (v, r1)" using assms by (cases "parse_value n s") auto
  with assms obtain c r2 where r1: "skip_ws r1 = c # r2" by (cases "skip_ws r1") auto
  consider "c = CHR '']''" | "c = CHR '',''" using assms v r1 by (auto split: if_splits)
  then show thesis
  proof cases
    case 1
    then show thesis using assms v r1 one by simp
  next
    case 2
    with assms v r1 obtain vs where "parse_elements n (skip_ws r2) = Inr (vs, r)" "xs = v # vs"
      by (cases "parse_elements n (skip_ws r2)") auto
    with 2 v r1 show thesis using more by blast
  qed
qed

lemma parse_members_cases:
  assumes "parse_members (Suc n) s = Inr (kvs, r)"
  obtains (one) s' k r1 r2 v r3 where "s = quote # s'" "scan_string s' = Inr (k, r1)" "skip_ws r1 = CHR '':'' # r2"
      "parse_value n (skip_ws r2) = Inr (v, r3)" "skip_ws r3 = CHR ''}'' # r" "kvs = [(k, v)]"
  | (more) s' k r1 r2 v r3 r4 rest where "s = quote # s'" "scan_string s' = Inr (k, r1)" "skip_ws r1 = CHR '':'' # r2"
      "parse_value n (skip_ws r2) = Inr (v, r3)" "skip_ws r3 = CHR '','' # r4"
      "parse_members n (skip_ws r4) = Inr (rest, r)" "kvs = (k, v) # rest"
proof -
  obtain s' where s: "s = quote # s'" using assms by (cases s) (auto split: if_splits)
  with assms obtain k r1 where k: "scan_string s' = Inr (k, r1)" by (cases "scan_string s'") auto
  with assms s obtain r2 where r1: "skip_ws r1 = CHR '':'' # r2" by (cases "skip_ws r1") (auto split: if_splits)
  with assms s k obtain v r3 where v: "parse_value n (skip_ws r2) = Inr (v, r3)"
    by (cases "parse_value n (skip_ws r2)") auto
  with assms s k r1 obtain c r4 where r3: "skip_ws r3 = c # r4" by (cases "skip_ws r3") auto
  consider "c = CHR ''}''" | "c = CHR '',''" using assms s k r1 v r3 by (auto split: if_splits)
  then show thesis
  proof cases
    case 1
    then show thesis using assms s k r1 v r3 one by simp
  next
    case 2
    with assms s k r1 v r3 obtain rest where "parse_members n (skip_ws r4) = Inr (rest, r)" "kvs = (k, v) # rest"
      by (cases "parse_members n (skip_ws r4)") auto
    with 2 s k r1 v r3 show thesis using more by blast
  qed
qed

lemma parse_shorter:
  "parse_value n s = Inr (v, r) \<Longrightarrow> length r < length s"
  "parse_elements n s = Inr (xs, r) \<Longrightarrow> length r < length s"
  "parse_members n s = Inr (kvs, r) \<Longrightarrow> length r < length s"
proof (induction n arbitrary: s v r xs kvs)
  case 0
  { case 1 then show ?case by simp next case 2 then show ?case by simp next case 3 then show ?case by simp }
next
  case (Suc n)
  {
    case 1
    then show ?case
    proof (cases rule: parse_value_cases)
      case (members s' kvs)
      then show ?thesis using Suc.IH(3) [OF members(2)] skip_ws_le [of s'] by simp
    next
      case (elements s' xs)
      then show ?thesis using Suc.IH(2) [OF elements(2)] skip_ws_le [of s'] by simp
    qed
  next
    case 2
    then show ?case
    proof (cases rule: parse_elements_cases)
      case (one v r1)
      then show ?thesis using Suc.IH(1) [OF one(1)] skip_ws_Cons [OF one(2)] by simp
    next
      case (more v r1 r2 vs)
      then show ?thesis
        using Suc.IH(1) [OF more(1)] skip_ws_Cons [OF more(2)] Suc.IH(2) [OF more(3)] skip_ws_le [of r2] by simp
    qed
  next
    case 3
    then show ?case
    proof (cases rule: parse_members_cases)
      case (one s' k r1 r2 v r3)
      then show ?thesis
        using scan_string_shorter [OF one(2)] skip_ws_Cons [OF one(3)] skip_ws_le [of r2] Suc.IH(1) [OF one(4)]
          skip_ws_Cons [OF one(5)] by simp
    next
      case (more s' k r1 r2 v r3 r4 rest)
      then show ?thesis
        using scan_string_shorter [OF more(2)] skip_ws_Cons [OF more(3)] skip_ws_le [of r2] Suc.IH(1) [OF more(4)]
          skip_ws_Cons [OF more(5)] skip_ws_le [of r4] Suc.IH(3) [OF more(6)] by simp
    qed
  }
qed

text \<open>Two bounds give the same result on a text when they do on the shorter texts it leads to.\<close>

lemma parse_value_same:
  assumes "\<And>c r. s = c # r \<Longrightarrow> parse_elements n (skip_ws r) = parse_elements m (skip_ws r)"
    and "\<And>c r. s = c # r \<Longrightarrow> parse_members n (skip_ws r) = parse_members m (skip_ws r)"
  shows "parse_value (Suc n) s = parse_value (Suc m) s"
proof (cases s)
  case (Cons c r)
  show ?thesis unfolding parse_value.simps Cons list.case assms(1) [OF Cons] assms(2) [OF Cons] by (rule refl)
qed simp

lemma parse_elements_same:
  assumes v: "parse_value n s = parse_value m s"
    and more: "\<And>v r c r'. parse_value m s = Inr (v, r) \<Longrightarrow> skip_ws r = c # r' \<Longrightarrow>
      parse_elements n (skip_ws r') = parse_elements m (skip_ws r')"
  shows "parse_elements (Suc n) s = parse_elements (Suc m) s"
proof (cases "parse_value m s")
  case (Inr x)
  then obtain w r where w: "parse_value m s = Inr (w, r)" by (cases x) auto
  show ?thesis using more [OF w] by (cases "skip_ws r") (simp_all add: v w)
qed (simp add: v)

lemma parse_members_same:
  assumes v: "\<And>c t k r1 c1 r2. s = c # t \<Longrightarrow> scan_string t = Inr (k, r1) \<Longrightarrow> skip_ws r1 = c1 # r2 \<Longrightarrow>
      parse_value n (skip_ws r2) = parse_value m (skip_ws r2)"
    and more: "\<And>c t k r1 c1 r2 v r3 c3 r4. s = c # t \<Longrightarrow> scan_string t = Inr (k, r1) \<Longrightarrow> skip_ws r1 = c1 # r2 \<Longrightarrow>
      parse_value m (skip_ws r2) = Inr (v, r3) \<Longrightarrow> skip_ws r3 = c3 # r4 \<Longrightarrow>
      parse_members n (skip_ws r4) = parse_members m (skip_ws r4)"
  shows "parse_members (Suc n) s = parse_members (Suc m) s"
proof (cases s)
  case (Cons c t)
  note s = this
  show ?thesis
  proof (cases "scan_string t")
    case (Inr x)
    then obtain k r1 where k: "scan_string t = Inr (k, r1)" by (cases x) auto
    show ?thesis
    proof (cases "skip_ws r1")
      case (Cons c1 r2)
      note v' = v [OF s k Cons] and more' = more [OF s k Cons]
      show ?thesis
      proof (cases "parse_value m (skip_ws r2)")
        case (Inr y)
        then obtain w r3 where w: "parse_value m (skip_ws r2) = Inr (w, r3)" by (cases y) auto
        show ?thesis using more' [OF w] by (cases "skip_ws r3") (simp_all add: s k Cons v' w)
      qed (simp add: s k Cons v')
    qed (simp add: s k)
  qed (simp add: s)
qed simp

definition fuel_ok :: "string \<Rightarrow> bool" where
  "fuel_ok t \<longleftrightarrow>
     (\<forall>n m. 2 * length t < n \<longrightarrow> 2 * length t < m \<longrightarrow> parse_value n t = parse_value m t)
   \<and> (\<forall>n m. 2 * length t + 1 < n \<longrightarrow> 2 * length t + 1 < m \<longrightarrow> parse_elements n t = parse_elements m t)
   \<and> (\<forall>n m. 2 * length t + 1 < n \<longrightarrow> 2 * length t + 1 < m \<longrightarrow> parse_members n t = parse_members m t)"

lemma fuel_okD:
  assumes "fuel_ok t" "length t < length s" "2 * length s \<le> n" "2 * length s \<le> m"
  shows "parse_value n t = parse_value m t" "parse_elements n t = parse_elements m t" "parse_members n t = parse_members m t"
proof -
  have "2 * length t + 1 < n" "2 * length t + 1 < m" using assms(2-4) by linarith+
  then show "parse_value n t = parse_value m t" "parse_elements n t = parse_elements m t" "parse_members n t = parse_members m t"
    using assms(1) unfolding fuel_ok_def by (meson less_imp_le_nat add_lessD1)+
qed

lemma fuel_ok_step:
  assumes IH: "\<And>t. length t < length s \<Longrightarrow> fuel_ok t"
  shows "fuel_ok s"
proof -
  note shorter = fuel_okD [OF IH]
  have val: "parse_value (Suc n) s = parse_value (Suc m) s" if nm: "2 * length s \<le> n" "2 * length s \<le> m" for n m
  proof (rule parse_value_same)
    fix c r
    assume "s = c # r"
    then have len: "length (skip_ws r) < length s" using skip_ws_le [of r] by simp
    show "parse_elements n (skip_ws r) = parse_elements m (skip_ws r)" by (rule shorter(2) [OF len len nm])
    show "parse_members n (skip_ws r) = parse_members m (skip_ws r)" by (rule shorter(3) [OF len len nm])
  qed
  have elems: "parse_elements (Suc n) s = parse_elements (Suc m) s" if nm: "2 * length s < n" "2 * length s < m" for n m
  proof (rule parse_elements_same)
    obtain n' m' where "n = Suc n'" "m = Suc m'" using nm by (cases n; cases m) auto
    then show "parse_value n s = parse_value m s" using val [of n' m'] nm by simp
    fix v r c r'
    assume "parse_value m s = Inr (v, r)" "skip_ws r = c # r'"
    then have len: "length (skip_ws r') < length s"
      using parse_shorter(1) [of m s v r] skip_ws_Cons [of r c r'] skip_ws_le [of r'] by linarith
    show "parse_elements n (skip_ws r') = parse_elements m (skip_ws r')"
      using nm by (intro shorter(2) [OF len len]) simp_all
  qed
  have membs: "parse_members (Suc n) s = parse_members (Suc m) s" if nm: "2 * length s \<le> n" "2 * length s \<le> m" for n m
  proof (rule parse_members_same)
    fix c t k r1 c1 r2
    assume "s = c # t" and a: "scan_string t = Inr (k, r1)" "skip_ws r1 = c1 # r2"
    then have len: "length (skip_ws r2) < length s"
      using scan_string_shorter [OF a(1)] skip_ws_Cons [OF a(2)] skip_ws_le [of r2] by simp
    show "parse_value n (skip_ws r2) = parse_value m (skip_ws r2)" by (rule shorter(1) [OF len len nm])
    fix v r3 c3 r4
    assume b: "parse_value m (skip_ws r2) = Inr (v, r3)" "skip_ws r3 = c3 # r4"
    then have len4: "length (skip_ws r4) < length s"
      using len parse_shorter(1) [OF b(1)] skip_ws_Cons [OF b(2)] skip_ws_le [of r4] by linarith
    show "parse_members n (skip_ws r4) = parse_members m (skip_ws r4)" by (rule shorter(3) [OF len4 len4 nm])
  qed
  have pred: "\<exists>n'. n = Suc n' \<and> k \<le> n'" if "k < n" for k n :: nat using that by (cases n) auto
  show ?thesis unfolding fuel_ok_def
  proof (intro conjI allI impI)
    fix n m
    assume "2 * length s < n" "2 * length s < m"
    then show "parse_value n s = parse_value m s" using pred val by metis
  next
    fix n m
    assume "2 * length s + 1 < n" "2 * length s + 1 < m"
    then obtain n' m' where "n = Suc n'" "2 * length s < n'" "m = Suc m'" "2 * length s < m'" by (cases n; cases m) auto
    then show "parse_elements n s = parse_elements m s" "parse_members n s = parse_members m s"
      using elems [of n' m'] membs [of n' m'] by simp_all
  qed
qed

lemma parse_fuel:
  assumes "2 * length s < n" "2 * length s < m"
  shows "parse_value n s = parse_value m s"
proof -
  have "fuel_ok s" by (induction s rule: length_induct) (blast intro: fuel_ok_step)
  with assms show ?thesis unfolding fuel_ok_def by blast
qed

end
