(* ===== verification/JsonRoundTrip.thy ===== *)
theory JsonRoundTrip
  imports Json
begin

text \<open>
  Parsing undoes printing.  The text \<^verbatim>\<open>json.dumps\<close> writes is ASCII, its UTF-8 bytes are recognised as
  UTF-8, and \<^verbatim>\<open>json.loads\<close> reads them back as the payload, for every payload made of binary64 floats and
  of objects with distinct keys; these are also the only values \<^verbatim>\<open>json.loads\<close> returns.  The two
  codecs of the Kafka adapters are instances of one interface.
\<close>

section \<open>Strings read back\<close>

lemma hex_value_char [simp]: "d < 16 \<Longrightarrow> hex_value (hex_char d) = Some d"
  by (simp add: hex_value_def hex_char_def Let_def)

lemma hex4_code_point:
  "hex4 CHR ''0'' CHR ''0'' (hex_char (code_point c div 16)) (hex_char (code_point c mod 16)) = Some (code_point c)"
proof -
  have "code_point c div 16 < 16" using code_point_less [of c] by linarith
  then have "hex_value (hex_char (code_point c div 16)) = Some (code_point c div 16)"
    "hex_value (hex_char (code_point c mod 16)) = Some (code_point c mod 16)" by simp_all
  moreover have "hex_value CHR ''0'' = Some 0" by (simp add: hex_value_def code_point_def)
  ultimately show ?thesis by (simp add: hex4_def)
qed

lemma of_code_points_char: "of_code_points [code_point c] = Inr [c]"
  using of_code_points_str [of "[c]"] by simp

lemma scan_escape: "scan_string (escape_char c @ s) = res_bind (scan_string s) (\<lambda>(t, r). Inr (c # t, r))"
proof -
  consider "c \<in> {quote, backslash, CHR 0x0A, CHR 0x0D, CHR 0x09, CHR 0x0C, CHR 0x08}"
    | "c \<notin> {quote, backslash, CHR 0x0A, CHR 0x0D, CHR 0x09, CHR 0x0C, CHR 0x08}" "32 \<le> code_point c" "code_point c \<le> 126"
    | "c \<notin> {quote, backslash, CHR 0x0A, CHR 0x0D, CHR 0x09, CHR 0x0C, CHR 0x08}" "\<not> (32 \<le> code_point c \<and> code_point c \<le> 126)"
    by blast
  then show ?thesis
  proof cases
    case 1
    then show ?thesis by (auto simp: escape_char_def escape_value_def quote_def backslash_def)
  next
    case 2
    then show ?thesis by (simp add: escape_char_def)
  next
    case 3
    then have "escape_char c = [backslash, CHR ''u'', CHR ''0'', CHR ''0'', hex_char (code_point c div 16), hex_char (code_point c mod 16)]"
      by (simp add: escape_char_def)
    then show ?thesis by (simp add: hex4_code_point of_code_points_char backslash_def quote_def)
  qed
qed

lemma scan_quoted: "scan_string (concat (map escape_char t) @ quote # r) = Inr (t, r)"
  by (induction t) (simp_all add: scan_escape)

section \<open>Values read back\<close>

text \<open>
  The values the scanner can return: binary64 floats, and objects whose keys are distinct.
  \<^verbatim>\<open>json_ok\<close> payloads are the ones whose text reads back as themselves.
\<close>

fun json_ok :: "json \<Rightarrow> bool" where
  "json_ok (JFloat (Fin x)) \<longleftrightarrow> fl x = Fin x"
| "json_ok (JList xs) \<longleftrightarrow> list_all json_ok xs"
| "json_ok (JObj kvs) \<longleftrightarrow> wf_dict kvs \<and> list_all (\<lambda>(k, v). json_ok v) kvs"
| "json_ok _ \<longleftrightarrow> True"

lemma dict_update_wf: "wf_dict (d @ kvs) \<Longrightarrow> dict_update d kvs = d @ kvs"
proof (induction kvs arbitrary: d)
  case (Cons kv kvs)
  obtain k v where kv: "kv = (k, v)" by (cases kv)
  have "AList.update k v d = d @ [(k, v)]" if "k \<notin> fst ` set d" for d :: "('a \<times> 'b) list"
    using that by (induction d) auto
  with Cons show ?case by (simp add: kv wf_dict_def)
qed simp

lemma skip_ws_simps:
  "\<not> is_ws c \<Longrightarrow> skip_ws (c # s) = c # s" "skip_ws (CHR '' '' # s) = skip_ws s" "skip_ws [] = []"
  by (simp_all add: skip_ws_def is_ws_def code_point_def)

lemma not_ws [simp]:
  "\<not> is_ws CHR '',''" "\<not> is_ws CHR '']''" "\<not> is_ws CHR ''}''" "\<not> is_ws CHR '':''" "\<not> is_ws quote"
  by (simp_all add: is_ws_def code_point_def quote_def)

lemma num_end_simps [simp]: "num_end []" "num_end (CHR '','' # r)" "num_end (CHR '']'' # r)" "num_end (CHR ''}'' # r)"
  by (simp_all add: num_end_def is_digit_def code_point_def)

lemma json_number_head:
  "json_number s = Some vr \<Longrightarrow> \<exists>c s'. s = c # s' \<and> (c = CHR ''-'' \<or> is_digit c)"
  by (cases s) (auto simp: json_number_def number_sign_def number_int_def is_digit_def code_point_def split: if_splits)

lemma parse_value_number:
  assumes "json_number s = Some vr"
  shows "parse_value (Suc n) s = Inr vr"
proof -
  obtain c s' where s: "s = c # s'" "c = CHR ''-'' \<or> is_digit c" using json_number_head [OF assms] by blast
  have "is_digit CHR ''n'' = False" "is_digit CHR ''t'' = False" "is_digit CHR ''f'' = False" "is_digit CHR ''{'' = False"
    "is_digit CHR ''['' = False" "is_digit quote = False" by (simp_all add: is_digit_def code_point_def quote_def)
  with s(2) have "c \<notin> {CHR ''n'', CHR ''t'', CHR ''f'', CHR ''{'', CHR ''['', quote}" by (auto simp: quote_def)
  with assms show ?thesis by (auto simp: s(1))
qed

lemma dumps_number:
  assumes "json_ok p" "num_end r" "(\<exists>i. p = JInt i) \<or> (\<exists>x. p = JFloat (Fin x))"
  shows "json_number (json_dumps p @ r) = Some (p, r)"
  using assms json_number_int json_number_float by (auto simp del: float_repr.simps)

lemma dumps_head:
  assumes "json_ok p"
  obtains c s where "json_dumps p = c # s" "\<not> is_ws c" "c \<noteq> CHR '']''" "c \<noteq> CHR ''}''"
proof -
  have number: "\<exists>c s. json_dumps p = c # s \<and> \<not> is_ws c \<and> c \<noteq> CHR '']'' \<and> c \<noteq> CHR ''}''"
    if "(\<exists>i. p = JInt i) \<or> (\<exists>x. p = JFloat (Fin x))"
    using json_number_head [OF dumps_number [OF assms num_end_simps(1) that]]
    by (auto simp: is_ws_def is_digit_def code_point_def)
  show thesis
  proof (cases p)
    case (JBool b)
    then show thesis using that by (cases b) (auto simp: is_ws_def code_point_def)
  next
    case (JFloat f)
    then show thesis using that number by (cases f) (auto simp: is_ws_def code_point_def simp del: float_repr.simps(4))
  qed (use that number in \<open>auto simp: json_quote_def quote_def is_ws_def code_point_def\<close>)
qed

text \<open>What it means that the text of a value reads back, for every text that may follow.\<close>

definition reads_back :: "json \<Rightarrow> bool" where
  "reads_back p \<longleftrightarrow> (\<forall>n r. 2 * length (json_dumps p @ r) < n \<longrightarrow> num_end r \<longrightarrow> parse_value n (json_dumps p @ r) = Inr (p, r))"

lemma reads_backI:
  assumes "\<And>n r. 2 * length (json_dumps p @ r) \<le> n \<Longrightarrow> num_end r \<Longrightarrow> parse_value (Suc n) (json_dumps p @ r) = Inr (p, r)"
  shows "reads_back p"
  unfolding reads_back_def
proof (intro allI impI)
  fix n r
  assume "2 * length (json_dumps p @ r) < n" "num_end r"
  then show "parse_value n (json_dumps p @ r) = Inr (p, r)" using assms by (cases n) auto
qed

lemma reads_backD:
  "reads_back p \<Longrightarrow> 2 * length (json_dumps p @ r) < n \<Longrightarrow> num_end r \<Longrightarrow> parse_value n (json_dumps p @ r) = Inr (p, r)"
  by (simp add: reads_back_def)

lemma skip_ws_dumps: "json_ok p \<Longrightarrow> skip_ws (json_dumps p @ r) = json_dumps p @ r"
  by (erule dumps_head [of p]) (simp add: skip_ws_simps)

lemma elements_read_back:
  assumes "xs \<noteq> []" "\<And>x. x \<in> set xs \<Longrightarrow> json_ok x \<and> reads_back x"
    "2 * length (comma_separated (map json_dumps xs) @ CHR '']'' # r) + 1 < n"
  shows "parse_elements n (comma_separated (map json_dumps xs) @ CHR '']'' # r) = Inr (xs, r)"
  using assms
proof (induction xs arbitrary: n)
  case (Cons x xs)
  obtain n' where n: "n = Suc n'" using Cons.prems(3) by (cases n) auto
  show ?case
  proof (cases xs)
    case Nil
    then show ?thesis using reads_backD [of x "CHR '']'' # r" n'] Cons.prems by (simp add: n skip_ws_simps)
  next
    case (Cons y ys)
    let ?rest = "comma_separated (map json_dumps xs) @ CHR '']'' # r"
    have shape: "comma_separated (map json_dumps (x # xs)) @ CHR '']'' # r = json_dumps x @ CHR '','' # CHR '' '' # ?rest"
      by (simp add: Cons)
    note len = Cons.prems(3) [unfolded shape n]
    have "json_ok y" using Cons.prems(2) Cons by simp
    then have ws: "skip_ws ?rest = ?rest"
      using skip_ws_dumps [of y] by (cases ys) (simp_all add: Cons)
    have v: "parse_value n' (json_dumps x @ CHR '','' # CHR '' '' # ?rest) = Inr (x, CHR '','' # CHR '' '' # ?rest)"
      using Cons.prems(2) len by (intro reads_backD) simp_all
    have "parse_elements n' ?rest = Inr (xs, r)"
      using Cons.prems(2) len Cons by (intro Cons.IH) simp_all
    then show ?thesis unfolding shape n by (simp add: v skip_ws_simps ws)
  qed
qed simp

definition member_text :: "string \<times> json \<Rightarrow> string" where
  "member_text kv = (case kv of (k, v) \<Rightarrow> json_quote k @ '': '' @ json_dumps v)"

lemma members_read_back:
  assumes "kvs \<noteq> []" "\<And>k v. (k, v) \<in> set kvs \<Longrightarrow> json_ok v \<and> reads_back v"
    "2 * length (comma_separated (map member_text kvs) @ CHR ''}'' # r) + 1 < n"
  shows "parse_members n (comma_separated (map member_text kvs) @ CHR ''}'' # r) = Inr (kvs, r)"
  using assms
proof (induction kvs arbitrary: n)
  case (Cons kv kvs)
  obtain n' where n: "n = Suc n'" using Cons.prems(3) by (cases n) auto
  obtain k v where kv: "kv = (k, v)" by (cases kv)
  have ok: "json_ok v" "reads_back v" using Cons.prems(2) by (auto simp: kv)
  have key: "scan_string (concat (map escape_char k) @ quote # s) = Inr (k, s)" for s by (rule scan_quoted)
  note val = reads_backD [OF ok(2)]
  show ?case
  proof (cases kvs)
    case Nil
    then show ?thesis using val [of "CHR ''}'' # r" n'] Cons.prems(3)
      by (simp add: n kv member_text_def json_quote_def key skip_ws_simps skip_ws_dumps ok(1))
  next
    case (Cons kw kws)
    let ?rest = "comma_separated (map member_text kvs) @ CHR ''}'' # r"
    have shape: "comma_separated (map member_text (kv # kvs)) @ CHR ''}'' # r =
        quote # concat (map escape_char k) @ quote # CHR '':'' # CHR '' '' # json_dumps v @ CHR '','' # CHR '' '' # ?rest"
      by (simp add: Cons kv member_text_def json_quote_def)
    note len = Cons.prems(3) [unfolded shape n]
    have ws: "skip_ws ?rest = ?rest"
      by (cases kws) (simp_all add: Cons member_text_def json_quote_def skip_ws_simps split: prod.split)
    have "parse_members n' ?rest = Inr (kvs, r)"
      using Cons.prems(2) len Cons by (intro Cons.IH) auto
    moreover have "parse_value n' (json_dumps v @ CHR '','' # CHR '' '' # ?rest) = Inr (v, CHR '','' # CHR '' '' # ?rest)"
      using len by (intro val) simp_all
    ultimately show ?thesis unfolding shape by (simp add: n kv key skip_ws_simps ws skip_ws_dumps ok(1))
  qed
qed simp

lemma list_reads_back:
  assumes ok: "\<And>x. x \<in> set xs \<Longrightarrow> json_ok x \<and> reads_back x"
  shows "reads_back (JList xs)"
proof (rule reads_backI)
  fix n r
  assume len: "2 * length (json_dumps (JList xs) @ r) \<le> n" and "num_end r"
  show "parse_value (Suc n) (json_dumps (JList xs) @ r) = Inr (JList xs, r)"
  proof (cases xs)
    case Nil
    then show ?thesis by (simp add: quote_def skip_ws_simps)
  next
    case (Cons x xs')
    let ?s = "comma_separated (map json_dumps xs) @ CHR '']'' # r"
    have "json_ok x" using ok Cons by simp
    then obtain c s where c: "json_dumps x = c # s" "\<not> is_ws c" "c \<noteq> CHR '']''" "c \<noteq> CHR ''}''" by (rule dumps_head)
    then have "skip_ws ?s = ?s" "\<exists>s'. ?s = c # s'" by (cases xs'; simp add: Cons skip_ws_simps)+
    moreover have "parse_elements n ?s = Inr (xs, r)" using ok len Cons by (intro elements_read_back) simp_all
    ultimately show ?thesis using c(3) by (auto simp: quote_def)
  qed
qed

lemma object_reads_back:
  assumes ok: "\<And>k v. (k, v) \<in> set kvs \<Longrightarrow> json_ok v \<and> reads_back v" and wf: "wf_dict kvs"
  shows "reads_back (JObj kvs)"
proof (rule reads_backI)
  fix n r
  let ?s = "comma_separated (map member_text kvs) @ CHR ''}'' # r"
  have dumps: "json_dumps (JObj kvs) @ r = CHR ''{'' # ?s" by (simp add: member_text_def [abs_def])
  have upd: "dict_update [] kvs = kvs" using wf dict_update_wf [of "[]" kvs] by simp
  assume len: "2 * length (json_dumps (JObj kvs) @ r) \<le> n" and "num_end r"
  show "parse_value (Suc n) (json_dumps (JObj kvs) @ r) = Inr (JObj kvs, r)"
  proof (cases kvs)
    case Nil
    then show ?thesis by (simp add: quote_def skip_ws_simps)
  next
    case (Cons kv kvs')
    then have "skip_ws ?s = ?s" "\<exists>s'. ?s = quote # s'"
      by (cases kvs'; simp add: member_text_def json_quote_def skip_ws_simps split: prod.split)+
    moreover have "parse_members n ?s = Inr (kvs, r)"
      using ok len [unfolded dumps] Cons by (intro members_read_back) simp_all
    ultimately show ?thesis unfolding dumps by (auto simp: quote_def upd)
  qed
qed

lemma dumps_reads_back: "json_ok p \<Longrightarrow> reads_back p"
proof (induction p rule: json_dumps.induct)
  case 1
  show ?case by (rule reads_backI) (simp add: quote_def)
next
  case (2 b)
  show ?case by (rule reads_backI; cases b) (simp_all add: quote_def)
next
  case (3 i)
  then show ?case using dumps_number by (intro reads_backI parse_value_number) blast
next
  case (4 x)
  show ?case
  proof (cases x)
    case (Fin y)
    with 4 show ?thesis using dumps_number by (intro reads_backI parse_value_number) blast
  qed (rule reads_backI, simp add: quote_def json_number_def number_sign_def number_int_def is_digit_def code_point_def)+
next
  case (5 s)
  show ?case by (rule reads_backI) (simp add: json_quote_def scan_quoted)
next
  case (6 xs)
  then show ?case by (intro list_reads_back) (auto simp: list_all_iff)
next
  case (7 kvs)
  then show ?case by (intro object_reads_back) (auto simp: list_all_iff)
qed

text \<open>Parsing what was printed.\<close>

lemma json_loads_dumps_text: "json_ok p \<Longrightarrow> json_loads_text (json_dumps p) = Inr p"
  using reads_backD [OF dumps_reads_back, of p "[]" "2 * length (json_dumps p) + 1"] skip_ws_dumps [of p "[]"]
  by (simp add: json_loads_text_def skip_ws_simps)

section \<open>The printed text is ASCII\<close>

definition ascii :: "char \<Rightarrow> bool" where
  "ascii c \<longleftrightarrow> 32 \<le> code_point c \<and> code_point c < 127"

lemma ascii_digit: "is_digit c \<Longrightarrow> ascii c"
  by (simp add: ascii_def is_digit_def)

lemma ascii_hex: "d < 16 \<Longrightarrow> ascii (hex_char d)"
  by (auto simp: ascii_def hex_char_def)

lemma ascii_str_nat [simp]: "list_all ascii (str_nat n)"
  using str_nat_digits [of n] by (auto simp: list_all_iff ascii_digit)

lemma ascii_escape: "list_all ascii (escape_char c)"
proof -
  have "code_point c div 16 < 16" using code_point_less [of c] by linarith
  then show ?thesis by (simp add: escape_char_def ascii_hex) (simp add: ascii_def code_point_def quote_def backslash_def)
qed

lemma ascii_quote [simp]: "list_all ascii (json_quote s)"
proof -
  have "list_all ascii (concat (map escape_char s))" using ascii_escape by (fastforce simp: list_all_iff)
  then show ?thesis by (simp add: json_quote_def) (simp add: ascii_def quote_def code_point_def)
qed

lemma ascii_sub:
  "list_all ascii ds \<Longrightarrow> list_all ascii (take n ds)" "list_all ascii ds \<Longrightarrow> list_all ascii (drop n ds)"
  "list_all ascii ds \<Longrightarrow> list_all ascii (strip_zeros ds)"
  by (auto simp: list_all_iff strip_zeros_def dest: in_set_takeD in_set_dropD set_dropWhileD)

lemma ascii_lits [simp]:
  "ascii CHR ''0''" "ascii CHR ''.''" "ascii CHR ''e''" "ascii CHR ''-''" "ascii CHR ''+''" "ascii CHR '',''" "ascii CHR '' ''"
  "ascii CHR ''{''" "ascii CHR ''}''" "ascii CHR ''[''" "ascii CHR '']''" "ascii CHR '':''" "ascii CHR ''n''" "ascii CHR ''u''"
  "ascii CHR ''l''" "ascii CHR ''t''" "ascii CHR ''r''" "ascii CHR ''f''" "ascii CHR ''a''" "ascii CHR ''s''" "ascii CHR ''N''"
  "ascii CHR ''I''" "ascii CHR ''i''" "ascii CHR ''y''"
  by (simp_all add: ascii_def code_point_def)

lemma ascii_format: "list_all ascii ds \<Longrightarrow> list_all ascii (format_repr ds decpt)"
  by (auto simp: format_repr_def Let_def two_digits_def ascii_sub) (simp_all add: list_all_iff)

lemma ascii_float: "list_all ascii (float_repr x)"
proof -
  have "list_all ascii (repr_pos y)" for y
    by (simp add: repr_pos_def Let_def ascii_format ascii_sub split: prod.split)
  then show ?thesis by (cases x) auto
qed

lemma ascii_comma: "list_all (list_all ascii) ss \<Longrightarrow> list_all ascii (comma_separated ss)"
  by (induction ss rule: comma_separated.induct) simp_all

lemma ascii_dumps: "list_all ascii (json_dumps p)"
proof (induction p rule: json_dumps.induct)
  case (6 xs)
  then have "list_all ascii (comma_separated (map json_dumps xs))" by (intro ascii_comma) (simp add: list_all_iff)
  then show ?case by simp
next
  case (7 kvs)
  then have "list_all ascii (json_quote k @ '': '' @ json_dumps v)" if "(k, v) \<in> set kvs" for k v using that by simp
  then have "\<forall>s \<in> set (map (\<lambda>(k, v). json_quote k @ '': '' @ json_dumps v) kvs). list_all ascii s" by auto
  then have "list_all ascii (comma_separated (map (\<lambda>(k, v). json_quote k @ '': '' @ json_dumps v) kvs))"
    by (intro ascii_comma) (simp only: list_all_iff [of "list_all ascii"])
  then show ?case by simp
qed (simp_all add: str_int_def ascii_float)

lemma str_encode_ascii: "list_all ascii s \<Longrightarrow> str_encode s = map (\<lambda>c. of_nat (code_point c)) s"
  by (induction s) (simp_all add: str_encode_def utf8_encode_def utf8_char_def ascii_def)

lemma ascii_detected:
  assumes "list_all ascii s"
  shows "utf8_detected (str_encode s)" "take 3 (str_encode s) \<noteq> [0xEF, 0xBB, 0xBF]"
proof -
  have "unat b \<ge> 32 \<and> unat b < 127" if "b \<in> set (str_encode s)" for b
    using that assms by (auto simp: str_encode_ascii list_all_iff ascii_def unat_byte)
  then have small: "b \<noteq> 0 \<and> b \<noteq> 0xFF \<and> b \<noteq> 0xFE \<and> b \<noteq> 0xEF" if "b \<in> set (str_encode s)" for b
    using that by fastforce
  have start: "take n (str_encode s) \<noteq> b # bs" if "b \<in> {0, 0xFF, 0xFE, 0xEF}" for n b bs
    using small [of b] that in_set_takeD [of b n "str_encode s"] by auto
  have "str_encode s ! i \<noteq> 0" if "i < length (str_encode s)" for i using small [OF nth_mem [OF that]] by blast
  then have "2 \<le> length (str_encode s) \<Longrightarrow> str_encode s ! 0 \<noteq> 0" "2 \<le> length (str_encode s) \<Longrightarrow> str_encode s ! 1 \<noteq> 0"
    by (meson less_le_trans pos2 one_less_numeral_iff semiring_norm(76))+
  then show "utf8_detected (str_encode s)" unfolding utf8_detected_def start by (force simp: start)
  show "take 3 (str_encode s) \<noteq> [0xEF, 0xBB, 0xBF]" by (simp add: start)
qed

text \<open>The bytes of a printed value parse to the value.\<close>

lemma json_loads_dumps: "json_ok p \<Longrightarrow> json_loads (str_encode (json_dumps p)) = Inr p"
  by (simp add: json_loads_def ascii_detected [OF ascii_dumps] json_loads_dumps_text)

section \<open>The values parsing returns\<close>

lemma json_number_ok: "json_number s = Some (v, r) \<Longrightarrow> json_ok v"
proof -
  assume "json_number s = Some (v, r)"
  then consider i where "v = JInt i" | d where "v = JFloat (fl d)"
    by (auto simp: json_number_def Let_def split: prod.splits option.splits if_splits)
  then show ?thesis
  proof cases
    case 2
    then show ?thesis using fl_Fin_idem [of d] by (cases "fl d") simp_all
  qed simp
qed

lemma set_dict_update: "set (dict_update d kvs) \<subseteq> set d \<union> set kvs"
proof (induction kvs arbitrary: d)
  case (Cons kv kvs)
  obtain k v where kv: "kv = (k, v)" by (cases kv)
  have "set (AList.update k v d) \<subseteq> insert (k, v) (set d)" by (induction d) auto
  with Cons.IH [of "AList.update k v d"] show ?case by (auto simp: kv)
qed simp

lemma parse_value_ok_cases:
  assumes "parse_value (Suc n) s = Inr (v, r)"
  shows "json_ok v \<or> (\<exists>s' kvs. parse_members n s' = Inr (kvs, r) \<and> v = JObj (dict_update [] kvs))
    \<or> (\<exists>s' xs. parse_elements n s' = Inr (xs, r) \<and> v = JList xs)"
proof -
  obtain c s' where s: "s = c # s'" using assms by (cases s) auto
  consider "c = quote" | "c = CHR ''{''" "c \<noteq> quote" | "c = CHR ''[''" "c \<noteq> quote" | "c \<noteq> quote" "c \<noteq> CHR ''{''" "c \<noteq> CHR ''[''"
    by blast
  then show ?thesis
  proof cases
    case 1
    then show ?thesis using assms s by (auto split: prod.splits)
  next
    case 2
    then show ?thesis using assms s by (cases "skip_ws s'") (auto split: if_splits)
  next
    case 3
    then show ?thesis using assms s by (cases "skip_ws s'") (auto split: if_splits)
  next
    case 4
    then show ?thesis using assms s json_number_ok [of s v r] by (auto split: if_splits option.splits)
  qed
qed

lemma parse_ok:
  "parse_value n s = Inr (v, r) \<Longrightarrow> json_ok v"
  "parse_elements n s = Inr (xs, r) \<Longrightarrow> list_all json_ok xs"
  "parse_members n s = Inr (kvs, r) \<Longrightarrow> list_all (\<lambda>(k, v). json_ok v) kvs"
proof (induction n arbitrary: s v r xs kvs)
  case 0
  { case 1 then show ?case by simp next case 2 then show ?case by simp next case 3 then show ?case by simp }
next
  case (Suc n)
  { case 1
    have obj: "json_ok (JObj (dict_update [] kvs))" if "parse_members n s' = Inr (kvs, r)" for s' kvs
      using Suc.IH(3) [OF that] set_dict_update [of "[]" kvs] by (auto simp: list_all_iff)
    from parse_value_ok_cases [OF 1] show ?case using obj Suc.IH(2) by auto
  next
    case 2
    then show ?case using Suc.IH(1,2) by (cases rule: parse_elements_cases) auto
  next
    case 3
    then show ?case using Suc.IH(1,3) by (cases rule: parse_members_cases) auto
  }
qed

text \<open>Whatever bytes it is given, \<^verbatim>\<open>json.loads\<close> raises or returns a value that prints and parses back.\<close>

lemma json_loads_ok: "json_loads bs = Inr v \<Longrightarrow> json_ok v"
  by (auto simp: json_loads_def json_loads_text_def simp del: parse_value.simps split: if_splits dest: parse_ok(1))

section \<open>The codecs as an interface\<close>

text \<open>
  What the transports rely on: reading gives back every value that can be written, and
  whatever is read can be written again.
\<close>

locale text_codec =
  fixes to_bytes :: "'a \<Rightarrow> byte list"
    and of_bytes :: "byte list \<Rightarrow> error + 'a"
    and writable :: "'a \<Rightarrow> bool"
  assumes read_back: "writable x \<Longrightarrow> of_bytes (to_bytes x) = Inr x"
    and read_writable: "of_bytes bs = Inr x \<Longrightarrow> writable x"
begin

lemma to_bytes_inject: "writable x \<Longrightarrow> writable y \<Longrightarrow> to_bytes x = to_bytes y \<longleftrightarrow> x = y"
  by (metis read_back sum.inject(2))

lemma forwarded: "of_bytes bs = Inr x \<Longrightarrow> of_bytes (to_bytes x) = Inr x"
  by (simp add: read_back read_writable)

end

interpretation utf8_text: text_codec str_encode bytes_decode "\<lambda>_. True"
  by unfold_locales simp_all

interpretation json_text: text_codec "\<lambda>p. str_encode (json_dumps p)" json_loads json_ok
  by unfold_locales (simp_all add: json_loads_dumps json_loads_ok)

end
