(* ===== verification/KafkaTransport.thy ===== *)
theory KafkaTransport
  imports Publisher InboxCorrect JsonRoundTrip
begin

text \<open>
  \<^verbatim>\<open>transport/kafka/publisher.py\<close> and \<^verbatim>\<open>transport/kafka/consumer.py\<close>.  The Kafka client is a
  parameter: \<open>send\<close> is what the producer answers, \<open>commit\<close> what the offset commit answers, and
  \<open>show_error\<close> is \<^verbatim>\<open>str\<close> of an exception.  \<^verbatim>\<open>json.dumps\<close>, \<^verbatim>\<open>json.loads\<close> and the UTF-8 codec are the
  functions of \<open>Json\<close> and \<open>Utf8\<close>.
\<close>

section \<open>Producing\<close>

record KafkaProducedMessage =
  kp_topic :: string
  kp_key :: "string option"
  kp_payload :: string
  kp_headers :: pydict

type_synonym KafkaTopicRouter = "(string \<times> string) list"

definition KafkaTopicRouter_new :: KafkaTopicRouter where
  "KafkaTopicRouter_new = []"

definition KafkaTopicRouter_register :: "string \<Rightarrow> string \<Rightarrow> KafkaTopicRouter \<Rightarrow> KafkaTopicRouter" where
  "KafkaTopicRouter_register event_type topic r = AList.update event_type topic r"

definition KafkaTopicRouter_resolve :: "KafkaTopicRouter \<Rightarrow> string \<Rightarrow> error + string" where
  "KafkaTopicRouter_resolve r event_type = dict_resolve ''Kafka topic'' r event_type"

interpretation kafka_router: router "\<lambda>_. True" KafkaTopicRouter_register KafkaTopicRouter_resolve
  by unfold_locales
    (auto simp: KafkaTopicRouter_register_def KafkaTopicRouter_resolve_def dict_resolve_update dict_resolve_error)

definition KafkaOutboxPublisher_build_message ::
  "KafkaTopicRouter \<Rightarrow> OutboxMessageRecord \<Rightarrow> error + KafkaProducedMessage" where
  "KafkaOutboxPublisher_build_message topics record =
     res_bind (KafkaTopicRouter_resolve topics (rec_event_type record)) (\<lambda>topic.
       let headers = rec_headers record;
           headers = AList.update ''message_id'' (rec_message_id record) headers;
           headers = AList.update ''event_type'' (rec_event_type record) headers;
           headers = set_present ''ordering_key'' (rec_ordering_key record) headers;
           headers = set_present ''correlation_id'' (rec_correlation_id record) headers
       in Inr \<lparr>kp_topic = topic, kp_key = rec_message_key record,
               kp_payload = json_dumps (rec_payload record), kp_headers = headers\<rparr>)"

definition KafkaOutboxPublisher_publish ::
  "(error \<Rightarrow> string) \<Rightarrow> (KafkaProducedMessage \<Rightarrow> error + unit) \<Rightarrow> KafkaTopicRouter
   \<Rightarrow> OutboxMessageRecord \<Rightarrow> error + PublishOutcome" where
  "KafkaOutboxPublisher_publish show_error send topics record =
     res_bind (KafkaOutboxPublisher_build_message topics record) (\<lambda>message.
       case send message of
         Inl e \<Rightarrow> if e = CancelledError then Inl e else Inr (PublishOutcome_retryable (show_error e))
       | Inr _ \<Rightarrow> Inr PublishOutcome_published)"

text \<open>What \<^verbatim>\<open>AIOKafkaProducerClient.send\<close> hands to \<^verbatim>\<open>send_and_wait\<close>.\<close>

record KafkaSend =
  ks_topic :: string
  ks_value :: "byte list"
  ks_key :: "byte list option"
  ks_headers :: "(string \<times> byte list) list"

definition AIOKafkaProducerClient_request :: "KafkaProducedMessage \<Rightarrow> KafkaSend" where
  "AIOKafkaProducerClient_request message = \<lparr>
     ks_topic = kp_topic message,
     ks_value = str_encode (kp_payload message),
     ks_key = (case kp_key message of None \<Rightarrow> None | Some k \<Rightarrow> Some (str_encode k)),
     ks_headers = map (\<lambda>(k, v). (k, str_encode v)) (kp_headers message)\<rparr>"

definition AIOKafkaProducerClient_send ::
  "(KafkaSend \<Rightarrow> error + unit) \<Rightarrow> KafkaProducedMessage \<Rightarrow> error + unit" where
  "AIOKafkaProducerClient_send send_and_wait message = send_and_wait (AIOKafkaProducerClient_request message)"

section \<open>Consuming\<close>

text \<open>A \<^verbatim>\<open>ConsumerRecord\<close>: value, key and header values may be absent; \<open>None\<close> headers are \<^verbatim>\<open>None\<close>.\<close>

record ConsumerRecord =
  cr_topic :: string
  cr_partition :: int
  cr_offset :: int
  cr_key :: "byte list option"
  cr_value :: "byte list option"
  cr_headers :: "(string \<times> byte list option) list option"

record KafkaInboundMessage =
  ki_topic :: string
  ki_partition :: int
  ki_offset :: int
  ki_key :: "string option"
  ki_payload :: json
  ki_headers :: pydict

definition fallback_message_id :: "KafkaInboundMessage \<Rightarrow> string" where
  "fallback_message_id m = ki_topic m @ '':'' @ str_int (ki_partition m) @ '':'' @ str_int (ki_offset m)"

text \<open>\<^verbatim>\<open>headers.get(name) or other\<close>: an empty text is passed over too.\<close>

definition get_or :: "string \<Rightarrow> pydict \<Rightarrow> string \<Rightarrow> string" where
  "get_or name d fallback = (case map_of d name of None \<Rightarrow> fallback | Some v \<Rightarrow> if v = [] then fallback else v)"

definition KafkaInboundMessage_to_envelope :: "datetime \<Rightarrow> KafkaInboundMessage \<Rightarrow> error + MessageEnvelope" where
  "KafkaInboundMessage_to_envelope now m =
     (case map_of (ki_headers m) ''event_type'' of
        None \<Rightarrow> Inl (ValidationError ''event_type header is required'')
      | Some event_type \<Rightarrow>
          let message_id = get_or ''message_id'' (ki_headers m) (fallback_message_id m);
              md = MessageMetadata_new message_id event_type now;
              md = (case ki_key m of None \<Rightarrow> md | Some k \<Rightarrow> with_message_key k md);
              md = (case map_of (ki_headers m) ''ordering_key'' of None \<Rightarrow> md | Some k \<Rightarrow> with_ordering_key k md);
              md = (case map_of (ki_headers m) ''correlation_id'' of None \<Rightarrow> md | Some v \<Rightarrow> with_correlation_id v md);
              md = with_headers (ki_headers m) md
          in MessageEnvelope_new md (ki_payload m))"

fun decode_headers :: "(string \<times> byte list option) list \<Rightarrow> pydict \<Rightarrow> error + pydict" where
  "decode_headers [] d = Inr d"
| "decode_headers ((k, v) # rest) d =
     res_bind (case v of None \<Rightarrow> Inr [] | Some b \<Rightarrow> bytes_decode b) (\<lambda>s. decode_headers rest (AList.update k s d))"

definition KafkaInboundMessage_from_record :: "ConsumerRecord \<Rightarrow> error + KafkaInboundMessage" where
  "KafkaInboundMessage_from_record r =
     (case cr_value r of
        None \<Rightarrow> Inl (ValidationError ''Kafka payload is required'')
      | Some value \<Rightarrow>
          res_bind (json_loads value) (\<lambda>payload.
          res_bind (decode_headers (case cr_headers r of None \<Rightarrow> [] | Some h \<Rightarrow> h) []) (\<lambda>headers.
          res_bind (case cr_key r of None \<Rightarrow> Inr None | Some k \<Rightarrow> res_bind (bytes_decode k) (\<lambda>s. Inr (Some s))) (\<lambda>key.
            Inr \<lparr>ki_topic = cr_topic r, ki_partition = cr_partition r, ki_offset = cr_offset r,
                 ki_key = key, ki_payload = payload, ki_headers = headers\<rparr>))))"

text \<open>
  \<^verbatim>\<open>save_and_commit\<close>: the receipt is committed to the database before the offset is committed to
  Kafka.  The result carries the table and the offset commits that were attempted.
\<close>

definition KafkaInboxConsumer_normalize_message :: "datetime \<Rightarrow> KafkaInboundMessage \<Rightarrow> error + MessageEnvelope" where
  "KafkaInboxConsumer_normalize_message now m = KafkaInboundMessage_to_envelope now m"

definition KafkaInboxConsumer_save_and_commit ::
  "PactixConfig \<Rightarrow> executor \<Rightarrow> uuid \<Rightarrow> datetime \<Rightarrow> string \<Rightarrow> (string \<Rightarrow> int \<Rightarrow> int \<Rightarrow> error + unit)
   \<Rightarrow> KafkaInboundMessage \<Rightarrow> inbox_table
   \<Rightarrow> (error + ReceiveOutcome) \<times> inbox_table \<times> (string \<times> int \<times> int) list" where
  "KafkaInboxConsumer_save_and_commit cfg ex new_id now source commit m tbl =
     (case KafkaInboxConsumer_normalize_message now m of
        Inl e \<Rightarrow> (Inl e, tbl, [])
      | Inr envelope \<Rightarrow>
          (case in_transaction (InboxStore_save_received cfg ex new_id now source envelope) tbl of
             (Inl e, tbl') \<Rightarrow> (Inl e, tbl', [])
           | (Inr outcome, tbl') \<Rightarrow>
               (case commit (ki_topic m) (ki_partition m) (ki_offset m) of
                  Inl e \<Rightarrow> (Inl e, tbl', [(ki_topic m, ki_partition m, ki_offset m)])
                | Inr _ \<Rightarrow> (Inr outcome, tbl', [(ki_topic m, ki_partition m, ki_offset m)]))))"

text \<open>\<^verbatim>\<open>AIOKafkaOffsetCommitter\<close> commits the position of the next message; \<open>consumer_commit\<close> is the
  consumer's method.\<close>

definition AIOKafkaOffsetCommitter_commit ::
  "(((string \<times> int) \<times> int) list \<Rightarrow> 'r) \<Rightarrow> string \<Rightarrow> int \<Rightarrow> int \<Rightarrow> 'r" where
  "AIOKafkaOffsetCommitter_commit consumer_commit topic part offset =
     consumer_commit [((topic, part), offset + 1)]"

section \<open>Metadata survives the trip\<close>

lemma decode_headers_encoded:
  "decode_headers (map (\<lambda>(k, v). (k, Some (str_encode v))) items) d = Inr (dict_update d items)"
  by (induction items arbitrary: d) auto

text \<open>The record a broker delivers for what the producer sent.\<close>

definition delivered :: "int \<Rightarrow> int \<Rightarrow> KafkaSend \<Rightarrow> ConsumerRecord" where
  "delivered part offset s = \<lparr>
     cr_topic = ks_topic s, cr_partition = part, cr_offset = offset, cr_key = ks_key s,
     cr_value = Some (ks_value s), cr_headers = Some (map (\<lambda>(k, v). (k, Some v)) (ks_headers s))\<rparr>"

lemma from_delivered:
  assumes "json_ok p" and "kp_payload m = json_dumps p"
  shows "KafkaInboundMessage_from_record (delivered part offset (AIOKafkaProducerClient_request m)) =
    Inr \<lparr>ki_topic = kp_topic m, ki_partition = part, ki_offset = offset, ki_key = kp_key m,
         ki_payload = p, ki_headers = dict_update [] (kp_headers m)\<rparr>"
proof -
  have "(\<lambda>(k, v). (k, Some v)) \<circ> (\<lambda>(k, v). (k, str_encode v)) = (\<lambda>(k :: string, v). (k, Some (str_encode v)))" by auto
  then show ?thesis
    using assms decode_headers_encoded [of "kp_headers m" "[]"] json_text.read_back
    by (simp add: KafkaInboundMessage_from_record_def delivered_def AIOKafkaProducerClient_request_def
        split: option.split)
qed

text \<open>The headers a produced message carries, and the ones a custom header cannot change.\<close>

definition kafka_headers :: "OutboxMessageRecord \<Rightarrow> pydict" where
  "kafka_headers record =
     set_present ''correlation_id'' (rec_correlation_id record)
       (set_present ''ordering_key'' (rec_ordering_key record)
         (AList.update ''event_type'' (rec_event_type record)
           (AList.update ''message_id'' (rec_message_id record) (rec_headers record))))"

lemma build_message_eq:
  "KafkaOutboxPublisher_build_message topics record =
     res_bind (KafkaTopicRouter_resolve topics (rec_event_type record)) (\<lambda>topic.
       Inr \<lparr>kp_topic = topic, kp_key = rec_message_key record,
            kp_payload = json_dumps (rec_payload record), kp_headers = kafka_headers record\<rparr>)"
  by (simp add: KafkaOutboxPublisher_build_message_def kafka_headers_def Let_def)

lemma kafka_headers_simps:
  "map_of (kafka_headers record) ''message_id'' = Some (rec_message_id record)"
  "map_of (kafka_headers record) ''event_type'' = Some (rec_event_type record)"
  "map_of (kafka_headers record) ''ordering_key'' =
     (if rec_ordering_key record \<noteq> None then rec_ordering_key record else map_of (rec_headers record) ''ordering_key'')"
  "map_of (kafka_headers record) ''correlation_id'' =
     (if rec_correlation_id record \<noteq> None then rec_correlation_id record else map_of (rec_headers record) ''correlation_id'')"
  by (simp_all add: kafka_headers_def map_of_set_present update_conv')

lemma wf_kafka_headers: "wf_dict (rec_headers record) \<Longrightarrow> wf_dict (kafka_headers record)"
  by (simp add: kafka_headers_def)

lemma map_of_dict_update_Nil: "wf_dict d \<Longrightarrow> map_of (dict_update [] d) = map_of d"
  by (rule ext) (simp add: map_of_dict_update map_of_rev_wf split: option.split)

lemma wf_decode_headers: "decode_headers items d = Inr h \<Longrightarrow> wf_dict d \<Longrightarrow> wf_dict h"
  by (induction items arbitrary: d) auto

text \<open>What the consumer makes of the message the producer sent.\<close>

definition kafka_received ::
  "KafkaTopicRouter \<Rightarrow> int \<Rightarrow> int \<Rightarrow> datetime \<Rightarrow> OutboxMessageRecord \<Rightarrow> error + MessageEnvelope" where
  "kafka_received topics part offset now record =
     res_bind (KafkaOutboxPublisher_build_message topics record) (\<lambda>message.
     res_bind (KafkaInboundMessage_from_record (delivered part offset (AIOKafkaProducerClient_request message)))
       (KafkaInboundMessage_to_envelope now))"

text \<open>Property C25: what is written to the outbox is what the inbox receives over Kafka.  For a valid
  record whose event type has a topic and whose custom headers do not use the names of absent
  metadata, building, sending, delivering, decoding and normalising the message gives an
  envelope with the same message id, event type, keys, correlation id and payload, and every
  header that is not transport metadata.\<close>

theorem kafka_round_trip:
  assumes payload: "json_ok (rec_payload record)" and wf: "wf_dict (rec_headers record)"
    and valid: "valid_record record" and topic: "KafkaTopicRouter_resolve topics (rec_event_type record) = Inr topic"
    and ok: "rec_ordering_key record = None \<Longrightarrow> map_of (rec_headers record) ''ordering_key'' = None"
    and ci: "rec_correlation_id record = None \<Longrightarrow> map_of (rec_headers record) ''correlation_id'' = None"
  shows "\<exists>env. kafka_received topics part offset now record = Inr env
    \<and> md_message_id (env_metadata env) = rec_message_id record
    \<and> md_event_type (env_metadata env) = rec_event_type record
    \<and> md_message_key (env_metadata env) = rec_message_key record
    \<and> md_ordering_key (env_metadata env) = rec_ordering_key record
    \<and> md_correlation_id (env_metadata env) = rec_correlation_id record
    \<and> env_payload env = rec_payload record
    \<and> map_of (md_headers (env_metadata env)) = map_of (kafka_headers record)"
proof -
  let ?m = "\<lparr>kp_topic = topic, kp_key = rec_message_key record,
     kp_payload = json_dumps (rec_payload record), kp_headers = kafka_headers record\<rparr>"
  have same: "map_of (dict_update [] (kafka_headers record)) = map_of (kafka_headers record)"
    using wf by (simp add: map_of_dict_update_Nil wf_kafka_headers)
  have okey: "map_of (kafka_headers record) ''ordering_key'' = rec_ordering_key record"
    and cid: "map_of (kafka_headers record) ''correlation_id'' = rec_correlation_id record"
    using ok ci by (auto simp: kafka_headers_simps)
  have "\<not> blank (rec_message_id record)" using valid by (simp add: valid_record_def)
  then have "rec_message_id record \<noteq> []" by (auto simp: blank_iff)
  then have mid: "get_or ''message_id'' (dict_update [] (kafka_headers record)) d = rec_message_id record" for d
    by (simp add: get_or_def same kafka_headers_simps)
  have "kafka_received topics part offset now record = KafkaInboundMessage_to_envelope now
      \<lparr>ki_topic = topic, ki_partition = part, ki_offset = offset, ki_key = rec_message_key record,
       ki_payload = rec_payload record, ki_headers = dict_update [] (kafka_headers record)\<rparr>"
    using from_delivered [OF payload, of ?m part offset] by (simp add: kafka_received_def build_message_eq topic)
  also have "\<dots> = Inr \<lparr>env_metadata = \<lparr>md_message_id = rec_message_id record, md_event_type = rec_event_type record,
      md_message_key = rec_message_key record, md_ordering_key = rec_ordering_key record,
      md_correlation_id = rec_correlation_id record, md_headers = dict_update [] (kafka_headers record),
      md_occurred_at = now\<rparr>, env_payload = rec_payload record\<rparr>"
    using valid
    by (auto simp: KafkaInboundMessage_to_envelope_def mid Let_def same okey cid kafka_headers_simps(2) builder_defs
        MessageEnvelope_new_Inr_iff valid_metadata_def valid_record_def split: option.split)
  finally show ?thesis by (simp add: same)
qed

text \<open>A message that the model makes of a Kafka record is well typed: its
  headers have distinct names, and its payload is a value that prints and parses back to itself,
  so that it can be published again unchanged; a record without a value never becomes
  a message.  The model's messages are those whose texts are within Latin-1: a record with another
  character or a surrogate is \<open>OutsideModel\<close>, and nothing is claimed of it (the program accepts two escaped or
  encoded surrogates next to each other, which do not print and parse back to themselves).\<close>

theorem kafka_message_typed:
  assumes "KafkaInboundMessage_from_record r = Inr m"
  shows "json_ok (ki_payload m) \<and> wf_dict (ki_headers m)
    \<and> json_loads (str_encode (json_dumps (ki_payload m))) = Inr (ki_payload m)
    \<and> (\<exists>bs. cr_value r = Some bs \<and> json_loads bs = Inr (ki_payload m))"
  using assms json_text.read_writable json_text.forwarded wf_decode_headers [OF _ wf_dict_Nil]
  by (auto simp: KafkaInboundMessage_from_record_def split: option.splits)

section \<open>The offset follows the receipt\<close>

lemma surrogates_outside:
  "json_loads [0x22, 0xED, 0xA0, 0xBD, 0xED, 0xB8, 0x80, 0x22] = Inl OutsideModel"
  by (simp add: json_loads_def utf8_detected_def bytes_decode_pass_def utf8_decode_pass.simps utf8_next_pass_def
      utf8_three_def utf8_surrogate_def cont_bits_def scalar_def of_code_points_def)

lemma save_and_commit_eq:
  "KafkaInboxConsumer_save_and_commit cfg ex i now source commit m tbl =
     (case res_bind (KafkaInboundMessage_to_envelope now m) (\<lambda>envelope.
             InboxStore_save_received cfg ex i now source envelope tbl) of
        Inl e \<Rightarrow> (Inl e, tbl, [])
      | Inr (outcome, tbl') \<Rightarrow>
          (case commit (ki_topic m) (ki_partition m) (ki_offset m) of
             Inl e \<Rightarrow> (Inl e, tbl', [(ki_topic m, ki_partition m, ki_offset m)])
           | Inr _ \<Rightarrow> (Inr outcome, tbl', [(ki_topic m, ki_partition m, ki_offset m)])))"
  by (auto simp: KafkaInboxConsumer_save_and_commit_def KafkaInboxConsumer_normalize_message_def in_transaction_def
      split: sum.split prod.split)

text \<open>An offset commit is attempted only for a message that is durably stored, and
  exactly when the receipt succeeded; when normalising or storing raises, no offset is committed
  and the table is unchanged, so that Kafka delivers the message again.\<close>

theorem kafka_offset_follows_receipt:
  assumes ex: "db_session ex"
    and fits: "\<And>env. KafkaInboundMessage_to_envelope (utc t) m = Inr env \<Longrightarrow>
      inbox_fits ex (pending_inbox_row cfg i t source env)"
    and call: "KafkaInboxConsumer_save_and_commit cfg ex i (utc t) source commit m tbl = (res, tbl', commits)"
  shows "if commits = [] then tbl' = tbl \<and> (\<exists>e. res = Inl e)
    else commits = [(ki_topic m, ki_partition m, ki_offset m)]
      \<and> (\<exists>env. KafkaInboundMessage_to_envelope (utc t) m = Inr env
        \<and> (\<exists>r \<in> set tbl'. text_eq ex (col_source r) source
             \<and> text_eq ex (col_message_id r) (md_message_id (env_metadata env))))"
proof (cases "KafkaInboundMessage_to_envelope (utc t) m")
  case (Inl e)
  with call show ?thesis
    by (auto simp: save_and_commit_eq)
next
  case (Inr env)
  note env = this
  show ?thesis
  proof (cases "InboxStore_save_received cfg ex i (utc t) source env tbl")
    case (Inl e)
    with env call show ?thesis
      by (auto simp: save_and_commit_eq)
  next
    case (Inr x)
    then obtain out tbl1 where saved: "InboxStore_save_received cfg ex i (utc t) source env tbl = Inr (out, tbl1)"
      by (cases x) auto
    with env call have "tbl' = tbl1" "commits = [(ki_topic m, ki_partition m, ki_offset m)]"
      by (auto simp: save_and_commit_eq split: sum.splits)
    with env save_received_stores [OF session_driver(1) [OF ex] fits [OF env] saved] show ?thesis by auto
  qed
qed

lemma to_envelope_Inr:
  assumes "KafkaInboundMessage_to_envelope now m = Inr env"
  shows "valid_metadata (env_metadata env)"
    and "md_message_id (env_metadata env) = get_or ''message_id'' (ki_headers m) (fallback_message_id m)"
    and "map_of (ki_headers m) ''event_type'' = Some (md_event_type (env_metadata env))"
    and "md_ordering_key (env_metadata env) = map_of (ki_headers m) ''ordering_key''"
    and "md_correlation_id (env_metadata env) = map_of (ki_headers m) ''correlation_id''"
  using assms
  by (auto simp: KafkaInboundMessage_to_envelope_def Let_def MessageEnvelope_new_Inr_iff builder_defs split: option.splits)

text \<open>At-least-once delivery becomes exactly one row.  When the offset commit fails after
  the receipt was stored, the redelivered message, after any store calls in between, is a
  duplicate: the table does not change and the offset is then committed.\<close>

theorem kafka_redelivery_is_duplicate:
  assumes ex: "db_session ex" and inv: "inbox_invariant ex tbl"
    and env: "KafkaInboundMessage_to_envelope (utc t) m = Inr env"
      "KafkaInboundMessage_to_envelope (utc t') m = Inr env'"
    and fits: "inbox_fits ex (pending_inbox_row cfg i t source env)" "inbox_fits ex (pending_inbox_row cfg i' t' source env')"
    and first: "KafkaInboxConsumer_save_and_commit cfg ex i (utc t) source commit m tbl = (Inl e, tbl1, commits)"
      "commits \<noteq> []"
    and calls: "(inbox_call ex)\<^sup>*\<^sup>* tbl1 tbl2"
    and commit: "commit' (ki_topic m) (ki_partition m) (ki_offset m) = Inr ()"
  shows "\<exists>out. KafkaInboxConsumer_save_and_commit cfg ex i' (utc t') source commit' m tbl2 =
      (Inr out, tbl2, [(ki_topic m, ki_partition m, ki_offset m)]) \<and> ReceiveOutcome_is_duplicate out"
proof -
  from first env(1) obtain out where saved: "InboxStore_save_received cfg ex i (utc t) source env tbl = Inr (out, tbl1)"
    by (auto simp: save_and_commit_eq split: sum.splits)
  have same: "md_message_id (env_metadata env') = md_message_id (env_metadata env)"
    using env by (simp add: to_envelope_Inr(2))
  have valid: "valid_receipt source env'"
    using saved to_envelope_Inr(1) [OF env(2)]
    by (auto simp: InboxStore_save_received_def inbox_pending_Inr_iff valid_receipt_def)
  obtain r where r: "r \<in> set tbl1" "text_eq ex (col_source r) source"
    "text_eq ex (col_message_id r) (md_message_id (env_metadata env))"
    using save_received_stores [OF session_driver(1) [OF ex] fits(1) saved] by blast
  have "inbox_invariant ex tbl1"
    using inbox_call_invariant(1) [OF inbox_call.received [OF saved] ex inv] .
  from stored_stays_received [OF ex this calls r(1,2) _ valid fits(2)] r(3) same
  obtain rec where "InboxStore_save_received cfg ex i' (utc t') source env' tbl2 =
      Inr (\<lparr>ro_record = rec, ro_inserted = False\<rparr>, tbl2)" by auto
  then show ?thesis
    by (simp add: save_and_commit_eq env(2) commit
        ReceiveOutcome_is_duplicate_def)
qed

section \<open>A concrete delivery\<close>

definition example_topics :: KafkaTopicRouter where
  "example_topics = KafkaTopicRouter_register ''order.created'' ''orders'' KafkaTopicRouter_new"

lemma example_outbox_record_simps:
  "json_ok (rec_payload example_outbox_record)" "wf_dict (rec_headers example_outbox_record)"
  "valid_record example_outbox_record"
  "KafkaTopicRouter_resolve example_topics (rec_event_type example_outbox_record) = Inr ''orders''"
  "rec_ordering_key example_outbox_record = Some ''k''"
  "map_of (rec_headers example_outbox_record) ''correlation_id'' = None"
  by (simp_all add: example_outbox_record_def wf_dict_def valid_record_def blank_iff
      is_space_def code_point_def KafkaTopicRouter_resolve_def dict_resolve_def example_topics_def
      KafkaTopicRouter_register_def KafkaTopicRouter_new_def)

theorem kafka_round_trip_witness:
  "\<exists>env. kafka_received example_topics 0 7 (utc 9) example_outbox_record = Inr env
     \<and> md_message_id (env_metadata env) = ''m-1'' \<and> md_ordering_key (env_metadata env) = Some ''k''"
proof -
  obtain env where "kafka_received example_topics 0 7 (utc 9) example_outbox_record = Inr env"
    "md_message_id (env_metadata env) = rec_message_id example_outbox_record"
    "md_ordering_key (env_metadata env) = rec_ordering_key example_outbox_record"
    using kafka_round_trip [OF example_outbox_record_simps(1-4), of 0 7 "utc 9"]
    by (auto simp: example_outbox_record_simps(5,6))
  then show ?thesis by (simp add: example_outbox_record_def)
qed

definition example_inbound :: KafkaInboundMessage where
  "example_inbound = \<lparr>ki_topic = ''orders'', ki_partition = 0, ki_offset = 7, ki_key = None, ki_payload = JNull,
     ki_headers = [(''message_id'', ''m-9''), (''event_type'', ''order.created'')]\<rparr>"

definition example_inbound_envelope :: "datetime \<Rightarrow> MessageEnvelope" where
  "example_inbound_envelope now = \<lparr>env_metadata = \<lparr>md_message_id = ''m-9'', md_event_type = ''order.created'',
     md_message_key = None, md_ordering_key = None, md_correlation_id = None,
     md_headers = [(''message_id'', ''m-9''), (''event_type'', ''order.created'')], md_occurred_at = now\<rparr>,
     env_payload = JNull\<rparr>"

lemma example_inbound_simps [simp]:
  "ki_topic example_inbound = ''orders''" "ki_partition example_inbound = 0" "ki_offset example_inbound = 7"
  "md_message_id (env_metadata (example_inbound_envelope now)) = ''m-9''"
  by (simp_all add: example_inbound_def example_inbound_envelope_def)

lemma example_inbound_to_envelope [simp]:
  "KafkaInboundMessage_to_envelope now example_inbound = Inr (example_inbound_envelope now)"
  by (simp add: KafkaInboundMessage_to_envelope_def example_inbound_def get_or_def builder_defs Let_def
      MessageEnvelope_new_Inr_iff valid_metadata_def blank_iff is_space_def code_point_def example_inbound_envelope_def)

lemma example_inbound_fits [simp]:
  "inbox_fits example_postgres (pending_inbox_row cfg i t s (example_inbound_envelope now))"
  by (simp add: inbox_fits_def pending_inbox_row_def example_inbound_envelope_def)

text \<open>The first delivery is stored and its offset commit answers \<open>answer\<close>.\<close>

lemma example_first_delivery:
  "\<exists>out. KafkaInboxConsumer_save_and_commit default_PactixConfig example_postgres 9 (utc 60) ''billing''
       (\<lambda>_ _ _. answer) example_inbound [] =
     (case answer of Inl e \<Rightarrow> Inl e | Inr _ \<Rightarrow> Inr out,
      [pending_inbox_row default_PactixConfig 9 60 ''billing'' (example_inbound_envelope (utc 60))], [(''orders'', 0, 7)])"
proof -
  have valid: "valid_receipt ''billing'' (example_inbound_envelope (utc 60))"
    by (simp add: valid_receipt_def valid_metadata_def example_inbound_envelope_def blank_iff is_space_def code_point_def)
  have wf: "wf_dict (md_headers (env_metadata (example_inbound_envelope (utc 60))))"
    by (simp add: example_inbound_envelope_def wf_dict_def)
  show ?thesis
    using save_received_fresh [of example_postgres "''billing''" "example_inbound_envelope (utc 60)"
        default_PactixConfig 9 60 "[]"] valid wf
    by (auto simp: save_and_commit_eq
        split: sum.split)
qed

theorem kafka_offset_follows_receipt_witness:
  "\<exists>tbl'. (\<exists>e. KafkaInboxConsumer_save_and_commit default_PactixConfig example_postgres 9 (utc 60) ''billing''
       (\<lambda>_ _ _. Inl (CallbackError ''broker'')) example_inbound [] = (Inl e, tbl', [(''orders'', 0, 7)]))
     \<and> (\<exists>r \<in> set tbl'. text_eq example_postgres (col_message_id r) ''m-9'')"
proof -
  obtain e tbl' where call: "KafkaInboxConsumer_save_and_commit default_PactixConfig example_postgres 9 (utc 60) ''billing''
       (\<lambda>_ _ _. Inl (CallbackError ''broker'')) example_inbound [] = (Inl e, tbl', [(''orders'', 0, 7)])"
    using example_first_delivery [of "Inl (CallbackError ''broker'')"] by auto
  have "\<exists>r \<in> set tbl'. text_eq example_postgres (col_source r) ''billing'' \<and> text_eq example_postgres (col_message_id r) ''m-9''"
    using kafka_offset_follows_receipt [OF _ _ call] by simp
  then have "\<exists>r \<in> set tbl'. text_eq example_postgres (col_message_id r) ''m-9''" by blast
  with call show ?thesis by blast
qed

theorem kafka_redelivery_is_duplicate_witness:
  "\<exists>out tbl1. KafkaInboxConsumer_save_and_commit default_PactixConfig example_postgres 10 (utc 70) ''billing''
       (\<lambda>_ _ _. Inr ()) example_inbound tbl1 = (Inr out, tbl1, [(''orders'', 0, 7)])
     \<and> length tbl1 = 1 \<and> ReceiveOutcome_is_duplicate out"
proof -
  let ?tbl1 = "[pending_inbox_row default_PactixConfig 9 60 ''billing'' (example_inbound_envelope (utc 60))]"
  have first: "KafkaInboxConsumer_save_and_commit default_PactixConfig example_postgres 9 (utc 60) ''billing''
      (\<lambda>_ _ _. Inl (CallbackError ''broker'')) example_inbound [] = (Inl (CallbackError ''broker''), ?tbl1, [(''orders'', 0, 7)])"
    using example_first_delivery [of "Inl (CallbackError ''broker'')"] by simp
  have "inbox_invariant example_postgres []" by (simp add: inbox_invariant_def unique_ids_def)
  from kafka_redelivery_is_duplicate [OF _ this _ _ _ _ first _ rtranclp.rtrancl_refl,
      where t' = 70 and i' = 10 and commit' = "\<lambda>_ _ _. Inr ()"]
  have "\<exists>out. KafkaInboxConsumer_save_and_commit default_PactixConfig example_postgres 10 (utc 70) ''billing''
       (\<lambda>_ _ _. Inr ()) example_inbound ?tbl1 = (Inr out, ?tbl1, [(''orders'', 0, 7)]) \<and> ReceiveOutcome_is_duplicate out"
    by simp
  then show ?thesis by (metis length_Cons list.size(3) One_nat_def)
qed

text \<open>A record as a broker may deliver it, with a header that has no value.\<close>

definition example_record :: ConsumerRecord where
  "example_record = \<lparr>cr_topic = ''orders'', cr_partition = 0, cr_offset = 7, cr_key = None,
     cr_value = Some (str_encode (CHR ''['' # json_quote ''a'' @ '', 1.5]'')),
     cr_headers = Some [(''event_type'', Some (str_encode ''order.created'')), (''trace'', None)]\<rparr>"

theorem kafka_message_typed_witness:
  "\<exists>m. KafkaInboundMessage_from_record example_record = Inr m \<and> wf_dict (ki_headers m) \<and> json_ok (ki_payload m)"
proof -
  have "KafkaInboundMessage_from_record example_record = Inr \<lparr>ki_topic = ''orders'', ki_partition = 0, ki_offset = 7,
      ki_key = None, ki_payload = JList [JStr ''a'', JFloat (Fin (3/2))],
      ki_headers = [(''event_type'', ''order.created''), (''trace'', '''')]\<rparr>"
    by code_simp
  from kafka_message_typed [OF this] this show ?thesis by blast
qed

end
