(* ===== verification/KafkaDelivery.thy ===== *)
theory KafkaDelivery
  imports Delivery KafkaTransport
begin

text \<open>
  The outbox runner, the Kafka publisher, a broker and the receiver's consumer together.  The broker
  keeps a log per topic and partition; the consumer reads each log from its position, stores a
  message and then commits the next offset, as the loop of \<^verbatim>\<open>docs/kafka.md\<close> does.  Acknowledgements
  and commits may be lost and either side may crash and start again.
\<close>

section \<open>A broker with its consumer\<close>

record kafka_world =
  kw_log :: "string \<times> int \<Rightarrow> KafkaSend list"
  kw_position :: "string \<times> int \<Rightarrow> nat"
  kw_committed :: "string \<times> int \<Rightarrow> nat"
  kw_inbox :: inbox_table

record kafka_link =
  kl_session :: executor
  kl_source :: string
  kl_topics :: KafkaTopicRouter
  kl_show :: "error \<Rightarrow> string"

text \<open>The fate of a message that is sent: acknowledged in a partition, stored there without the
  acknowledgement arriving, or refused.\<close>

datatype broker = Acknowledged int | Ack_lost int error | Refused error

fun broker_answer :: "broker \<Rightarrow> error + unit" where
  "broker_answer (Acknowledged part) = Inr ()"
| "broker_answer (Ack_lost part e) = Inl e"
| "broker_answer (Refused e) = Inl e"

definition produce :: "int \<Rightarrow> KafkaSend \<Rightarrow> kafka_world \<Rightarrow> kafka_world" where
  "produce part send w =
     w\<lparr>kw_log := (kw_log w)((ks_topic send, part) := kw_log w (ks_topic send, part) @ [send])\<rparr>"

fun broker_stores :: "broker \<Rightarrow> KafkaSend \<Rightarrow> kafka_world \<Rightarrow> kafka_world" where
  "broker_stores (Acknowledged part) send w = produce part send w"
| "broker_stores (Ack_lost part e) send w = produce part send w"
| "broker_stores (Refused e) send w = w"

inductive kafka_attempt ::
  "kafka_link \<Rightarrow> OutboxMessageRecord \<Rightarrow> kafka_world \<Rightarrow> error + PublishOutcome \<Rightarrow> kafka_world \<Rightarrow> bool" for L m w where
  "res = KafkaOutboxPublisher_publish (kl_show L) (AIOKafkaProducerClient_send (\<lambda>_. broker_answer b)) (kl_topics L) m \<Longrightarrow>
   w' = (case KafkaOutboxPublisher_build_message (kl_topics L) m of
      Inl e \<Rightarrow> w | Inr message \<Rightarrow> broker_stores b (AIOKafkaProducerClient_request message) w) \<Longrightarrow>
   kafka_attempt L m w res w'"

text \<open>The message id the consumer stores for an entry of a log, if it can read the entry.\<close>

definition entry_key :: "int \<Rightarrow> nat \<Rightarrow> KafkaSend \<Rightarrow> string option" where
  "entry_key part n send =
     (case KafkaInboundMessage_from_record (delivered part (int n) send) of
        Inl e \<Rightarrow> None
      | Inr m \<Rightarrow> Some (get_or ''message_id'' (ki_headers m) (fallback_message_id m)))"

text \<open>Whatever the consumer reads of an entry fits the receiver's columns.\<close>

definition entry_fits :: "kafka_link \<Rightarrow> KafkaSend \<Rightarrow> bool" where
  "entry_fits L send \<longleftrightarrow>
     (\<forall>part n m t env. KafkaInboundMessage_from_record (delivered part (int n) send) = Inr m \<longrightarrow>
        KafkaInboundMessage_to_envelope (utc t) m = Inr env \<longrightarrow> receivable (kl_session L) (kl_source L) env)"

definition store_offsets :: "(string \<times> int \<Rightarrow> nat) \<Rightarrow> ((string \<times> int) \<times> int) list \<Rightarrow> string \<times> int \<Rightarrow> nat" where
  "store_offsets committed offsets = fold (\<lambda>(tp, offset) c. c(tp := nat offset)) offsets committed"

text \<open>
  What happens behind the broker: the consumer takes the message at its position (\<open>applied\<close> says whether
  a commit whose answer is an error reached the broker), starts again at the committed offsets,
  other producers append, and the receiver's workers use the inbox.
\<close>

inductive kafka_step :: "kafka_link \<Rightarrow> kafka_world \<Rightarrow> kafka_world \<Rightarrow> bool" for L w where
  consumed: "kw_position w (topic, part) = n \<Longrightarrow> n < length (kw_log w (topic, part)) \<Longrightarrow>
    KafkaInboundMessage_from_record (delivered part (int n) (kw_log w (topic, part) ! n)) = Inr m \<Longrightarrow>
    KafkaInboxConsumer_save_and_commit cfg (kl_session L) i (utc t) (kl_source L)
      (AIOKafkaOffsetCommitter_commit (\<lambda>_. answer)) m (kw_inbox w) = (res, tbl, commits) \<Longrightarrow>
    committed = (if answer = Inr () \<or> applied
       then fold (\<lambda>(topic, part, offset) c. AIOKafkaOffsetCommitter_commit (store_offsets c) topic part offset) commits (kw_committed w)
       else kw_committed w) \<Longrightarrow>
    position = (case res of Inl e \<Rightarrow> kw_position w | Inr out \<Rightarrow> (kw_position w)((topic, part) := n + 1)) \<Longrightarrow>
    kafka_step L w (w\<lparr>kw_inbox := tbl, kw_position := position, kw_committed := committed\<rparr>)"
| restarted: "kafka_step L w (w\<lparr>kw_position := kw_committed w\<rparr>)"
| produced: "entry_fits L send \<Longrightarrow> kafka_step L w (produce part send w)"
| worked: "inbox_call (kl_session L) (kw_inbox w) tbl \<Longrightarrow> kafka_step L w (w\<lparr>kw_inbox := tbl\<rparr>)"

definition empty_kafka :: kafka_world where
  "empty_kafka = \<lparr>kw_log = (\<lambda>_. []), kw_position = (\<lambda>_. 0), kw_committed = (\<lambda>_. 0), kw_inbox = []\<rparr>"

text \<open>Everything the consumer has passed or committed is stored.\<close>

definition kafka_sound :: "kafka_link \<Rightarrow> kafka_world \<Rightarrow> bool" where
  "kafka_sound L w \<longleftrightarrow> db_session (kl_session L) \<and> inbox_invariant (kl_session L) (kw_inbox w) \<and>
     (\<forall>topic part. \<forall>send \<in> set (kw_log w (topic, part)). ks_topic send = topic \<and> entry_fits L send) \<and>
     (\<forall>topic part n. n < kw_position w (topic, part) \<or> n < kw_committed w (topic, part) \<longrightarrow>
        n < length (kw_log w (topic, part)) \<and>
        (\<exists>k. entry_key part n (kw_log w (topic, part) ! n) = Some k \<and> received_from (kl_session L) (kl_source L) k (kw_inbox w)))"

lemma kafka_soundD:
  assumes "kafka_sound L w"
  shows "db_session (kl_session L)" and "inbox_invariant (kl_session L) (kw_inbox w)"
    and "send \<in> set (kw_log w (topic, part)) \<Longrightarrow> ks_topic send = topic \<and> entry_fits L send"
    and "n < kw_position w (topic, part) \<or> n < kw_committed w (topic, part) \<Longrightarrow> n < length (kw_log w (topic, part)) \<and>
      (\<exists>k. entry_key part n (kw_log w (topic, part) ! n) = Some k \<and> received_from (kl_session L) (kl_source L) k (kw_inbox w))"
  using assms unfolding kafka_sound_def by blast+

text \<open>
  Messages the receiver's columns can hold and whose payload is a JSON value.  A custom header may
  stand in for a missing ordering key or correlation id, and then has to fit too.
\<close>

definition kafka_sendable :: "kafka_link \<Rightarrow> MessageEnvelope \<Rightarrow> bool" where
  "kafka_sendable L env \<longleftrightarrow>
     json_ok (env_payload env) \<and> wf_dict (md_headers (env_metadata env)) \<and> \<not> blank (md_message_id (env_metadata env)) \<and>
     receivable (kl_session L) (kl_source L) env \<and>
     pred_option (ex_fits (kl_session L)) (map_of (md_headers (env_metadata env)) ''ordering_key'') \<and>
     pred_option (ex_fits (kl_session L)) (map_of (md_headers (env_metadata env)) ''correlation_id'')"

definition kafka_arrived :: "string \<Rightarrow> kafka_world \<Rightarrow> bool" where
  "kafka_arrived i w \<longleftrightarrow>
     (\<exists>topic part n. n < length (kw_log w (topic, part)) \<and> entry_key part n (kw_log w (topic, part) ! n) = Some i)"

section \<open>What the log and the consumer keep\<close>

lemma produce_log: "kw_log (produce part send w) tp = kw_log w tp @ (if tp = (ks_topic send, part) then [send] else [])"
  by (auto simp: produce_def)

lemma produce_arrived: "kafka_arrived i w \<Longrightarrow> kafka_arrived i (produce part send w)"
  unfolding kafka_arrived_def by (metis (no_types, lifting) produce_log length_append nth_append trans_less_add1)

lemma produce_sound:
  assumes w: "kafka_sound L w" and "entry_fits L send"
  shows "kafka_sound L (produce part send w)"
proof -
  have same: "kw_position (produce part send w) = kw_position w" "kw_committed (produce part send w) = kw_committed w"
    "kw_inbox (produce part send w) = kw_inbox w" by (simp_all add: produce_def)
  show ?thesis
    unfolding kafka_sound_def same
  proof (intro conjI allI impI ballI)
    fix topic p s
    assume "s \<in> set (kw_log (produce part send w) (topic, p))"
    then show "ks_topic s = topic" and "entry_fits L s"
      using kafka_soundD(3) [OF w] assms(2) by (auto simp: produce_log split: if_splits)
  next
    fix topic p n
    assume "n < kw_position w (topic, p) \<or> n < kw_committed w (topic, p)"
    from kafka_soundD(4) [OF w this]
    show "n < length (kw_log (produce part send w) (topic, p))"
      and "\<exists>k. entry_key p n (kw_log (produce part send w) (topic, p) ! n) = Some k
        \<and> received_from (kl_session L) (kl_source L) k (kw_inbox w)"
      by (auto simp: produce_log nth_append)
  qed (use kafka_soundD(1,2) [OF w] in auto)
qed

text \<open>The entry a sendable message becomes.\<close>

lemma sent_entry:
  assumes env: "kafka_sendable L env" "carried m env"
    and message: "KafkaOutboxPublisher_build_message (kl_topics L) m = Inr message"
  shows "entry_key part n (AIOKafkaProducerClient_request message) = Some (rec_message_id m)"
    and "entry_fits L (AIOKafkaProducerClient_request message)"
proof -
  have kp: "kp_payload message = json_dumps (rec_payload m)" "kp_headers message = kafka_headers m"
    using message by (auto simp: build_message_eq)
  have wf: "wf_dict (rec_headers m)" and same: "map_of (rec_headers m) = map_of (md_headers (env_metadata env))"
    using env(2) by (simp_all add: carried_def)
  have read: "map_of (dict_update [] (kafka_headers m)) = map_of (kafka_headers m)"
    by (simp add: map_of_dict_update_Nil wf_kafka_headers wf)
  have rec: "KafkaInboundMessage_from_record (delivered part (int n) (AIOKafkaProducerClient_request message)) =
      Inr \<lparr>ki_topic = kp_topic message, ki_partition = part, ki_offset = int n, ki_key = kp_key message,
           ki_payload = rec_payload m, ki_headers = dict_update [] (kafka_headers m)\<rparr>" for part n
    using from_delivered [of "rec_payload m" message part "int n"] env by (simp add: kp kafka_sendable_def carried_def)
  have "rec_message_id m \<noteq> []" using env by (auto simp: kafka_sendable_def carried_def blank_iff)
  then have id: "get_or ''message_id'' (dict_update [] (kafka_headers m)) d = rec_message_id m" for d
    by (simp add: get_or_def read kafka_headers_simps)
  then show "entry_key part n (AIOKafkaProducerClient_request message) = Some (rec_message_id m)"
    by (simp add: entry_key_def rec)
  show "entry_fits L (AIOKafkaProducerClient_request message)"
    unfolding entry_fits_def
  proof (intro allI impI)
    fix part n k t env'
    assume "KafkaInboundMessage_from_record (delivered part (int n) (AIOKafkaProducerClient_request message)) = Inr k"
      and e: "KafkaInboundMessage_to_envelope (utc t) k = Inr env'"
    then have k: "ki_headers k = dict_update [] (kafka_headers m)" by (auto simp: rec)
    show "receivable (kl_session L) (kl_source L) env'"
      using to_envelope_Inr(2-5) [OF e] env
      by (auto simp: receivable_def k id read kafka_headers_simps same kafka_sendable_def carried_def)
  qed
qed

lemma kafka_attempt_cases:
  assumes "kafka_attempt L m w res w'" "kafka_sendable L env" "carried m env"
  obtains (same) "w' = w" "\<And>outcome. res = Inr outcome \<Longrightarrow> \<not> PublishOutcome_is_published outcome"
    | (sent) part send where "w' = produce part send w" "entry_fits L send" "\<And>part n. entry_key part n send = Some (rec_message_id m)"
  using assms(1)
proof cases
  case (1 b)
  show thesis
  proof (cases "KafkaOutboxPublisher_build_message (kl_topics L) m")
    case (Inl e)
    with 1 same show thesis by (simp add: KafkaOutboxPublisher_publish_def)
  next
    case (Inr message)
    note entry = sent_entry [OF assms(2,3) Inr]
    from Inr 1 same sent [OF _ entry(2,1)] show thesis
      by (cases b) (auto simp: KafkaOutboxPublisher_publish_def AIOKafkaProducerClient_send_def outcome_tests outcome_defs split: if_splits)
  qed
qed

lemma sent_arrived:
  assumes "\<And>part n. entry_key part n send = Some i"
  shows "kafka_arrived i (produce part send w)"
  unfolding kafka_arrived_def
proof (intro exI conjI)
  show "length (kw_log w (ks_topic send, part)) < length (kw_log (produce part send w) (ks_topic send, part))"
    by (simp add: produce_log)
  show "entry_key part (length (kw_log w (ks_topic send, part)))
      (kw_log (produce part send w) (ks_topic send, part) ! length (kw_log w (ks_topic send, part))) = Some i"
    using assms by (simp add: produce_log)
qed

text \<open>Whoever uses the inbox, the receipts of the consumer stay.\<close>

lemma inbox_sound:
  assumes w: "kafka_sound L w" and c: "inbox_call (kl_session L) (kw_inbox w) tbl"
  shows "kafka_sound L (w\<lparr>kw_inbox := tbl\<rparr>)"
proof -
  note d = kafka_soundD [OF w]
  have "n < length (kw_log w (topic, part)) \<and>
      (\<exists>k. entry_key part n (kw_log w (topic, part) ! n) = Some k \<and> received_from (kl_session L) (kl_source L) k tbl)"
    if "n < kw_position w (topic, part) \<or> n < kw_committed w (topic, part)" for topic part n
    using d(4) [OF that] received_from_kept [OF c d(1,2)] by blast
  then show ?thesis using d(1,3) inbox_call_invariant(1) [OF c d(1,2)] unfolding kafka_sound_def by simp
qed

text \<open>The consumer may move past the message at \<open>n\<close>, and commit it, once that message is stored.\<close>

lemma advance_sound:
  assumes w: "kafka_sound L w" and n: "kw_position w (topic, part) = n" "n < length (kw_log w (topic, part))"
    and k: "entry_key part n (kw_log w (topic, part) ! n) = Some k" "received_from (kl_session L) (kl_source L) k (kw_inbox w)"
    and new: "position = kw_position w \<or> position = (kw_position w)((topic, part) := n + 1)"
      "committed = kw_committed w \<or> committed = (kw_committed w)((topic, part) := n + 1)"
  shows "kafka_sound L (w\<lparr>kw_position := position, kw_committed := committed\<rparr>)"
proof -
  have "j < length (kw_log w (tp, p)) \<and> (\<exists>k. entry_key p j (kw_log w (tp, p) ! j) = Some k
      \<and> received_from (kl_session L) (kl_source L) k (kw_inbox w))" if "j < position (tp, p) \<or> j < committed (tp, p)" for tp p j
  proof (cases "(tp, p) = (topic, part) \<and> j = n")
    case True
    with n(2) k show ?thesis by auto
  next
    case False
    with that new n(1) have "j < kw_position w (tp, p) \<or> j < kw_committed w (tp, p)"
      by (auto simp: less_Suc_eq split: if_splits)
    then show ?thesis by (rule kafka_soundD(4) [OF w])
  qed
  with kafka_soundD(1-3) [OF w] show ?thesis unfolding kafka_sound_def by auto
qed

lemma consume_sound:
  assumes w: "kafka_sound L w" and n: "kw_position w (topic, part) = n" "n < length (kw_log w (topic, part))"
    and m: "KafkaInboundMessage_from_record (delivered part (int n) (kw_log w (topic, part) ! n)) = Inr m"
    and call: "KafkaInboxConsumer_save_and_commit cfg (kl_session L) i (utc t) (kl_source L)
      (AIOKafkaOffsetCommitter_commit (\<lambda>_. answer)) m (kw_inbox w) = (res, tbl, commits)"
    and committed: "committed = (if answer = Inr () \<or> applied
       then fold (\<lambda>(topic, part, offset) c. AIOKafkaOffsetCommitter_commit (store_offsets c) topic part offset) commits (kw_committed w)
       else kw_committed w)"
    and position: "position = (case res of Inl e \<Rightarrow> kw_position w | Inr out \<Rightarrow> (kw_position w)((topic, part) := n + 1))"
  shows "kafka_sound L (w\<lparr>kw_inbox := tbl, kw_position := position, kw_committed := committed\<rparr>)"
proof (cases "res_bind (KafkaInboundMessage_to_envelope (utc t) m) (\<lambda>envelope.
    InboxStore_save_received cfg (kl_session L) i (utc t) (kl_source L) envelope (kw_inbox w))")
  case (Inl e)
  with call have "res = Inl e" "tbl = kw_inbox w" "commits = []"
    by (auto simp: save_and_commit_eq)
  with w committed position show ?thesis by simp
next
  case (Inr x)
  let ?send = "kw_log w (topic, part) ! n"
  note d = kafka_soundD [OF w]
  obtain env out where env: "KafkaInboundMessage_to_envelope (utc t) m = Inr env"
    and saved: "InboxStore_save_received cfg (kl_session L) i (utc t) (kl_source L) env (kw_inbox w) = Inr (out, tbl)"
    and commits: "commits = [(ki_topic m, ki_partition m, ki_offset m)]"
    using Inr call
    by (auto simp: save_and_commit_eq split: sum.splits)
  have send: "ks_topic ?send = topic" "entry_fits L ?send" using d(3) [OF nth_mem [OF n(2)]] by simp_all
  have m': "ki_topic m = topic" "ki_partition m = part" "ki_offset m = int n"
    using m send(1) by (auto simp: KafkaInboundMessage_from_record_def delivered_def split: option.splits)
  have "inbox_fits (kl_session L) (pending_inbox_row cfg i t (kl_source L) env)"
    using send(2) m env by (auto simp: entry_fits_def receivable_fits [OF d(1)])
  then have "received_from (kl_session L) (kl_source L) (md_message_id (env_metadata env)) tbl"
    using save_received_stores [OF session_driver(1) [OF d(1)] _ saved] by (simp add: received_from_def)
  moreover have "entry_key part n ?send = Some (md_message_id (env_metadata env))"
    using to_envelope_Inr(2) [OF env] by (simp add: entry_key_def m)
  moreover have "kafka_sound L (w\<lparr>kw_inbox := tbl\<rparr>)" by (rule inbox_sound [OF w inbox_call.received [OF saved]])
  moreover have "committed = kw_committed w \<or> committed = (kw_committed w)((topic, part) := n + 1)"
    unfolding committed commits by (simp add: AIOKafkaOffsetCommitter_commit_def store_offsets_def m' nat_add_distrib)
  moreover have "position = kw_position w \<or> position = (kw_position w)((topic, part) := n + 1)"
    unfolding position by (simp split: sum.split)
  ultimately show ?thesis
    using advance_sound [of L "w\<lparr>kw_inbox := tbl\<rparr>" topic part n _ position committed] n by simp
qed

lemma kafka_step_sound:
  assumes "kafka_step L w w'" "kafka_sound L w"
  shows "kafka_sound L w'" and "kafka_arrived i w \<Longrightarrow> kafka_arrived i w'"
proof -
  show "kafka_sound L w'"
    using assms(1)
  proof cases
    case consumed
    show ?thesis unfolding consumed(1) by (rule consume_sound [OF assms(2) consumed(2-7)])
  next
    case restarted
    then show ?thesis using assms(2) by (simp add: kafka_sound_def)
  next
    case produced
    then show ?thesis using produce_sound [OF assms(2)] by simp
  next
    case worked
    then show ?thesis using inbox_sound [OF assms(2)] by simp
  qed
  show "kafka_arrived i w \<Longrightarrow> kafka_arrived i w'"
    using assms(1) by cases (auto simp: produce_arrived, auto simp: kafka_arrived_def)
qed

interpretation kafka_carrier: carrier "kafka_attempt L" "kafka_step L" "kafka_sound L" "kafka_sendable L" kafka_arrived for L
proof unfold_locales
  fix w w' env m res
  assume "kafka_sound L w" and env: "kafka_sendable L env" "carried m env" and a: "kafka_attempt L m w res w'"
  from a env show "kafka_sound L w'" by (cases rule: kafka_attempt_cases) (simp_all add: \<open>kafka_sound L w\<close> produce_sound)
next
  show "kafka_arrived i w'" if "kafka_attempt L m w res w'" "kafka_arrived i w" for m w res w' i
    using that(1)
  proof cases
    case (1 b)
    then show ?thesis using that(2) by (cases b) (auto simp: produce_arrived split: sum.splits)
  qed
next
  show "kafka_arrived (rec_message_id m) w'"
    if env: "kafka_sendable L env" "carried m env" and a: "kafka_attempt L m w (Inr outcome) w'" and "PublishOutcome_is_published outcome"
    for w w' env m outcome
    using a env by (cases rule: kafka_attempt_cases) (use that(4) in \<open>auto intro: sent_arrived\<close>)
qed (auto simp: kafka_step_sound kafka_sendable_def)

text \<open>Property C2: end to end over Kafka.  Whatever appends, claims, lost acknowledgements, crashes, retries and
  late or repeated recordings happen on the sending side, and however the consumer fails between
  storing and committing and starts again: every published outbox row has its message in a log,
  and once the consumer has committed past it, the receiving inbox holds exactly one row of its
  source and message id.\<close>

theorem kafka_delivered_exactly_once:
  assumes "db_session ex" and L: "db_session (kl_session L)"
    and run: "(delivery_step (kafka_attempt L) (kafka_step L) (kafka_sendable L) ex)\<^sup>*\<^sup>* (idle_delivery empty_kafka) s"
    and r: "r \<in> set (dl_outbox s)" "col_status r = ''published''"
  shows "\<exists>topic part n. n < length (kw_log (dl_world s) (topic, part))
    \<and> entry_key part n (kw_log (dl_world s) (topic, part) ! n) = Some (col_message_id r)
    \<and> (n < kw_committed (dl_world s) (topic, part) \<longrightarrow>
        (\<exists>!b. b \<in> set (kw_inbox (dl_world s)) \<and> text_eq (kl_session L) (col_source b) (kl_source L)
           \<and> text_eq (kl_session L) (col_message_id b) (col_message_id r)))"
proof -
  have "kafka_sound L empty_kafka" using L by (simp add: kafka_sound_def empty_kafka_def inbox_invariant_def unique_ids_def)
  from kafka_carrier.delivery_reachable [OF assms(1) this run] have inv: "kafka_carrier.delivery_inv L ex s" .
  note w = kafka_carrier.delivery_invD(1) [OF inv]
  from kafka_carrier.delivery_invD(4) [OF inv r] obtain topic part n where n: "n < length (kw_log (dl_world s) (topic, part))"
    "entry_key part n (kw_log (dl_world s) (topic, part) ! n) = Some (col_message_id r)"
    by (auto simp: kafka_arrived_def)
  have "\<exists>!b. b \<in> set (kw_inbox (dl_world s)) \<and> text_eq (kl_session L) (col_source b) (kl_source L)
      \<and> text_eq (kl_session L) (col_message_id b) (col_message_id r)" if "n < kw_committed (dl_world s) (topic, part)"
    using kafka_soundD(4) [OF w, of n topic part] that n(2) by (intro received_once [OF kafka_soundD(2) [OF w]]) auto
  with n show ?thesis by blast
qed

section \<open>A concrete delivery\<close>

definition example_kafka :: kafka_link where
  "example_kafka = \<lparr>kl_session = example_postgres, kl_source = ''kafka:orders'', kl_topics = example_topics, kl_show = (\<lambda>_. ''down'')\<rparr>"

definition example_message :: KafkaProducedMessage where
  "example_message = \<lparr>kp_topic = ''orders'', kp_key = None, kp_payload = json_dumps (rec_payload example_sent),
     kp_headers = kafka_headers example_sent\<rparr>"

definition example_received :: KafkaInboundMessage where
  "example_received = \<lparr>ki_topic = ''orders'', ki_partition = 0, ki_offset = 0, ki_key = None, ki_payload = rec_payload example_sent,
     ki_headers = dict_update [] (kafka_headers example_sent)\<rparr>"

lemma example_kafka_simps [simp]:
  "kl_session example_kafka = example_postgres" "kl_source example_kafka = ''kafka:orders''" "kl_topics example_kafka = example_topics"
  by (simp_all add: example_kafka_def)

lemma example_kafka_sendable: "kafka_sendable example_kafka example_envelope"
  by (simp add: kafka_sendable_def receivable_def example_envelope_def builder_defs wf_dict_def blank_iff is_space_def code_point_def)

lemma example_kafka_message: "KafkaOutboxPublisher_build_message example_topics example_sent = Inr example_message"
  using example_outbox_record_simps(4) by (simp add: build_message_eq example_message_def example_outbox_record_def)

abbreviation example_produced :: kafka_world where
  "example_produced \<equiv> produce 0 (AIOKafkaProducerClient_request example_message) empty_kafka"

lemma example_kafka_attempt: "kafka_attempt example_kafka example_sent empty_kafka (Inr PublishOutcome_published) example_produced"
  by (rule kafka_attempt.intros [where b = "Acknowledged 0"])
    (simp_all add: KafkaOutboxPublisher_publish_def AIOKafkaProducerClient_send_def example_kafka_message)

lemma example_from_record:
  "KafkaInboundMessage_from_record (delivered 0 0 (AIOKafkaProducerClient_request example_message)) = Inr example_received"
proof -
  have "rec_payload example_sent = JObj [(''total'', JInt 7)]" by code_simp
  then have "json_ok (rec_payload example_sent)" by (simp add: wf_dict_def)
  from from_delivered [OF this, of example_message 0 0] show ?thesis by (simp add: example_message_def example_received_def)
qed

lemma example_kafka_stored:
  obtains out tbl where "KafkaInboxConsumer_save_and_commit default_PactixConfig example_postgres 7 (utc 70) ''kafka:orders''
      (AIOKafkaOffsetCommitter_commit (\<lambda>_. Inr ())) example_received [] = (Inr out, tbl, [(''orders'', 0, 0)])"
proof -
  have "ki_headers example_received = [(''a'', ''1''), (''b'', ''2''), (''message_id'', ''id-1''), (''event_type'', ''order.created'')]"
    by code_simp
  then obtain env where env: "KafkaInboundMessage_to_envelope (utc 70) example_received = Inr env"
    by (auto simp: KafkaInboundMessage_to_envelope_def get_or_def builder_defs Let_def MessageEnvelope_new_Inr_iff
        valid_metadata_def blank_iff is_space_def code_point_def example_received_def)
  then have "valid_receipt ''kafka:orders'' env" "wf_dict (md_headers (env_metadata env))"
    using to_envelope_Inr(1) [OF env]
    by (auto simp: valid_receipt_def blank_iff is_space_def code_point_def KafkaInboundMessage_to_envelope_def Let_def builder_defs
        MessageEnvelope_new_Inr_iff example_received_def split: option.splits)
  moreover have "inbox_invariant example_postgres []" by (simp add: inbox_invariant_def unique_ids_def)
  moreover have "inbox_fits example_postgres (pending_inbox_row default_PactixConfig 7 70 ''kafka:orders'' env)"
    by (simp add: receivable_fits receivable_def pred_option_def)
  ultimately obtain out tbl where
    "InboxStore_save_received default_PactixConfig example_postgres 7 (utc 70) ''kafka:orders'' env [] = Inr (out, tbl)"
    using save_received_total [OF session_driver(1) [OF postgres_db_session [OF example_postgres_session]]] by force
  then show thesis
    using env that
    by (simp add: save_and_commit_eq AIOKafkaOffsetCommitter_commit_def
        example_received_def)
qed

theorem kafka_delivered_exactly_once_witness:
  "\<exists>s. (delivery_step (kafka_attempt example_kafka) (kafka_step example_kafka) (kafka_sendable example_kafka) example_postgres)\<^sup>*\<^sup>*
       (idle_delivery empty_kafka) s
     \<and> map col_status (dl_outbox s) = [''published''] \<and> kw_committed (dl_world s) (''orders'', 0) = 1
     \<and> (\<exists>!b. b \<in> set (kw_inbox (dl_world s)) \<and> text_eq example_postgres (col_source b) ''kafka:orders''
           \<and> text_eq example_postgres (col_message_id b) ''id-1'')"
proof (rule example_kafka_stored)
  fix out tbl
  assume stored: "KafkaInboxConsumer_save_and_commit default_PactixConfig example_postgres 7 (utc 70) ''kafka:orders''
      (AIOKafkaOffsetCommitter_commit (\<lambda>_. Inr ())) example_received [] = (Inr out, tbl, [(''orders'', 0, 0)])"
  let ?step = "delivery_step (kafka_attempt example_kafka) (kafka_step example_kafka) (kafka_sendable example_kafka) example_postgres"
  let ?row = "set_published 61 (set_claimed 30000050 50 (pending_outbox_row default_PactixConfig 9 5 example_envelope))"
  let ?s = "\<lambda>w. \<lparr>dl_outbox = [?row], dl_claimed = {example_sent}, dl_answers = {(example_sent, PublishOutcome_published)}, dl_world = w\<rparr>"
  let ?w = "example_produced\<lparr>kw_inbox := tbl, kw_position := (\<lambda>_. 0)((''orders'', 0) := 1), kw_committed := (\<lambda>_. 0)((''orders'', 0) := 1)\<rparr>"
  have topic: "ks_topic (AIOKafkaProducerClient_request example_message) = ''orders''"
    by (simp add: AIOKafkaProducerClient_request_def example_message_def)
  have "?step\<^sup>*\<^sup>* (idle_delivery empty_kafka) (?s example_produced)"
    by (rule example_delivery_run [where attempt = "kafka_attempt example_kafka" and sendable = "kafka_sendable example_kafka",
          OF example_kafka_sendable example_kafka_attempt])
  moreover have "kafka_step example_kafka example_produced ?w"
  proof (rule kafka_step.consumed [of example_produced "''orders''" 0 0 example_received default_PactixConfig example_kafka 7 70 "Inr ()"
        "Inr out" tbl "[(''orders'', 0, 0)]" _ False])
    show "KafkaInboundMessage_from_record (delivered 0 (int 0) (kw_log example_produced (''orders'', 0) ! 0)) = Inr example_received"
      using example_from_record by (simp add: produce_log topic empty_kafka_def)
    show "KafkaInboxConsumer_save_and_commit default_PactixConfig (kl_session example_kafka) 7 (utc 70) (kl_source example_kafka)
        (AIOKafkaOffsetCommitter_commit (\<lambda>_. Inr ())) example_received (kw_inbox example_produced) = (Inr out, tbl, [(''orders'', 0, 0)])"
      using stored by (simp add: produce_def empty_kafka_def)
  qed (simp_all add: produce_def topic empty_kafka_def AIOKafkaOffsetCommitter_commit_def store_offsets_def)
  then have "?step (?s example_produced) (?s ?w)"
    using delivery_step.received [of "kafka_step example_kafka" "?s example_produced" ?w] by simp
  ultimately have run: "?step\<^sup>*\<^sup>* (idle_delivery empty_kafka) (?s ?w)" by (rule rtranclp.rtrancl_into_rtrancl)
  have id: "col_message_id ?row = ''id-1''"
    by (simp add: set_published_def set_claimed_def pending_outbox_row_def example_envelope_def builder_defs)
  have pg: "db_session example_postgres" by (rule postgres_db_session [OF example_postgres_session])
  have row: "?row \<in> set (dl_outbox (?s ?w))" "col_status ?row = ''published''" by (simp_all add: set_published_def)
  have pg': "db_session (kl_session example_kafka)" using pg by simp
  from kafka_delivered_exactly_once [OF pg pg' run row, unfolded id] obtain topic part n where
    n: "n < length (kw_log (dl_world (?s ?w)) (topic, part))" and
    one: "n < kw_committed (dl_world (?s ?w)) (topic, part) \<longrightarrow> (\<exists>!b. b \<in> set (kw_inbox (dl_world (?s ?w)))
      \<and> text_eq (kl_session example_kafka) (col_source b) (kl_source example_kafka)
      \<and> text_eq (kl_session example_kafka) (col_message_id b) ''id-1'')" by blast
  have "n < kw_committed (dl_world (?s ?w)) (topic, part)" using n by (auto simp: produce_log topic empty_kafka_def split: if_splits)
  with one run row(2) show ?thesis by (intro exI [of _ "?s ?w"]) simp
qed

end
