(* ===== verification/Schema.thy ===== *)
theory Schema
  imports OutboxModel InboxModel Dialect
begin

text \<open>
  \<^verbatim>\<open>db/tables.py\<close> and the migrations \<^verbatim>\<open>0001\<close> to \<^verbatim>\<open>0003\<close> under \<^verbatim>\<open>db/migrations/versions\<close>: the two
  tables as the library declares them, with what each declaration renders to on each database,
  and the statements the migrations run against a schema.  The library never creates its tables
  itself, so that the stores rely on the two descriptions being the same.
\<close>

section \<open>Columns, indexes, tables\<close>

datatype sql_type = UUID | MYSQL_CHAR nat | TEXT | VARCHAR nat | JSONB | JSON | INTEGER | TIMESTAMPTZ | DATETIME nat

record column =
  c_name :: string
  c_type :: sql_type
  c_primary_key :: bool
  c_nullable :: bool
  c_unique :: bool
  c_default :: "string option"

record db_index =
  ix_name :: string
  ix_columns :: "string list"
  ix_where :: "string option"

record db_table =
  t_name :: string
  t_columns :: "column list"
  t_checks :: "(string \<times> string) list"
  t_uniques :: "(string \<times> string list) list"
  t_indexes :: "db_index list"

text \<open>A primary-key column, a required one, an optional one, and one with a server default.\<close>

definition key_column :: "string \<Rightarrow> sql_type \<Rightarrow> column" where
  "key_column n ty = \<lparr>c_name = n, c_type = ty, c_primary_key = True, c_nullable = False, c_unique = False, c_default = None\<rparr>"

definition not_null :: "string \<Rightarrow> sql_type \<Rightarrow> column" where
  "not_null n ty = \<lparr>c_name = n, c_type = ty, c_primary_key = False, c_nullable = False, c_unique = False, c_default = None\<rparr>"

definition null_able :: "string \<Rightarrow> sql_type \<Rightarrow> column" where
  "null_able n ty = (not_null n ty)\<lparr>c_nullable := True\<rparr>"

definition with_default :: "string \<Rightarrow> column \<Rightarrow> column" where
  "with_default d c = c\<lparr>c_default := Some d\<rparr>"

definition unique_column :: "column \<Rightarrow> column" where
  "unique_column c = c\<lparr>c_unique := True\<rparr>"

section \<open>The declarations of \<^verbatim>\<open>tables.py\<close>\<close>

text \<open>A type with a variant: what it renders to on MySQL, and on every other dialect.\<close>

definition with_variant :: "sql_type \<Rightarrow> sql_type \<Rightarrow> string \<Rightarrow> sql_type" where
  "with_variant base variant dialect = (if dialect = MYSQL then variant else base)"

definition ty_uuid :: "string \<Rightarrow> sql_type" where "ty_uuid = with_variant UUID (MYSQL_CHAR 32)"
definition ty_jsonb :: "string \<Rightarrow> sql_type" where "ty_jsonb = with_variant JSONB JSON"
definition ty_timestamptz :: "string \<Rightarrow> sql_type" where "ty_timestamptz = with_variant TIMESTAMPTZ (DATETIME 6)"
definition ty_text :: "string \<Rightarrow> sql_type" where "ty_text = (\<lambda>_. TEXT)"
definition ty_indexed_text :: "string \<Rightarrow> sql_type" where "ty_indexed_text = with_variant TEXT (VARCHAR 255)"

definition quote_json :: string where
  "quote_json = quoted ''{}'' @ ''::jsonb''"

definition json_default :: "string \<Rightarrow> string" where
  "json_default dialect = (if dialect = MYSQL then ''(JSON_OBJECT())'' else quote_json)"

text \<open>\<^verbatim>\<open>Index(..., postgresql_where=...)\<close>: the predicate is PostgreSQL's only.\<close>

definition partial_index :: "string \<Rightarrow> string list \<Rightarrow> string \<Rightarrow> string \<Rightarrow> db_index" where
  "partial_index n cols cond dialect =
     \<lparr>ix_name = n, ix_columns = cols, ix_where = (if dialect = MYSQL then None else Some cond)\<rparr>"

definition OUTBOX_STATUSES :: "string list" where
  "OUTBOX_STATUSES = [''pending'', ''processing'', ''published'', ''failed'']"

definition INBOX_STATUSES :: "string list" where
  "INBOX_STATUSES = [''pending'', ''processing'', ''processed'', ''failed'']"

text \<open>The text of the check constraint on \<^verbatim>\<open>status\<close>, a list of quoted literals.\<close>

definition status_in :: "string list \<Rightarrow> string" where
  "status_in statuses = ''status IN ('' @ comma_separated (map quoted statuses) @ '')''"

definition status_is :: "string \<Rightarrow> string" where
  "status_is s = ''status = '' @ quoted s"

definition outbox_message :: "string \<Rightarrow> db_table" where
  "outbox_message d = \<lparr>
     t_name = ''outbox_message'',
     t_columns = [
       key_column ''id'' (ty_uuid d),
       unique_column (not_null ''message_id'' (ty_indexed_text d)),
       not_null ''event_type'' (ty_indexed_text d),
       null_able ''message_key'' (ty_text d),
       null_able ''ordering_key'' (ty_indexed_text d),
       null_able ''correlation_id'' (ty_indexed_text d),
       not_null ''payload'' (ty_jsonb d),
       with_default (json_default d) (not_null ''headers'' (ty_jsonb d)),
       not_null ''status'' (ty_indexed_text d),
       with_default ''0'' (not_null ''attempts'' INTEGER),
       not_null ''max_attempts'' INTEGER,
       not_null ''available_at'' (ty_timestamptz d),
       null_able ''lease_until'' (ty_timestamptz d),
       null_able ''last_error'' (ty_text d),
       not_null ''created_at'' (ty_timestamptz d),
       not_null ''updated_at'' (ty_timestamptz d),
       null_able ''published_at'' (ty_timestamptz d)],
     t_checks = [(''outbox_message_status_check'', status_in [''pending'', ''processing'', ''published'', ''failed''])],
     t_uniques = [],
     t_indexes = [
       partial_index ''idx_outbox_message_ready'' [''status'', ''available_at''] (status_is ''pending'') d,
       partial_index ''idx_outbox_message_fifo'' [''event_type'', ''ordering_key'', ''created_at'']
         ''ordering_key IS NOT NULL'' d,
       partial_index ''idx_outbox_message_lease'' [''lease_until''] (status_is ''processing'') d,
       partial_index ''idx_outbox_message_correlation'' [''correlation_id''] ''correlation_id IS NOT NULL'' d]\<rparr>"

definition inbox_message :: "string \<Rightarrow> db_table" where
  "inbox_message d = \<lparr>
     t_name = ''inbox_message'',
     t_columns = [
       key_column ''id'' (ty_uuid d),
       not_null ''source'' (ty_indexed_text d),
       not_null ''message_id'' (ty_indexed_text d),
       not_null ''event_type'' (ty_indexed_text d),
       null_able ''message_key'' (ty_text d),
       null_able ''ordering_key'' (ty_indexed_text d),
       null_able ''correlation_id'' (ty_indexed_text d),
       not_null ''payload'' (ty_jsonb d),
       with_default (json_default d) (not_null ''headers'' (ty_jsonb d)),
       not_null ''status'' (ty_indexed_text d),
       with_default ''0'' (not_null ''attempts'' INTEGER),
       not_null ''max_attempts'' INTEGER,
       not_null ''available_at'' (ty_timestamptz d),
       null_able ''lease_until'' (ty_timestamptz d),
       null_able ''last_error'' (ty_text d),
       not_null ''received_at'' (ty_timestamptz d),
       not_null ''updated_at'' (ty_timestamptz d),
       null_able ''processed_at'' (ty_timestamptz d)],
     t_checks = [(''inbox_message_status_check'', status_in [''pending'', ''processing'', ''processed'', ''failed''])],
     t_uniques = [(''inbox_message_source_message_id_key'', [''source'', ''message_id''])],
     t_indexes = [
       partial_index ''idx_inbox_message_ready'' [''status'', ''available_at''] (status_is ''pending'') d,
       partial_index ''idx_inbox_message_fifo'' [''event_type'', ''ordering_key'', ''received_at'']
         ''ordering_key IS NOT NULL'' d,
       partial_index ''idx_inbox_message_lease'' [''lease_until''] (status_is ''processing'') d,
       partial_index ''idx_inbox_message_correlation'' [''correlation_id''] ''correlation_id IS NOT NULL'' d]\<rparr>"

section \<open>Migrations\<close>

text \<open>
  A database schema: its tables, and the functions and triggers (with the table each fires
  on).  A statement that creates an existing object or uses a missing one is rejected; index
  names are shared by all tables, as PostgreSQL has it.
\<close>

record schema =
  s_tables :: "db_table list"
  s_functions :: "string list"
  s_triggers :: "(string \<times> string \<times> string) list"

definition has_table :: "string \<Rightarrow> schema \<Rightarrow> bool" where
  "has_table n s \<longleftrightarrow> n \<in> t_name ` set (s_tables s)"

definition create_table :: "db_table \<Rightarrow> schema \<Rightarrow> error + schema" where
  "create_table t s = (if has_table (t_name t) s then Inl DatabaseError else Inr (s\<lparr>s_tables := s_tables s @ [t]\<rparr>))"

definition create_index :: "string \<Rightarrow> string \<Rightarrow> string list \<Rightarrow> string option \<Rightarrow> schema \<Rightarrow> error + schema" where
  "create_index n tbl cols cond s =
     (if \<not> has_table tbl s \<or> (\<exists>t \<in> set (s_tables s). n \<in> ix_name ` set (t_indexes t)) then Inl DatabaseError
      else Inr (s\<lparr>s_tables := map (\<lambda>t. if t_name t = tbl
        then t\<lparr>t_indexes := t_indexes t @ [\<lparr>ix_name = n, ix_columns = cols, ix_where = cond\<rparr>]\<rparr> else t) (s_tables s)\<rparr>))"

text \<open>Dropping a table drops its indexes and triggers with it.\<close>

definition drop_table :: "string \<Rightarrow> schema \<Rightarrow> error + schema" where
  "drop_table n s =
     (if \<not> has_table n s then Inl DatabaseError
      else Inr (s\<lparr>s_tables := filter (\<lambda>t. t_name t \<noteq> n) (s_tables s),
                 s_triggers := filter (\<lambda>(_, tbl, _). tbl \<noteq> n) (s_triggers s)\<rparr>))"

definition upgrade_0001_postgresql :: "schema \<Rightarrow> error + schema" where
  "upgrade_0001_postgresql s =
     res_bind (create_table \<lparr>
       t_name = ''outbox_message'',
       t_columns = [
         key_column ''id'' UUID,
         unique_column (not_null ''message_id'' TEXT),
         not_null ''event_type'' TEXT,
         null_able ''message_key'' TEXT,
         null_able ''ordering_key'' TEXT,
         null_able ''correlation_id'' TEXT,
         not_null ''payload'' JSONB,
         with_default quote_json (not_null ''headers'' JSONB),
         not_null ''status'' TEXT,
         with_default ''0'' (not_null ''attempts'' INTEGER),
         not_null ''max_attempts'' INTEGER,
         not_null ''available_at'' TIMESTAMPTZ,
         null_able ''lease_until'' TIMESTAMPTZ,
         null_able ''last_error'' TEXT,
         not_null ''created_at'' TIMESTAMPTZ,
         not_null ''updated_at'' TIMESTAMPTZ,
         null_able ''published_at'' TIMESTAMPTZ],
       t_checks = [(''outbox_message_status_check'', status_in [''pending'', ''processing'', ''published'', ''failed''])],
       t_uniques = [], t_indexes = []\<rparr> s) (\<lambda>s.
     res_bind (create_index ''idx_outbox_message_ready'' ''outbox_message'' [''status'', ''available_at'']
       (Some (status_is ''pending'')) s) (\<lambda>s.
     res_bind (create_index ''idx_outbox_message_fifo'' ''outbox_message'' [''event_type'', ''ordering_key'', ''created_at'']
       (Some ''ordering_key IS NOT NULL'') s) (\<lambda>s.
     res_bind (create_index ''idx_outbox_message_lease'' ''outbox_message'' [''lease_until'']
       (Some (status_is ''processing'')) s) (\<lambda>s.
     create_index ''idx_outbox_message_correlation'' ''outbox_message'' [''correlation_id'']
       (Some ''correlation_id IS NOT NULL'') s))))"

definition upgrade_0001_mysql :: "schema \<Rightarrow> error + schema" where
  "upgrade_0001_mysql s =
     res_bind (create_table \<lparr>
       t_name = ''outbox_message'',
       t_columns = [
         key_column ''id'' (MYSQL_CHAR 32),
         unique_column (not_null ''message_id'' (VARCHAR 255)),
         not_null ''event_type'' (VARCHAR 255),
         null_able ''message_key'' TEXT,
         null_able ''ordering_key'' (VARCHAR 255),
         null_able ''correlation_id'' (VARCHAR 255),
         not_null ''payload'' JSON,
         with_default ''(JSON_OBJECT())'' (not_null ''headers'' JSON),
         not_null ''status'' (VARCHAR 255),
         with_default ''0'' (not_null ''attempts'' INTEGER),
         not_null ''max_attempts'' INTEGER,
         not_null ''available_at'' (DATETIME 6),
         null_able ''lease_until'' (DATETIME 6),
         null_able ''last_error'' TEXT,
         not_null ''created_at'' (DATETIME 6),
         not_null ''updated_at'' (DATETIME 6),
         null_able ''published_at'' (DATETIME 6)],
       t_checks = [(''outbox_message_status_check'', status_in [''pending'', ''processing'', ''published'', ''failed''])],
       t_uniques = [], t_indexes = []\<rparr> s) (\<lambda>s.
     res_bind (create_index ''idx_outbox_message_ready'' ''outbox_message'' [''status'', ''available_at''] None s) (\<lambda>s.
     res_bind (create_index ''idx_outbox_message_fifo'' ''outbox_message'' [''event_type'', ''ordering_key'', ''created_at'']
       None s) (\<lambda>s.
     res_bind (create_index ''idx_outbox_message_lease'' ''outbox_message'' [''lease_until''] None s) (\<lambda>s.
     create_index ''idx_outbox_message_correlation'' ''outbox_message'' [''correlation_id''] None s))))"

definition upgrade_0001 :: "string \<Rightarrow> schema \<Rightarrow> error + schema" where
  "upgrade_0001 dialect s = (if dialect = MYSQL then upgrade_0001_mysql s else upgrade_0001_postgresql s)"

definition downgrade_0001 :: "string \<Rightarrow> schema \<Rightarrow> error + schema" where
  "downgrade_0001 dialect s = drop_table ''outbox_message'' s"

definition upgrade_0002_postgresql :: "schema \<Rightarrow> error + schema" where
  "upgrade_0002_postgresql s =
     res_bind (create_table \<lparr>
       t_name = ''inbox_message'',
       t_columns = [
         key_column ''id'' UUID,
         not_null ''source'' TEXT,
         not_null ''message_id'' TEXT,
         not_null ''event_type'' TEXT,
         null_able ''message_key'' TEXT,
         null_able ''ordering_key'' TEXT,
         null_able ''correlation_id'' TEXT,
         not_null ''payload'' JSONB,
         with_default quote_json (not_null ''headers'' JSONB),
         not_null ''status'' TEXT,
         with_default ''0'' (not_null ''attempts'' INTEGER),
         not_null ''max_attempts'' INTEGER,
         not_null ''available_at'' TIMESTAMPTZ,
         null_able ''lease_until'' TIMESTAMPTZ,
         null_able ''last_error'' TEXT,
         not_null ''received_at'' TIMESTAMPTZ,
         not_null ''updated_at'' TIMESTAMPTZ,
         null_able ''processed_at'' TIMESTAMPTZ],
       t_checks = [(''inbox_message_status_check'', status_in [''pending'', ''processing'', ''processed'', ''failed''])],
       t_uniques = [(''inbox_message_source_message_id_key'', [''source'', ''message_id''])], t_indexes = []\<rparr> s) (\<lambda>s.
     res_bind (create_index ''idx_inbox_message_ready'' ''inbox_message'' [''status'', ''available_at'']
       (Some (status_is ''pending'')) s) (\<lambda>s.
     res_bind (create_index ''idx_inbox_message_fifo'' ''inbox_message'' [''event_type'', ''ordering_key'', ''received_at'']
       (Some ''ordering_key IS NOT NULL'') s) (\<lambda>s.
     res_bind (create_index ''idx_inbox_message_lease'' ''inbox_message'' [''lease_until'']
       (Some (status_is ''processing'')) s) (\<lambda>s.
     create_index ''idx_inbox_message_correlation'' ''inbox_message'' [''correlation_id'']
       (Some ''correlation_id IS NOT NULL'') s))))"

definition upgrade_0002_mysql :: "schema \<Rightarrow> error + schema" where
  "upgrade_0002_mysql s =
     res_bind (create_table \<lparr>
       t_name = ''inbox_message'',
       t_columns = [
         key_column ''id'' (MYSQL_CHAR 32),
         not_null ''source'' (VARCHAR 255),
         not_null ''message_id'' (VARCHAR 255),
         not_null ''event_type'' (VARCHAR 255),
         null_able ''message_key'' TEXT,
         null_able ''ordering_key'' (VARCHAR 255),
         null_able ''correlation_id'' (VARCHAR 255),
         not_null ''payload'' JSON,
         with_default ''(JSON_OBJECT())'' (not_null ''headers'' JSON),
         not_null ''status'' (VARCHAR 255),
         with_default ''0'' (not_null ''attempts'' INTEGER),
         not_null ''max_attempts'' INTEGER,
         not_null ''available_at'' (DATETIME 6),
         null_able ''lease_until'' (DATETIME 6),
         null_able ''last_error'' TEXT,
         not_null ''received_at'' (DATETIME 6),
         not_null ''updated_at'' (DATETIME 6),
         null_able ''processed_at'' (DATETIME 6)],
       t_checks = [(''inbox_message_status_check'', status_in [''pending'', ''processing'', ''processed'', ''failed''])],
       t_uniques = [(''inbox_message_source_message_id_key'', [''source'', ''message_id''])], t_indexes = []\<rparr> s) (\<lambda>s.
     res_bind (create_index ''idx_inbox_message_ready'' ''inbox_message'' [''status'', ''available_at''] None s) (\<lambda>s.
     res_bind (create_index ''idx_inbox_message_fifo'' ''inbox_message'' [''event_type'', ''ordering_key'', ''received_at'']
       None s) (\<lambda>s.
     res_bind (create_index ''idx_inbox_message_lease'' ''inbox_message'' [''lease_until''] None s) (\<lambda>s.
     create_index ''idx_inbox_message_correlation'' ''inbox_message'' [''correlation_id''] None s))))"

definition upgrade_0002 :: "string \<Rightarrow> schema \<Rightarrow> error + schema" where
  "upgrade_0002 dialect s = (if dialect = MYSQL then upgrade_0002_mysql s else upgrade_0002_postgresql s)"

definition downgrade_0002 :: "string \<Rightarrow> schema \<Rightarrow> error + schema" where
  "downgrade_0002 dialect s = drop_table ''inbox_message'' s"

text \<open>
  \<^verbatim>\<open>CREATE OR REPLACE FUNCTION\<close>, then \<^verbatim>\<open>CREATE TRIGGER\<close>, which needs the table and an unused name; the
  downgrade drops both \<^verbatim>\<open>IF EXISTS\<close> (a trigger's drop needs its table, a function's drop is
  rejected while a trigger uses it).
\<close>

definition upgrade_0003 :: "string \<Rightarrow> schema \<Rightarrow> error + schema" where
  "upgrade_0003 dialect s =
     (if dialect = MYSQL then Inr s
      else
        let s = s\<lparr>s_functions := filter (\<lambda>f. f \<noteq> ''outbox_wake'') (s_functions s) @ [''outbox_wake'']\<rparr>
        in if \<not> has_table ''outbox_message'' s \<or>
              (\<exists>(n, tbl, _) \<in> set (s_triggers s). n = ''outbox_message_wake'' \<and> tbl = ''outbox_message'')
           then Inl DatabaseError
           else Inr (s\<lparr>s_triggers := s_triggers s @ [(''outbox_message_wake'', ''outbox_message'', ''outbox_wake'')]\<rparr>))"

definition downgrade_0003 :: "string \<Rightarrow> schema \<Rightarrow> error + schema" where
  "downgrade_0003 dialect s =
     (if dialect = MYSQL then Inr s
      else if \<not> has_table ''outbox_message'' s then Inl DatabaseError
      else
        let s = s\<lparr>s_triggers := filter (\<lambda>(n, tbl, _). \<not> (n = ''outbox_message_wake'' \<and> tbl = ''outbox_message'')) (s_triggers s)\<rparr>
        in if \<exists>(_, _, f) \<in> set (s_triggers s). f = ''outbox_wake'' then Inl DatabaseError
           else Inr (s\<lparr>s_functions := filter (\<lambda>f. f \<noteq> ''outbox_wake'') (s_functions s)\<rparr>))"

text \<open>The chain \<^verbatim>\<open>down_revision\<close> describes: \<^verbatim>\<open>0001\<close>, \<^verbatim>\<open>0002\<close>, \<^verbatim>\<open>0003\<close>.\<close>

definition upgrade_head :: "string \<Rightarrow> schema \<Rightarrow> error + schema" where
  "upgrade_head dialect s = res_bind (upgrade_0001 dialect s) (\<lambda>s. res_bind (upgrade_0002 dialect s) (upgrade_0003 dialect))"

definition downgrade_base :: "string \<Rightarrow> schema \<Rightarrow> error + schema" where
  "downgrade_base dialect s =
     res_bind (downgrade_0003 dialect s) (\<lambda>s. res_bind (downgrade_0002 dialect s) (downgrade_0001 dialect))"

definition empty_schema :: schema where
  "empty_schema = \<lparr>s_tables = [], s_functions = [], s_triggers = []\<rparr>"

section \<open>The migrations build what the library declares\<close>

lemmas type_defs = with_variant_def ty_uuid_def ty_jsonb_def ty_timestamptz_def ty_text_def ty_indexed_text_def
  json_default_def partial_index_def

text \<open>One table's migration, on a schema that does not have the table or its indexes yet.\<close>

definition index_names :: "schema \<Rightarrow> string set" where
  "index_names s = (\<Union>t \<in> set (s_tables s). ix_name ` set (t_indexes t))"

definition can_create :: "db_table \<Rightarrow> schema \<Rightarrow> bool" where
  "can_create t s \<longleftrightarrow> \<not> has_table (t_name t) s \<and> index_names s \<inter> ix_name ` set (t_indexes t) = {}"

definition add_table :: "db_table \<Rightarrow> schema \<Rightarrow> schema" where
  "add_table t s = s\<lparr>s_tables := s_tables s @ [t]\<rparr>"

lemma create_index_added:
  assumes "t_name t = tbl" "\<not> has_table tbl s" "n \<notin> index_names s" "n \<notin> ix_name ` set (t_indexes t)"
  shows "create_index n tbl cols cond (add_table t s) =
    Inr (add_table (t\<lparr>t_indexes := t_indexes t @ [\<lparr>ix_name = n, ix_columns = cols, ix_where = cond\<rparr>]\<rparr>) s)"
proof -
  have "map (\<lambda>u. if t_name u = tbl then f u else u) (s_tables s) = s_tables s" for f :: "db_table \<Rightarrow> db_table"
    using assms(2) by (intro map_idI) (auto simp: has_table_def)
  moreover have "\<not> (\<exists>u \<in> set (s_tables s @ [t]). n \<in> ix_name ` set (t_indexes u))"
    using assms(3,4) by (auto simp: index_names_def)
  ultimately show ?thesis using assms(1) by (simp add: create_index_def has_table_def add_table_def)
qed

lemma create_table_added: "\<not> has_table (t_name t) s \<Longrightarrow> create_table t s = Inr (add_table t s)"
  by (simp add: create_table_def add_table_def)

lemmas migration_steps = create_table_added create_index_added type_defs

lemma upgrade_0001_adds:
  assumes "can_create (outbox_message d) s"
  shows "upgrade_0001 d s = Inr (add_table (outbox_message d) s)"
  using assms
  by (simp add: upgrade_0001_def upgrade_0001_mysql_def upgrade_0001_postgresql_def migration_steps can_create_def
      outbox_message_def)

lemma upgrade_0002_adds:
  assumes "can_create (inbox_message d) s"
  shows "upgrade_0002 d s = Inr (add_table (inbox_message d) s)"
  using assms
  by (simp add: upgrade_0002_def upgrade_0002_mysql_def upgrade_0002_postgresql_def migration_steps can_create_def
      inbox_message_def)

text \<open>The wake trigger of \<^verbatim>\<open>0003\<close>.\<close>

definition wake_trigger :: "string \<times> string \<times> string" where
  "wake_trigger = (''outbox_message_wake'', ''outbox_message'', ''outbox_wake'')"

text \<open>The schema after all migrations: the declared tables, and on PostgreSQL the wake trigger.\<close>

definition migrated :: "string \<Rightarrow> schema \<Rightarrow> schema" where
  "migrated d s = (add_table (inbox_message d) (add_table (outbox_message d) s))
     \<lparr>s_functions := s_functions s @ (if d = MYSQL then [] else [''outbox_wake'']),
      s_triggers := s_triggers s @ (if d = MYSQL then [] else [wake_trigger])\<rparr>"

definition unmigrated :: "string \<Rightarrow> schema \<Rightarrow> bool" where
  "unmigrated d s \<longleftrightarrow> can_create (outbox_message d) s \<and> can_create (inbox_message d) s \<and>
     ''outbox_wake'' \<notin> set (s_functions s) \<and>
     list_all (\<lambda>(n, tbl, f). tbl \<noteq> ''outbox_message'' \<and> tbl \<noteq> ''inbox_message'' \<and> f \<noteq> ''outbox_wake'') (s_triggers s)"

lemma inbox_after_outbox:
  assumes "can_create (inbox_message d) s"
  shows "can_create (inbox_message d) (add_table (outbox_message d) s)"
  using assms
  by (auto simp: can_create_def has_table_def index_names_def add_table_def inbox_message_def outbox_message_def
      partial_index_def)

lemma has_table_add: "has_table n (add_table t s) \<longleftrightarrow> t_name t = n \<or> has_table n s"
  by (auto simp: has_table_def add_table_def)

lemma table_names [simp]: "t_name (outbox_message d) = ''outbox_message''" "t_name (inbox_message d) = ''inbox_message''"
  by (simp_all add: outbox_message_def inbox_message_def)

lemma upgrade_head_eq:
  assumes "unmigrated d s"
  shows "upgrade_head d s = Inr (migrated d s)"
proof -
  let ?s = "add_table (inbox_message d) (add_table (outbox_message d) s)"
  have "upgrade_head d s = upgrade_0003 d ?s"
    using assms by (simp add: upgrade_head_def unmigrated_def upgrade_0001_adds upgrade_0002_adds inbox_after_outbox)
  also have "\<dots> = Inr (migrated d s)"
  proof -
    have "filter (\<lambda>f. f \<noteq> ''outbox_wake'') (s_functions s) = s_functions s"
      using assms by (auto simp: unmigrated_def intro!: filter_True)
    moreover have "has_table ''outbox_message'' (?s\<lparr>s_functions := fs\<rparr>)" for fs
      by (simp add: has_table_def add_table_def)
    moreover have "\<not> (\<exists>(n, tbl, _) \<in> set (s_triggers s). n = ''outbox_message_wake'' \<and> tbl = ''outbox_message'')"
      using assms by (auto simp: unmigrated_def list_all_iff)
    ultimately show ?thesis
      by (auto simp: upgrade_0003_def migrated_def wake_trigger_def Let_def add_table_def)
  qed
  finally show ?thesis .
qed

text \<open>Property C36: on either database, running the three migrations on a schema that holds none of
  their objects succeeds and adds exactly the two tables that \<^verbatim>\<open>tables.py\<close> declares, column by
  column, with the same types, defaults, constraints and indexes; on PostgreSQL it adds the wake
  function and trigger besides.\<close>

theorem migrations_build_declared_tables:
  assumes "unmigrated d s"
  shows "upgrade_head d s = Inr (migrated d s)
    \<and> s_tables (migrated d s) = s_tables s @ [outbox_message d, inbox_message d]
    \<and> s_triggers (migrated d s) = s_triggers s @ (if d = MYSQL then [] else [wake_trigger])"
  using upgrade_head_eq [OF assms] by (simp add: migrated_def add_table_def)

lemma downgrade_base_eq:
  assumes "unmigrated d s"
  shows "downgrade_base d (migrated d s) = Inr s"
proof -
  have tables: "filter (\<lambda>t. t_name t \<noteq> ''outbox_message'') (s_tables s) = s_tables s"
    "filter (\<lambda>t. t_name t \<noteq> ''inbox_message'') (s_tables s) = s_tables s"
    using assms by (auto simp: unmigrated_def can_create_def has_table_def image_iff intro!: filter_True)
  have triggers: "filter (\<lambda>(n, tbl, _). \<not> (n = ''outbox_message_wake'' \<and> tbl = ''outbox_message'')) (s_triggers s) = s_triggers s"
    "filter (\<lambda>(_, tbl, _). tbl \<noteq> ''outbox_message'') (s_triggers s) = s_triggers s"
    "filter (\<lambda>(_, tbl, _). tbl \<noteq> ''inbox_message'') (s_triggers s) = s_triggers s"
    using assms by (auto simp: unmigrated_def list_all_iff intro!: filter_True)
  have funs: "filter (\<lambda>f. f \<noteq> ''outbox_wake'') (s_functions s) = s_functions s"
    using assms by (auto simp: unmigrated_def intro!: filter_True)
  have unused: "\<not> (\<exists>(_, _, f) \<in> set (s_triggers s). f = ''outbox_wake'')"
    using assms by (auto simp: unmigrated_def list_all_iff)
  have wake: "downgrade_0003 d (migrated d s) = Inr (add_table (inbox_message d) (add_table (outbox_message d) s))"
    using triggers(1) funs unused
    by (auto simp: downgrade_0003_def has_table_def migrated_def add_table_def wake_trigger_def Let_def simp del: filter_True)
  show ?thesis
    by (simp add: downgrade_base_def wake downgrade_0002_def downgrade_0001_def drop_table_def has_table_def add_table_def
        tables triggers(2,3) del: filter_filter)
qed

text \<open>Downgrading undoes upgrading: from the migrated schema, the downgrades in reverse
  order give back the schema the migrations started from, whatever else it holds.\<close>

theorem migrations_round_trip:
  assumes "unmigrated d s"
  shows "res_bind (upgrade_head d s) (downgrade_base d) = Inr s"
  using upgrade_head_eq [OF assms] downgrade_base_eq [OF assms] by simp

text \<open>The check constraints and the status enumerations list the same values.\<close>

lemma status_checks:
  "set OUTBOX_STATUSES = range OutboxStatus_as_str"
  "set INBOX_STATUSES = range InboxStatus_as_str"
  "t_checks (outbox_message d) = [(''outbox_message_status_check'', status_in OUTBOX_STATUSES)]"
  "t_checks (inbox_message d) = [(''inbox_message_status_check'', status_in INBOX_STATUSES)]"
proof -
  have "range OutboxStatus_as_str = OutboxStatus_as_str ` {OutboxStatus.PENDING, OutboxStatus.PROCESSING, PUBLISHED, OutboxStatus.FAILED}"
    using OutboxStatus.exhaust by (intro arg_cong [where f = "image _"]) blast
  then show "set OUTBOX_STATUSES = range OutboxStatus_as_str" by (simp add: OUTBOX_STATUSES_def)
  have "range InboxStatus_as_str = InboxStatus_as_str ` {InboxStatus.PENDING, InboxStatus.PROCESSING, PROCESSED, InboxStatus.FAILED}"
    using InboxStatus.exhaust by (intro arg_cong [where f = "image _"]) blast
  then show "set INBOX_STATUSES = range InboxStatus_as_str" by (simp add: INBOX_STATUSES_def)
qed (simp_all add: outbox_message_def inbox_message_def OUTBOX_STATUSES_def INBOX_STATUSES_def)

text \<open>A schema with an application's own table in it.\<close>

definition example_schema :: schema where
  "example_schema = \<lparr>s_tables = [\<lparr>t_name = ''orders'', t_columns = [key_column ''id'' INTEGER], t_checks = [],
     t_uniques = [], t_indexes = [\<lparr>ix_name = ''idx_orders'', ix_columns = [''id''], ix_where = None\<rparr>]\<rparr>],
     s_functions = [''audit''], s_triggers = [(''orders_audit'', ''orders'', ''audit'')]\<rparr>"

lemma example_unmigrated: "unmigrated d example_schema"
  by (simp add: unmigrated_def can_create_def has_table_def index_names_def example_schema_def outbox_message_def
      inbox_message_def partial_index_def)

theorem migrations_build_declared_tables_witness:
  "map t_name (s_tables (migrated MYSQL example_schema)) = [''orders'', ''outbox_message'', ''inbox_message'']
   \<and> upgrade_head MYSQL example_schema = Inr (migrated MYSQL example_schema)"
  using migrations_build_declared_tables [OF example_unmigrated, of MYSQL] by (simp add: example_schema_def)

theorem migrations_round_trip_witness:
  "res_bind (upgrade_head POSTGRESQL example_schema) (downgrade_base POSTGRESQL) = Inr example_schema"
  using migrations_round_trip [OF example_unmigrated] .

end
