(* ===== verification/MigrationEnv.thy ===== *)
theory MigrationEnv
  imports Schema
begin

text \<open>
  \<^verbatim>\<open>db/migrations/env.py\<close>: how the environment of the migrations chooses the database URL and runs
  the chain of revisions.  alembic and SQLAlchemy are the record \<open>alembic\<close> of the functions the
  script calls.  Their configuration object wraps a \<^verbatim>\<open>configparser.ConfigParser\<close>, whose
  interpolation of percent signs is modelled here as the standard library has it.
\<close>

section \<open>\<^verbatim>\<open>configparser\<close>: values with percent signs\<close>

text \<open>
  A section: the raw text of each option, over the defaults.  Option names are case-folded
  (\<^verbatim>\<open>optionxform\<close>).
\<close>

record ini =
  ini_defaults :: "(string \<times> string) list"
  ini_section :: "(string \<times> string) list"

definition ini_options :: "ini \<Rightarrow> (string \<times> string) list" where
  "ini_options i = dict_update (ini_defaults i) (ini_section i)"

text \<open>
  The pattern of a reference, \<^verbatim>\<open>%(name)s\<close>: the argument is what follows \<^verbatim>\<open>%(\<close>, the answer the name
  and the rest of the text.
\<close>

definition reference :: "string \<Rightarrow> (string \<times> string) option" where
  "reference s =
     (let name = takeWhile (\<lambda>c. c \<noteq> CHR '')'') s
      in case dropWhile (\<lambda>c. c \<noteq> CHR '')'') s of
           p # c # rest \<Rightarrow> if name \<noteq> [] \<and> c = CHR ''s'' then Some (name, rest) else None
         | _ \<Rightarrow> None)"

lemma reference_shorter: "reference s = Some (name, rest) \<Longrightarrow> length rest < length s"
proof -
  assume a: "reference s = Some (name, rest)"
  then obtain p where "dropWhile (\<lambda>c. c \<noteq> CHR '')'') s = p # CHR ''s'' # rest"
    by (auto simp: reference_def Let_def split: list.splits if_splits)
  then have "length (p # CHR ''s'' # rest) \<le> length s" by (metis length_dropWhile_le)
  then show "length rest < length s" by simp
qed

text \<open>
  \<^verbatim>\<open>_interpolate_some\<close>.  The number is how much deeper references may still nest
  (\<^verbatim>\<open>MAX_INTERPOLATION_DEPTH\<close> is ten).
\<close>

function interpolate :: "(string \<times> string) list \<Rightarrow> nat \<Rightarrow> string \<Rightarrow> error + string" where
  "interpolate opts 0 s = Inl (InterpolationError ''depth'')"
| "interpolate opts (Suc n) [] = Inr []"
| "interpolate opts (Suc n) (c # s) =
     (if c \<noteq> CHR ''%'' then res_bind (interpolate opts (Suc n) s) (\<lambda>t. Inr (c # t))
      else case s of
        [] \<Rightarrow> Inl (InterpolationError ''syntax'')
      | d # r \<Rightarrow>
          if d = CHR ''%'' then res_bind (interpolate opts (Suc n) r) (\<lambda>t. Inr (CHR ''%'' # t))
          else if d = CHR ''('' then
            (case reference r of
               None \<Rightarrow> Inl (InterpolationError ''reference'')
             | Some (name, rest) \<Rightarrow>
                 (case map_of opts (lower name) of
                    None \<Rightarrow> Inl (InterpolationError ''missing option'')
                  | Some v \<Rightarrow>
                      res_bind (if CHR ''%'' \<in> set v then interpolate opts n v else Inr v) (\<lambda>t.
                      res_bind (interpolate opts (Suc n) rest) (\<lambda>u. Inr (t @ u)))))
          else Inl (InterpolationError ''syntax''))"
  by pat_completeness auto
termination
  by (relation "(\<lambda>(opts, n, s). n) <*mlex*> measure (\<lambda>(opts, n, s). length s)")
     (auto simp: mlex_iff wf_mlex dest: reference_shorter)

definition MAX_INTERPOLATION_DEPTH :: nat where
  "MAX_INTERPOLATION_DEPTH = 10"

definition ini_get :: "ini \<Rightarrow> string \<Rightarrow> error + string option" where
  "ini_get i option =
     (case map_of (ini_options i) (lower option) of
        None \<Rightarrow> Inr None
      | Some v \<Rightarrow> res_bind (interpolate (ini_options i) MAX_INTERPOLATION_DEPTH v) (\<lambda>v. Inr (Some v)))"

definition ini_items :: "ini \<Rightarrow> error + (string \<times> string) list" where
  "ini_items i =
     res_map (\<lambda>(k, v). res_bind (interpolate (ini_options i) MAX_INTERPOLATION_DEPTH v) (\<lambda>v. Inr (k, v))) (ini_options i)"

text \<open>
  \<^verbatim>\<open>before_set\<close>: the doubled percent signs are taken out, then the references; a percent sign left
  over is an error.  The stored value is the one given.
\<close>

fun without_doubled :: "string \<Rightarrow> string" where
  "without_doubled (c # d # s) =
     (if c = CHR ''%'' \<and> d = CHR ''%'' then without_doubled s else c # without_doubled (d # s))"
| "without_doubled s = s"

function without_references :: "string \<Rightarrow> string" where
  "without_references [] = []"
| "without_references (c # s) =
     (case (if c = CHR ''%'' \<and> s \<noteq> [] \<and> hd s = CHR ''('' then reference (tl s) else None) of
        Some (name, rest) \<Rightarrow> without_references rest
      | None \<Rightarrow> c # without_references s)"
  by pat_completeness auto
termination
  by (relation "measure length") (auto dest!: reference_shorter split: if_splits)

definition ini_set :: "ini \<Rightarrow> string \<Rightarrow> string \<Rightarrow> error + ini" where
  "ini_set i option v =
     (if CHR ''%'' \<in> set (without_references (without_doubled v))
      then Inl (ValueError ''invalid interpolation syntax'')
      else Inr (i\<lparr>ini_section := AList.update (lower option) v (ini_section i)\<rparr>))"

section \<open>The environment\<close>

text \<open>
  What the script calls: the configuration's accessors, whether alembic runs offline, the SQL
  script it renders for a URL, the engine SQLAlchemy makes of the options with a prefix, and a
  run of the revisions over a connection of that engine.
\<close>

record ('c, 'e, 'd) alembic =
  get_main_option :: "'c \<Rightarrow> string \<Rightarrow> error + string option"
  set_main_option :: "'c \<Rightarrow> string \<Rightarrow> string \<Rightarrow> error + 'c"
  get_section :: "'c \<Rightarrow> error + (string \<times> string) list"
  is_offline_mode :: bool
  render_migrations :: "string option \<Rightarrow> error + string"
  engine_from_config :: "(string \<times> string) list \<Rightarrow> string \<Rightarrow> error + 'e"
  run_migrations :: "'e \<Rightarrow> 'd \<Rightarrow> (error + unit) \<times> 'd"

text \<open>An empty text and a missing one are both false.\<close>

definition env_configure :: "('c, 'e, 'd) alembic \<Rightarrow> (string \<times> string) list \<Rightarrow> 'c \<Rightarrow> error + 'c" where
  "env_configure al environ config =
     res_bind
       (case map_of environ ''PACTIX_DATABASE_URL'' of
          Some (c # u) \<Rightarrow> Inr (Some (c # u))
        | _ \<Rightarrow> get_main_option al config ''sqlalchemy.url'')
       (\<lambda>url. case url of
          Some (c # u) \<Rightarrow> set_main_option al config ''sqlalchemy.url'' (c # u)
        | _ \<Rightarrow> Inr config)"

definition run_migrations_offline :: "('c, 'e, 'd) alembic \<Rightarrow> 'c \<Rightarrow> error + string" where
  "run_migrations_offline al config = res_bind (get_main_option al config ''sqlalchemy.url'') (render_migrations al)"

definition run_migrations_online :: "('c, 'e, 'd) alembic \<Rightarrow> 'c \<Rightarrow> 'd \<Rightarrow> (error + unit) \<times> 'd" where
  "run_migrations_online al config db =
     (case res_bind (get_section al config) (\<lambda>opts. engine_from_config al opts ''sqlalchemy.'') of
        Inl e \<Rightarrow> (Inl e, db)
      | Inr engine \<Rightarrow> run_migrations al engine db)"

text \<open>The module body: the script rendered offline is the answer, online there is none.\<close>

definition migration_env ::
  "('c, 'e, 'd) alembic \<Rightarrow> (string \<times> string) list \<Rightarrow> 'c \<Rightarrow> 'd \<Rightarrow> (error + string option) \<times> 'd" where
  "migration_env al environ config db =
     (case env_configure al environ config of
        Inl e \<Rightarrow> (Inl e, db)
      | Inr config \<Rightarrow>
          if is_offline_mode al then (res_bind (run_migrations_offline al config) (\<lambda>sql. Inr (Some sql)), db)
          else let (res, db) = run_migrations_online al config db
               in (res_bind res (\<lambda>_. Inr None), db))"

section \<open>What interpolation does to a value\<close>

text \<open>A value without percent signs is read as it is, one with doubled signs with single ones.\<close>

definition doubled :: "string \<Rightarrow> string" where
  "doubled s = concat (map (\<lambda>c. if c = CHR ''%'' then ''%%'' else [c]) s)"

lemma interpolate_doubled: "interpolate opts MAX_INTERPOLATION_DEPTH (doubled s) = Inr s"
proof -
  have "interpolate opts (Suc n) (doubled s) = Inr s" for n by (induction s) (simp_all add: doubled_def)
  from this [of 9] show ?thesis by (simp add: MAX_INTERPOLATION_DEPTH_def)
qed

lemma doubled_plain: "CHR ''%'' \<notin> set s \<Longrightarrow> doubled s = s"
  by (induction s) (auto simp: doubled_def)

lemma interpolate_plain: "CHR ''%'' \<notin> set s \<Longrightarrow> interpolate opts MAX_INTERPOLATION_DEPTH s = Inr s"
  using interpolate_doubled [of opts s] by (simp add: doubled_plain)

text \<open>The first percent sign of a percent-encoded text: neither another one nor \<^verbatim>\<open>(\<close> follows.\<close>

definition percent_encoded :: "string \<Rightarrow> bool" where
  "percent_encoded s \<longleftrightarrow>
     (case dropWhile (\<lambda>c. c \<noteq> CHR ''%'') s of
        [] \<Rightarrow> False
      | _ # r \<Rightarrow> r = [] \<or> hd r \<notin> {CHR ''%'', CHR ''(''})"

lemma percent_encodedE:
  assumes "percent_encoded s"
  obtains a r where "s = a @ CHR ''%'' # r" "CHR ''%'' \<notin> set a" "r = [] \<or> hd r \<notin> {CHR ''%'', CHR ''(''}"
proof -
  obtain p r where d: "dropWhile (\<lambda>c. c \<noteq> CHR ''%'') s = p # r" "r = [] \<or> hd r \<notin> {CHR ''%'', CHR ''(''}"
    using assms by (auto simp: percent_encoded_def split: list.splits)
  have "p = CHR ''%''" using d(1) by (simp add: dropWhile_eq_Cons_conv)
  moreover have "s = takeWhile (\<lambda>c. c \<noteq> CHR ''%'') s @ p # r" by (metis d(1) takeWhile_dropWhile_id)
  moreover have "CHR ''%'' \<notin> set (takeWhile (\<lambda>c. c \<noteq> CHR ''%'') s)" by (auto dest: set_takeWhileD)
  ultimately show ?thesis using that d(2) by metis
qed

lemma without_doubled_prefix: "CHR ''%'' \<notin> set a \<Longrightarrow> without_doubled (a @ s) = a @ without_doubled s"
proof (induction a)
  case (Cons c a)
  then have "without_doubled (c # a @ s) = c # without_doubled (a @ s)" by (cases "a @ s") auto
  with Cons show ?case by simp
qed simp

lemma without_doubled_hd: "s \<noteq> [] \<Longrightarrow> hd s \<noteq> CHR ''%'' \<Longrightarrow> \<exists>t. without_doubled s = hd s # t"
  by (cases s rule: without_doubled.cases) auto

lemma without_references_prefix: "CHR ''%'' \<notin> set a \<Longrightarrow> without_references (a @ s) = a @ without_references s"
  by (induction a) auto

lemma ini_set_plain:
  assumes "CHR ''%'' \<notin> set v"
  shows "ini_set i k v = Inr (i\<lparr>ini_section := AList.update (lower k) v (ini_section i)\<rparr>)"
  using assms without_doubled_prefix [OF assms, of "[]"] without_references_prefix [OF assms, of "[]"]
  by (simp add: ini_set_def)

lemma ini_set_percent_encoded:
  assumes "percent_encoded v"
  shows "ini_set i k v = Inl (ValueError ''invalid interpolation syntax'')"
proof -
  from assms obtain a r where v: "v = a @ CHR ''%'' # r" "CHR ''%'' \<notin> set a" "r = [] \<or> hd r \<notin> {CHR ''%'', CHR ''(''}"
    by (rule percent_encodedE)
  obtain t where "without_doubled (CHR ''%'' # r) = CHR ''%'' # t" "t = [] \<or> hd t \<noteq> CHR ''(''"
  proof (cases r)
    case (Cons c r')
    with v(3) obtain t where "without_doubled r = c # t" using without_doubled_hd [of r] by auto
    with Cons v(3) that show ?thesis by auto
  qed (use that in auto)
  then have "without_references (without_doubled v) = a @ CHR ''%'' # without_references t"
    using v(2) by (auto simp: v(1) without_doubled_prefix without_references_prefix)
  then show ?thesis by (simp add: ini_set_def)
qed

section \<open>Which database is migrated\<close>

abbreviation url_option :: string where "url_option \<equiv> ''sqlalchemy.url''"

lemma lower_url [simp]: "lower url_option = url_option"
  by (simp add: lower_def lower_char_def code_point_def)

text \<open>alembic's documentation: the configuration is a view of a \<^verbatim>\<open>ConfigParser\<close>.\<close>

definition configparser_backed :: "('c, 'e, 'd) alembic \<Rightarrow> ('c \<Rightarrow> ini) \<Rightarrow> bool" where
  "configparser_backed al view \<longleftrightarrow>
     (\<forall>c k. get_main_option al c k = ini_get (view c) k) \<and>
     (\<forall>c k v. case ini_set (view c) k v of
        Inl e \<Rightarrow> set_main_option al c k v = Inl e
      | Inr i \<Rightarrow> (\<exists>c'. set_main_option al c k v = Inr c' \<and> view c' = i)) \<and>
     (\<forall>c. get_section al c = ini_items (view c))"

lemma set_main_option_backed:
  assumes "configparser_backed al view"
  shows "ini_set (view c) k v = Inl e \<Longrightarrow> set_main_option al c k v = Inl e"
    and "ini_set (view c) k v = Inr i \<Longrightarrow> \<exists>c'. set_main_option al c k v = Inr c' \<and> view c' = i"
proof -
  have "case ini_set (view c) k v of
      Inl e \<Rightarrow> set_main_option al c k v = Inl e
    | Inr i \<Rightarrow> (\<exists>c'. set_main_option al c k v = Inr c' \<and> view c' = i)"
    using assms by (simp add: configparser_backed_def)
  then show "ini_set (view c) k v = Inl e \<Longrightarrow> set_main_option al c k v = Inl e"
    and "ini_set (view c) k v = Inr i \<Longrightarrow> \<exists>c'. set_main_option al c k v = Inr c' \<and> view c' = i" by simp_all
qed

text \<open>The URL is the environment variable's, or, when that is missing or empty, the option's.\<close>

definition url_given :: "(string \<times> string) list \<Rightarrow> ini \<Rightarrow> string \<Rightarrow> bool" where
  "url_given environ i u \<longleftrightarrow>
     (case map_of environ ''PACTIX_DATABASE_URL'' of
        Some (c # v) \<Rightarrow> u = c # v
      | _ \<Rightarrow> map_of (ini_options i) url_option = Some (doubled u))"

text \<open>Apart from the URL, no option has a percent sign in it.\<close>

definition plain_ini :: "ini \<Rightarrow> bool" where
  "plain_ini i \<longleftrightarrow> wf_dict (ini_defaults i) \<and> wf_dict (ini_section i) \<and>
     list_all (\<lambda>(k, v). k = url_option \<or> CHR ''%'' \<notin> set v) (ini_options i)"

lemma env_configure_given:
  assumes "configparser_backed al view" "url_given environ (view c) u" "u \<noteq> []"
  shows "env_configure al environ c = set_main_option al c url_option u"
  using assms
  by (auto simp: env_configure_def url_given_def configparser_backed_def ini_get_def
      interpolate_doubled neq_Nil_conv split: option.splits list.splits)

lemma map_of_ini_options:
  assumes "plain_ini i"
  shows "map_of (ini_options (i\<lparr>ini_section := AList.update k v (ini_section i)\<rparr>)) = (map_of (ini_options i))(k \<mapsto> v)"
  using assms
  by (auto simp: ini_options_def fun_eq_iff map_of_dict_update map_of_rev_wf plain_ini_def update_conv')

lemma ini_items_plain:
  assumes "wf_dict (ini_defaults i)" "\<And>k v. map_of (ini_options i) k = Some v \<Longrightarrow> CHR ''%'' \<notin> set v"
  shows "ini_items i = Inr (ini_options i)"
proof -
  have "CHR ''%'' \<notin> set v" if "(k, v) \<in> set (ini_options i)" for k v
    using assms that by (auto simp: ini_options_def wf_dict_def [symmetric] intro!: map_of_is_SomeI)
  then have "res_map (\<lambda>(k, v). res_bind (interpolate (ini_options i) MAX_INTERPOLATION_DEPTH v) (\<lambda>v. Inr (k, v))) (ini_options i)
      = Inr (map id (ini_options i))"
    by (intro res_map_total) (auto simp: interpolate_plain)
  then show ?thesis by (simp add: ini_items_def)
qed

lemma migration_env_online:
  assumes al: "configparser_backed al view" and url: "url_given environ (view c) u" "u \<noteq> []" "CHR ''%'' \<notin> set u"
    and plain: "plain_ini (view c)" and online: "\<not> is_offline_mode al"
  shows "\<exists>opts. map_of opts = (map_of (ini_options (view c)))(url_option \<mapsto> u) \<and>
    migration_env al environ c db =
      (case engine_from_config al opts ''sqlalchemy.'' of
         Inl e \<Rightarrow> (Inl e, db)
       | Inr engine \<Rightarrow> let (res, db) = run_migrations al engine db in (res_bind res (\<lambda>_. Inr None), db))"
proof -
  let ?i = "(view c)\<lparr>ini_section := AList.update url_option u (ini_section (view c))\<rparr>"
  obtain c' where set: "set_main_option al c url_option u = Inr c'" "view c' = ?i"
    using set_main_option_backed(2) [OF al ini_set_plain [OF url(3)], of c url_option] by auto
  have opts: "map_of (ini_options ?i) = (map_of (ini_options (view c)))(url_option \<mapsto> u)"
    by (rule map_of_ini_options [OF plain])
  have "ini_items ?i = Inr (ini_options ?i)"
  proof (rule ini_items_plain)
    show "CHR ''%'' \<notin> set v" if "map_of (ini_options ?i) k = Some v" for k v
      using that plain url(3) unfolding opts
      by (auto simp: plain_ini_def list_all_iff split: if_splits dest: map_of_SomeD)
  qed (use plain in \<open>simp add: plain_ini_def\<close>)
  then have "get_section al c' = Inr (ini_options ?i)"
    using al set(2) by (simp add: configparser_backed_def)
  then show ?thesis
    using env_configure_given [OF al url(1,2)] set(1) online opts
    by (intro exI [of _ "ini_options ?i"])
       (simp add: migration_env_def run_migrations_online_def split: sum.split)
qed

text \<open>Property C33: with a URL that has no percent sign, given by the environment variable or, when that
  is missing or empty, by \<^verbatim>\<open>alembic.ini\<close>, an online run hands exactly that URL to SQLAlchemy, over
  whatever the file said, and leaves the database with the two tables the library declares.\<close>

theorem migration_env_builds_tables:
  assumes "configparser_backed al view" and "url_given environ (view c) u" "u \<noteq> []" "CHR ''%'' \<notin> set u"
    and "plain_ini (view c)" and "\<not> is_offline_mode al"
    and engine: "\<And>opts. map_of opts url_option = Some u \<Longrightarrow> engine_from_config al opts ''sqlalchemy.'' = Inr engine"
    and runs: "\<And>s s'. upgrade_head d s = Inr s' \<Longrightarrow> run_migrations al engine s = (Inr (), s')"
    and "unmigrated d s"
  shows "migration_env al environ c s = (Inr None, migrated d s)
    \<and> s_tables (migrated d s) = s_tables s @ [outbox_message d, inbox_message d]"
proof -
  obtain opts where "map_of opts = (map_of (ini_options (view c)))(url_option \<mapsto> u)" and
    env: "migration_env al environ c s =
      (case engine_from_config al opts ''sqlalchemy.'' of
         Inl e \<Rightarrow> (Inl e, s)
       | Inr engine \<Rightarrow> let (res, db) = run_migrations al engine s in (res_bind res (\<lambda>_. Inr None), db))"
    using migration_env_online [OF assms(1-6), of s] by blast
  then have "engine_from_config al opts ''sqlalchemy.'' = Inr engine" by (intro engine) simp
  then show ?thesis
    using env runs [OF upgrade_head_eq [OF assms(9)]] by (simp add: migrated_def add_table_def)
qed

text \<open>Property C34: a URL with percent-encoded characters, such as a password with \<^verbatim>\<open>%40\<close> in it, cannot be
  used.  Whether the environment variable holds it, or \<^verbatim>\<open>alembic.ini\<close> does with its percent signs doubled
  as that file asks, the run ends with \<^verbatim>\<open>ValueError\<close>, online and offline, and the database is not touched.\<close>

theorem migration_env_rejects_percent:
  assumes "configparser_backed al view" and "url_given environ (view c) u" and "percent_encoded u"
  shows "migration_env al environ c db = (Inl (ValueError ''invalid interpolation syntax''), db)"
proof -
  have "u \<noteq> []" using assms(3) by (auto simp: percent_encoded_def)
  then have "env_configure al environ c = set_main_option al c url_option u"
    by (rule env_configure_given [OF assms(1,2)])
  also have "\<dots> = Inl (ValueError ''invalid interpolation syntax'')"
    by (rule set_main_option_backed(1) [OF assms(1) ini_set_percent_encoded [OF assms(3)]])
  finally show ?thesis by (simp add: migration_env_def)
qed

section \<open>Examples\<close>

text \<open>alembic over a \<^verbatim>\<open>ConfigParser\<close>, an engine that is its URL, and the repository's own \<^verbatim>\<open>alembic.ini\<close>.\<close>

definition example_alembic :: "(ini, string, schema) alembic" where
  "example_alembic = \<lparr>get_main_option = ini_get, set_main_option = ini_set, get_section = ini_items,
     is_offline_mode = False, render_migrations = (\<lambda>_. Inr []),
     engine_from_config = (\<lambda>opts prefix. case map_of opts (prefix @ ''url'') of
        None \<Rightarrow> Inl (CallbackError ''url'') | Some u \<Rightarrow> Inr u),
     run_migrations = (\<lambda>e s. case upgrade_head POSTGRESQL s of Inl err \<Rightarrow> (Inl err, s) | Inr s' \<Rightarrow> (Inr (), s'))\<rparr>"

definition example_ini :: "string \<Rightarrow> ini" where
  "example_ini url = \<lparr>ini_defaults = [(''here'', ''/srv/app'')],
     ini_section = [(''script_location'', ''src/pactix/db/migrations''), (''path_separator'', ''os''), (url_option, url)]\<rparr>"

lemma example_alembic_backed: "configparser_backed example_alembic id"
  by (simp add: configparser_backed_def example_alembic_def split: sum.split)

theorem migration_env_builds_tables_witness:
  "migration_env example_alembic [(''PACTIX_DATABASE_URL'', ''postgresql://db/app'')] (example_ini []) example_schema
     = (Inr None, migrated POSTGRESQL example_schema)
   \<and> map t_name (s_tables (migrated POSTGRESQL example_schema)) = [''orders'', ''outbox_message'', ''inbox_message'']"
proof -
  have "migration_env example_alembic [(''PACTIX_DATABASE_URL'', ''postgresql://db/app'')] (example_ini []) example_schema
      = (Inr None, migrated POSTGRESQL example_schema)
    \<and> s_tables (migrated POSTGRESQL example_schema)
      = s_tables example_schema @ [outbox_message POSTGRESQL, inbox_message POSTGRESQL]"
  proof (rule migration_env_builds_tables [OF example_alembic_backed _ _ _ _ _ _ _ example_unmigrated])
    show "url_given [(''PACTIX_DATABASE_URL'', ''postgresql://db/app'')] (id (example_ini [])) ''postgresql://db/app''"
      by (simp add: url_given_def)
    show "plain_ini (id (example_ini []))"
      by (simp add: plain_ini_def example_ini_def ini_options_def wf_dict_def)
  qed (simp_all add: example_alembic_def)
  then show ?thesis by (simp add: example_schema_def)
qed

theorem migration_env_rejects_percent_witness:
  "migration_env example_alembic [] (example_ini ''postgresql://app:p%%40ss@db/app'') example_schema
     = (Inl (ValueError ''invalid interpolation syntax''), example_schema)"
proof (rule migration_env_rejects_percent [OF example_alembic_backed])
  show "url_given [] (id (example_ini ''postgresql://app:p%%40ss@db/app'')) ''postgresql://app:p%40ss@db/app''"
    by (simp add: url_given_def example_ini_def ini_options_def doubled_def)
qed (simp add: percent_encoded_def)

end
