(* ===== verification/Imports.thy ===== *)
theory Imports
  imports Prelude
begin

text \<open>
  The import system of Python, as far as the library's modules use it: executing the top-level
  statements of modules, \<^verbatim>\<open>sys.modules\<close> with partly initialised modules, parents before their
  submodules, relative imports, and \<^verbatim>\<open>from ... import\<close> with its search for submodules.  Names are
  bound to where their object was defined.  What a statement computes is not of interest here,
  only which names it reads and binds.
\<close>

section \<open>Statements and interpreters\<close>

text \<open>A dotted name as the list of its parts.\<close>

type_synonym dotted = "string list"

text \<open>
  The top-level statements: the two forms of import (with \<^verbatim>\<open>as\<close>), a definition of a name (function, class
  or assignment) with the names it reads when it is executed, an expression or a
  conditional that only reads names, and a block guarded by \<^verbatim>\<open>TYPE_CHECKING\<close>, which is false at run time.
\<close>

datatype stmt =
    Import dotted "string option"
  | ImportFrom nat dotted "(string \<times> string option) list"
  | Define string "string list"
  | Evaluate "string list"
  | IfTypeChecking "stmt list"

datatype obj = ModuleObj dotted | Defined dotted string | Attribute dotted string

datatype import_error =
    ModuleNotFoundError dotted
  | ImportError dotted string
  | NameError string
  | RecursionError

type_synonym namespace = "(string \<times> obj) list"

text \<open>\<^verbatim>\<open>sys.modules\<close>, restricted to the modules whose source is given, the latest first.\<close>

type_synonym interpreter = "(dotted \<times> namespace) list"

text \<open>
  The source of the modules: whether each is a package, and its body.  The other modules that can be imported are given by the names
  they offer.
\<close>

type_synonym sources = "(dotted \<times> bool \<times> stmt list) list"
type_synonym installed = "dotted \<Rightarrow> string list option"

text \<open>The built-in names the library's module bodies read.\<close>

definition builtin_names :: "string list" where
  "builtin_names = [''property'', ''classmethod'', ''dict'', ''staticmethod'', ''Exception'']"

section \<open>Names and attributes\<close>

definition is_loaded :: "dotted \<Rightarrow> interpreter \<Rightarrow> bool" where
  "is_loaded m st \<longleftrightarrow> map_of st m \<noteq> None"

primrec set_attr :: "dotted \<Rightarrow> string \<Rightarrow> obj \<Rightarrow> interpreter \<Rightarrow> interpreter" where
  "set_attr m x v [] = []"
| "set_attr m x v (e # st) = (if fst e = m then (fst e, (x, v) # snd e) # st else e # set_attr m x v st)"

definition offers :: "installed \<Rightarrow> dotted \<Rightarrow> string \<Rightarrow> bool" where
  "offers ext m x \<longleftrightarrow> (case ext m of Some names \<Rightarrow> x \<in> set names | None \<Rightarrow> False) \<or> ext (m @ [x]) \<noteq> None"

definition get_attr :: "installed \<Rightarrow> interpreter \<Rightarrow> dotted \<Rightarrow> string \<Rightarrow> obj option" where
  "get_attr ext st m x =
     (case map_of st m of
        Some ns \<Rightarrow> map_of ns x
      | None \<Rightarrow> if offers ext m x then Some (Attribute m x) else None)"

definition readable :: "interpreter \<Rightarrow> dotted \<Rightarrow> string \<Rightarrow> bool" where
  "readable st m x \<longleftrightarrow> (case map_of st m of Some ns \<Rightarrow> map_of ns x \<noteq> None | None \<Rightarrow> False) \<or> x \<in> set builtin_names"

text \<open>The module a relative import names: level 1 is the package of the importing module.\<close>

definition resolve_name :: "bool \<Rightarrow> dotted \<Rightarrow> nat \<Rightarrow> dotted \<Rightarrow> dotted" where
  "resolve_name is_pkg m level path =
     (if level = 0 then path
      else let package = (if is_pkg then m else butlast m) in take (length package + 1 - level) package @ path)"

definition read_names :: "interpreter \<Rightarrow> dotted \<Rightarrow> string list \<Rightarrow> import_error + unit" where
  "read_names st m names = (case find (\<lambda>x. \<not> readable st m x) names of None \<Rightarrow> Inr () | Some x \<Rightarrow> Inl (NameError x))"

definition bound_name :: "string \<times> string option \<Rightarrow> string" where
  "bound_name entry = (case snd entry of None \<Rightarrow> fst entry | Some a \<Rightarrow> a)"

text \<open>\<^verbatim>\<open>IMPORT_FROM\<close> for each name: the attribute, or else the submodule of that name.\<close>

primrec bind_names ::
  "installed \<Rightarrow> dotted \<Rightarrow> dotted \<Rightarrow> (string \<times> string option) list \<Rightarrow> interpreter \<Rightarrow> import_error + interpreter" where
  "bind_names ext m target [] st = Inr st"
| "bind_names ext m target (e # names) st =
     (case get_attr ext st target (fst e) of
        Some v \<Rightarrow> bind_names ext m target names (set_attr m (bound_name e) v st)
      | None \<Rightarrow>
          if is_loaded (target @ [fst e]) st
          then bind_names ext m target names (set_attr m (bound_name e) (ModuleObj (target @ [fst e])) st)
          else Inl (ImportError target (fst e)))"

section \<open>Importing\<close>

text \<open>
  \<^verbatim>\<open>_handle_fromlist\<close>: a name of the list that is no attribute of the package may be a submodule of it.  \<open>load\<close> is the
  import of a module.
\<close>

primrec handle_fromlist ::
  "(dotted \<Rightarrow> interpreter \<Rightarrow> import_error + interpreter) \<Rightarrow> installed \<Rightarrow> dotted \<Rightarrow> (string \<times> string option) list
   \<Rightarrow> interpreter \<Rightarrow> import_error + interpreter" where
  "handle_fromlist load ext target [] st = Inr st"
| "handle_fromlist load ext target (name # names) st =
     (let x = fst name
      in if get_attr ext st target x \<noteq> None then handle_fromlist load ext target names st
         else case load (target @ [x]) st of
                Inl e \<Rightarrow> if e = ModuleNotFoundError (target @ [x]) then handle_fromlist load ext target names st else Inl e
              | Inr st' \<Rightarrow> handle_fromlist load ext target names st')"

text \<open>One statement of the module \<open>m\<close>.\<close>

fun exec_stmt ::
  "(dotted \<Rightarrow> interpreter \<Rightarrow> import_error + interpreter) \<Rightarrow> sources \<Rightarrow> installed \<Rightarrow> bool \<Rightarrow> dotted \<Rightarrow> stmt
   \<Rightarrow> interpreter \<Rightarrow> import_error + interpreter" where
  "exec_stmt load src ext is_pkg m (Import path alias) st =
     res_bind (load path st) (\<lambda>st1.
       Inr (case alias of
              None \<Rightarrow> set_attr m (hd path) (ModuleObj [hd path]) st1
            | Some a \<Rightarrow> set_attr m a (ModuleObj path) st1))"
| "exec_stmt load src ext is_pkg m (ImportFrom level path names) st =
     (let target = resolve_name is_pkg m level path
      in res_bind (load target st) (\<lambda>st1.
           res_bind (case map_of src target of
               Some (True, _) \<Rightarrow> handle_fromlist load ext target names st1
             | _ \<Rightarrow> Inr st1) (\<lambda>st2.
             bind_names ext m target names st2)))"
| "exec_stmt load src ext is_pkg m (Define x names) st =
     res_bind (read_names st m names) (\<lambda>_. Inr (set_attr m x (Defined m x) st))"
| "exec_stmt load src ext is_pkg m (Evaluate names) st = res_bind (read_names st m names) (\<lambda>_. Inr st)"
| "exec_stmt load src ext is_pkg m (IfTypeChecking block) st =
     res_bind (read_names st m [''TYPE_CHECKING'']) (\<lambda>_. Inr st)"

primrec exec_body ::
  "(dotted \<Rightarrow> interpreter \<Rightarrow> import_error + interpreter) \<Rightarrow> sources \<Rightarrow> installed \<Rightarrow> bool \<Rightarrow> dotted \<Rightarrow> stmt list
   \<Rightarrow> interpreter \<Rightarrow> import_error + interpreter" where
  "exec_body load src ext is_pkg m [] st = Inr st"
| "exec_body load src ext is_pkg m (s # body) st =
     res_bind (exec_stmt load src ext is_pkg m s st) (exec_body load src ext is_pkg m body)"

text \<open>
  \<^verbatim>\<open>_find_and_load\<close>: the parent first, then the module itself, which is in \<^verbatim>\<open>sys.modules\<close> while its
  body runs and becomes an attribute of its parent afterwards.  The number bounds the depth of
  nested imports, as the interpreter's stack does.
\<close>

primrec find_and_load :: "nat \<Rightarrow> sources \<Rightarrow> installed \<Rightarrow> dotted \<Rightarrow> interpreter \<Rightarrow> import_error + interpreter" where
  "find_and_load 0 src ext m st = Inl RecursionError"
| "find_and_load (Suc n) src ext m st =
     (if is_loaded m st then Inr st
      else res_bind (if length m \<le> 1 then Inr st else find_and_load n src ext (butlast m) st) (\<lambda>st1.
        if is_loaded m st1 then Inr st1
        else case map_of src m of
               Some (is_pkg, body) \<Rightarrow>
                 res_bind (exec_body (find_and_load n src ext) src ext is_pkg m body ((m, []) # st1)) (\<lambda>st2.
                   Inr (set_attr (butlast m) (last m) (ModuleObj m) st2))
             | None \<Rightarrow> if ext m = None then Inl (ModuleNotFoundError m) else Inr st1))"

text \<open>The imports of a program, one after the other.\<close>

primrec import_all :: "nat \<Rightarrow> sources \<Rightarrow> installed \<Rightarrow> dotted list \<Rightarrow> interpreter \<Rightarrow> import_error + interpreter" where
  "import_all n src ext [] st = Inr st"
| "import_all n src ext (m # ms) st = res_bind (find_and_load n src ext m st) (import_all n src ext ms)"

end
