(* ===== verification/Linking.thy ===== *)
theory Linking
  imports Imports
begin

text \<open>
  When imports succeed.  A list of modules in dependency order is \<open>well_linked\<close> if every module reads
  only names it has bound before, and takes from modules before it only names these bind.  The locale
  \<open>linked_package\<close> shows that such a package can be imported from every module and in every order, and
  that every name then denotes what the relation \<open>denotes\<close> says, although packages are
  imported while they are only partly initialised.
\<close>

section \<open>What a module binds, takes and reads\<close>

datatype binding = Own obj | From dotted string

fun stmt_binds :: "bool \<Rightarrow> dotted \<Rightarrow> stmt \<Rightarrow> (string \<times> binding) list" where
  "stmt_binds is_pkg m (Import path None) = [(hd path, Own (ModuleObj [hd path]))]"
| "stmt_binds is_pkg m (Import path (Some a)) = [(a, Own (ModuleObj path))]"
| "stmt_binds is_pkg m (ImportFrom level path names) =
     map (\<lambda>e. (bound_name e, From (resolve_name is_pkg m level path) (fst e))) names"
| "stmt_binds is_pkg m (Define x names) = [(x, Own (Defined m x))]"
| "stmt_binds is_pkg m s = []"

fun stmt_takes :: "bool \<Rightarrow> dotted \<Rightarrow> stmt \<Rightarrow> (dotted \<times> string list) list" where
  "stmt_takes is_pkg m (Import path alias) = [(path, [])]"
| "stmt_takes is_pkg m (ImportFrom level path names) = [(resolve_name is_pkg m level path, map fst names)]"
| "stmt_takes is_pkg m s = []"

fun stmt_reads :: "stmt \<Rightarrow> string list" where
  "stmt_reads (Define x names) = names"
| "stmt_reads (Evaluate names) = names"
| "stmt_reads (IfTypeChecking block) = [''TYPE_CHECKING'']"
| "stmt_reads s = []"

definition body_binds :: "bool \<Rightarrow> dotted \<Rightarrow> stmt list \<Rightarrow> (string \<times> binding) list" where
  "body_binds is_pkg m body = concat (map (stmt_binds is_pkg m) body)"

definition body_names :: "bool \<Rightarrow> dotted \<Rightarrow> stmt list \<Rightarrow> string list" where
  "body_names is_pkg m body = map fst (body_binds is_pkg m body)"

definition body_takes :: "bool \<Rightarrow> dotted \<Rightarrow> stmt list \<Rightarrow> (dotted \<times> string list) list" where
  "body_takes is_pkg m body = concat (map (stmt_takes is_pkg m) body)"

text \<open>The object a binding denotes.\<close>

inductive denotes :: "sources \<Rightarrow> binding \<Rightarrow> obj \<Rightarrow> bool" for src where
  own: "denotes src (Own v) v"
| external: "map_of src m = None \<Longrightarrow> denotes src (From m x) (Attribute m x)"
| inner: "map_of src m = Some (is_pkg, body) \<Longrightarrow> (x, b) \<in> set (body_binds is_pkg m body) \<Longrightarrow> denotes src b v \<Longrightarrow>
    denotes src (From m x) v"

section \<open>The check\<close>

text \<open>A module and the packages around it.\<close>

definition ancestors :: "dotted \<Rightarrow> dotted list" where
  "ancestors m = map (\<lambda>k. take k m) [1..<Suc (length m)]"

definition position :: "sources \<Rightarrow> dotted \<Rightarrow> nat" where
  "position src m = length (takeWhile (\<lambda>e. fst e \<noteq> m) src)"

definition submodules :: "sources \<Rightarrow> dotted \<Rightarrow> string list" where
  "submodules src m = map (\<lambda>e. last (fst e)) (filter (\<lambda>e. fst e \<noteq> [] \<and> butlast (fst e) = m) src)"

primrec reads_bound :: "bool \<Rightarrow> dotted \<Rightarrow> string list \<Rightarrow> stmt list \<Rightarrow> bool" where
  "reads_bound is_pkg m names [] \<longleftrightarrow> True"
| "reads_bound is_pkg m names (s # body) \<longleftrightarrow>
     list_all (\<lambda>x. x \<in> set names \<or> x \<in> set builtin_names) (stmt_reads s) \<and>
     reads_bound is_pkg m (names @ map fst (stmt_binds is_pkg m s)) body"

definition module_names :: "sources \<Rightarrow> dotted \<Rightarrow> string list option" where
  "module_names src m = map_option (\<lambda>(is_pkg, body). body_names is_pkg m body) (map_of src m)"

definition take_linked :: "sources \<Rightarrow> nat \<Rightarrow> dotted \<Rightarrow> dotted \<times> string list \<Rightarrow> bool" where
  "take_linked src depth m = (\<lambda>(t, names). t \<noteq> [] \<and> length t \<le> depth \<and>
     (case module_names src t of
        Some bound \<Rightarrow>
          position src t < position src m \<and>
          list_all (\<lambda>a. a \<in> set (ancestors m) \<or> position src a < position src m) (ancestors t) \<and>
          list_all (\<lambda>x. x \<in> set bound) names
      | None \<Rightarrow> list_all (\<lambda>a. module_names src a = None) (ancestors t)))"

definition module_linked :: "sources \<Rightarrow> nat \<Rightarrow> dotted \<times> bool \<times> stmt list \<Rightarrow> bool" where
  "module_linked src depth entry \<longleftrightarrow>
     (let (m, is_pkg, body) = entry; names = body_names is_pkg m body
      in m \<noteq> [] \<and> length m \<le> depth \<and> (module_names src (butlast m) = None \<longrightarrow> length m \<le> 1) \<and>
         distinct names \<and> list_all (\<lambda>x. x \<notin> set names) (submodules src m) \<and>
         reads_bound is_pkg m [] body \<and> list_all (take_linked src depth m) (body_takes is_pkg m body))"

definition well_linked :: "sources \<Rightarrow> nat \<Rightarrow> bool" where
  "well_linked src depth \<longleftrightarrow> list_all (module_linked src depth) src"

text \<open>What a module needs of the installed packages.\<close>

definition module_supplied :: "sources \<Rightarrow> installed \<Rightarrow> dotted \<times> bool \<times> stmt list \<Rightarrow> bool" where
  "module_supplied src ext entry \<longleftrightarrow>
     list_all (\<lambda>(t, names). map_of src t = None \<longrightarrow>
         list_all (\<lambda>a. ext a \<noteq> None) (ancestors t) \<and> list_all (offers ext t) names)
       (body_takes (fst (snd entry)) (fst entry) (snd (snd entry)))"

text \<open>\<open>required\<close> lists modules with names they offer.\<close>

definition provides :: "installed \<Rightarrow> (dotted \<times> string list) list \<Rightarrow> bool" where
  "provides ext required \<longleftrightarrow> list_all (\<lambda>(m, names). ext m \<noteq> None \<and> list_all (offers ext m) names) required"

lemma providesI:
  assumes "distinct (map fst required)" "\<And>m names. map_of required m = Some names \<Longrightarrow> ext m = Some names"
  shows "provides ext required"
  using assms by (auto simp: provides_def list_all_iff offers_def)

lemma supplied_mono:
  assumes "provides ext required" "module_supplied src (map_of required) entry"
  shows "module_supplied src ext entry"
proof -
  have mono: "ext m \<noteq> None" if "map_of required m \<noteq> None" for m
    using assms(1) that by (auto simp: provides_def list_all_iff dest!: map_of_SomeD)
  have "offers ext m x" if offer: "offers (map_of required) m x" for m x
  proof (cases "map_of required (m @ [x]) = None")
    case True
    then obtain names where "map_of required m = Some names" "x \<in> set names" using offer by (auto simp: offers_def split: option.splits)
    then show ?thesis using assms(1) by (auto simp: provides_def list_all_iff dest!: map_of_SomeD)
  qed (simp add: offers_def mono)
  with mono assms(2) show ?thesis by (fastforce simp: module_supplied_def list_all_iff)
qed

primrec find_binding :: "bool \<Rightarrow> dotted \<Rightarrow> string \<Rightarrow> stmt list \<Rightarrow> binding option" where
  "find_binding is_pkg m x [] = None"
| "find_binding is_pkg m x (s # body) =
     (case map_of (stmt_binds is_pkg m s) x of Some b \<Rightarrow> Some b | None \<Rightarrow> find_binding is_pkg m x body)"

lemma find_binding_binds: "find_binding is_pkg m x body = Some b \<Longrightarrow> (x, b) \<in> set (body_binds is_pkg m body)"
  by (induction body) (auto simp: body_binds_def dest: map_of_SomeD split: option.splits)

text \<open>Where a name comes from, following at most \<open>n\<close> imports.\<close>

primrec origin :: "nat \<Rightarrow> sources \<Rightarrow> binding \<Rightarrow> obj option" where
  "origin 0 src b = None"
| "origin (Suc n) src b =
     (case b of
        Own v \<Rightarrow> Some v
      | From m x \<Rightarrow>
          (case map_of src m of
             None \<Rightarrow> Some (Attribute m x)
           | Some (is_pkg, body) \<Rightarrow> Option.bind (find_binding is_pkg m x body) (origin n src)))"

lemma origin_denotes: "origin n src b = Some v \<Longrightarrow> denotes src b v"
proof (induction n arbitrary: b)
  case (Suc n)
  show ?case
  proof (cases b)
    case (From m x)
    show ?thesis
    proof (cases "map_of src m")
      case None
      then show ?thesis using Suc.prems From denotes.external by auto
    next
      case (Some e)
      then obtain p body c where "map_of src m = Some (p, body)" "find_binding p m x body = Some c" "origin n src c = Some v"
        using Suc.prems From by (cases e) (auto simp: Option.bind_eq_Some_conv)
      then show ?thesis using From Suc.IH denotes.inner find_binding_binds by metis
    qed
  qed (use Suc in \<open>auto intro: denotes.own\<close>)
qed simp

section \<open>Lookups\<close>

definition lookup :: "interpreter \<Rightarrow> dotted \<Rightarrow> string \<Rightarrow> obj option" where
  "lookup st m x = (case map_of st m of Some ns \<Rightarrow> map_of ns x | None \<Rightarrow> None)"

lemma is_loaded_Cons [simp]: "is_loaded k ((m, ns) # st) \<longleftrightarrow> k = m \<or> is_loaded k st"
  by (simp add: is_loaded_def)

lemma is_loaded_set_attr [simp]: "is_loaded k (set_attr m x v st) = is_loaded k st"
  by (induction st) (auto simp: is_loaded_def)

lemma lookup_set_attr:
  "lookup (set_attr m x v st) k y = (if k = m \<and> y = x \<and> is_loaded m st then Some v else lookup st k y)"
  by (induction st) (auto simp: lookup_def is_loaded_def)

lemma lookup_Cons: "lookup ((m, ns) # st) k x = (if k = m then map_of ns x else lookup st k x)"
  by (simp add: lookup_def)

lemma lookup_loaded: "lookup st k x = Some v \<Longrightarrow> is_loaded k st"
  by (auto simp: lookup_def is_loaded_def split: option.splits)

lemma get_attr_loaded: "is_loaded m st \<Longrightarrow> get_attr ext st m x = lookup st m x"
  by (auto simp: get_attr_def lookup_def is_loaded_def)

lemma get_attr_external: "\<not> is_loaded m st \<Longrightarrow> offers ext m x \<Longrightarrow> get_attr ext st m x = Some (Attribute m x)"
  by (simp add: get_attr_def is_loaded_def)

lemma get_attr_set_attr: "t \<noteq> m \<Longrightarrow> get_attr ext (set_attr m x v st) t y = get_attr ext st t y"
proof -
  assume "t \<noteq> m"
  then have "map_of (set_attr m x v st) t = map_of st t" by (induction st) auto
  then show ?thesis by (simp add: get_attr_def)
qed

lemma readable_lookup: "readable st m x \<longleftrightarrow> lookup st m x \<noteq> None \<or> x \<in> set builtin_names"
  by (auto simp: readable_def lookup_def split: option.splits)

lemma ancestors_snoc [simp]: "ancestors (m @ [x]) = ancestors m @ [m @ [x]]"
  by (auto simp: ancestors_def)

lemma ancestors_Nil [simp]: "ancestors [] = []"
  by (simp add: ancestors_def)

lemma ancestors_butlast: "m \<noteq> [] \<Longrightarrow> set (ancestors m) = insert m (set (ancestors (butlast m)))"
  by (cases m rule: rev_cases) auto

lemma self_ancestor: "m \<noteq> [] \<Longrightarrow> m \<in> set (ancestors m)"
  by (simp add: ancestors_butlast)

lemma no_submodule: "x \<notin> set (submodules src m) \<Longrightarrow> map_of src (m @ [x]) = None"
  by (force simp: submodules_def map_of_eq_None_iff)

lemma position_take:
  assumes "map_of src m = Some e" "position src m \<le> upper"
  shows "(m, e) \<in> set (take (Suc upper) src)"
  using assms
proof (induction src arbitrary: upper)
  case (Cons a src)
  show ?case
  proof (cases "fst a = m")
    case False
    then have "map_of src m = Some e" "Suc (position src m) \<le> upper" using Cons.prems by (auto simp: position_def)
    with Cons.IH [of "upper - 1"] show ?thesis by (cases upper) auto
  qed (use Cons.prems in auto)
qed simp

lemma ancestors_closed:
  assumes "is_loaded m st" and "\<And>k. is_loaded k st \<Longrightarrow> 1 < length k \<Longrightarrow> is_loaded (butlast k) st"
  shows "\<forall>a \<in> set (ancestors m). is_loaded a st"
  using assms(1)
proof (induction m rule: rev_induct)
  case Nil
  then show ?case by simp
next
  case (snoc x m)
  show ?case
  proof (cases "m = []")
    case False
    then have "is_loaded m st" using assms(2) [OF snoc.prems] by simp
    with snoc show ?thesis by simp
  qed (use snoc.prems ancestors_snoc [of "[]" x] in simp)
qed

lemma load_external:
  assumes "\<And>k. is_loaded k st \<Longrightarrow> map_of src k \<noteq> None"
    and "t \<noteq> []" "length t \<le> n" "\<forall>a \<in> set (ancestors t). map_of src a = None \<and> ext a \<noteq> None"
  shows "find_and_load n src ext t st = Inr st"
  using assms(2-4)
proof (induction n arbitrary: t)
  case (Suc n)
  have t: "\<not> is_loaded t st" "map_of src t = None" "ext t \<noteq> None"
    using assms(1) [of t] Suc.prems(3) self_ancestor [OF Suc.prems(1)] by auto
  have "(if length t \<le> 1 then Inr st else find_and_load n src ext (butlast t) st) = Inr st"
    using Suc.IH [of "butlast t"] Suc.prems by (cases t rule: rev_cases) auto
  with t show ?case by simp
qed simp

lemma fromlist_attributes:
  assumes "\<And>e. e \<in> set names \<Longrightarrow> get_attr ext st target (fst e) \<noteq> None"
  shows "handle_fromlist load ext target names st = Inr st"
  using assms by (induction names) (auto simp: Let_def)

lemma read_names_ok: "(\<And>x. x \<in> set names \<Longrightarrow> readable st m x) \<Longrightarrow> read_names st m names = Inr ()"
proof -
  assume "\<And>x. x \<in> set names \<Longrightarrow> readable st m x"
  then have "find (\<lambda>x. \<not> readable st m x) names = None" by (auto simp: find_None_iff)
  then show ?thesis by (simp add: read_names_def)
qed

lemma body_binds_append [simp]: "body_binds p m (b1 @ b2) = body_binds p m b1 @ body_binds p m b2"
  by (simp add: body_binds_def)

lemma body_binds_Cons: "body_binds p m (s # b) = stmt_binds p m s @ body_binds p m b"
  by (simp add: body_binds_def)

lemma body_binds_one [simp]: "body_binds p m [s] = stmt_binds p m s"
  by (simp add: body_binds_def)

lemma reads_bound_append:
  "reads_bound p m names (b1 @ b2) \<longleftrightarrow> reads_bound p m names b1 \<and> reads_bound p m (names @ map fst (body_binds p m b1)) b2"
  by (induction b1 arbitrary: names) (auto simp: body_binds_def)

section \<open>Importing a linked package\<close>

locale linked_package =
  fixes src :: sources and depth :: nat
  assumes linked: "well_linked src depth"
begin

lemma module_facts:
  assumes "map_of src m = Some (p, body)"
  shows "m \<noteq> []" and "length m \<le> depth" and "1 < length m \<Longrightarrow> map_of src (butlast m) \<noteq> None"
    and "distinct (map fst (body_binds p m body))"
    and "(x, b) \<in> set (body_binds p m body) \<Longrightarrow> map_of src (m @ [x]) = None"
    and "reads_bound p m [] body"
    and "taken \<in> set (body_takes p m body) \<Longrightarrow> take_linked src depth m taken"
proof -
  have "module_linked src depth (m, p, body)"
    using linked map_of_SomeD [OF assms] by (auto simp: well_linked_def list_all_iff)
  then show "m \<noteq> []" "length m \<le> depth" "1 < length m \<Longrightarrow> map_of src (butlast m) \<noteq> None"
    "distinct (map fst (body_binds p m body))" "(x, b) \<in> set (body_binds p m body) \<Longrightarrow> map_of src (m @ [x]) = None"
    "reads_bound p m [] body" "taken \<in> set (body_takes p m body) \<Longrightarrow> take_linked src depth m taken"
    using no_submodule [of x src m] by (force simp: module_linked_def Let_def list_all_iff body_names_def module_names_def)+
qed

text \<open>
  \<open>busy\<close> are the modules whose bodies are running.  In a good state every other loaded module binds
  its names to what they denote, and packages are loaded before their submodules.
\<close>

definition bound_to :: "interpreter \<Rightarrow> dotted \<Rightarrow> (string \<times> binding) list \<Rightarrow> bool" where
  "bound_to st m binds \<longleftrightarrow> (\<forall>(x, b) \<in> set binds. \<exists>v. lookup st m x = Some v \<and> denotes src b v)"

definition good :: "interpreter \<Rightarrow> dotted set \<Rightarrow> bool" where
  "good st busy \<longleftrightarrow>
     (\<forall>k. is_loaded k st \<longrightarrow> map_of src k \<noteq> None \<and> (1 < length k \<longrightarrow> is_loaded (butlast k) st)) \<and>
     (\<forall>k p body. is_loaded k st \<longrightarrow> k \<notin> busy \<longrightarrow> map_of src k = Some (p, body) \<longrightarrow> bound_to st k (body_binds p k body))"

text \<open>Imports keep what is loaded and bound, but for the attributes of submodules.\<close>

definition keeps :: "dotted set \<Rightarrow> interpreter \<Rightarrow> interpreter \<Rightarrow> bool" where
  "keeps own st st' \<longleftrightarrow> (\<forall>k. is_loaded k st \<longrightarrow> is_loaded k st') \<and>
     (\<forall>k x v. k \<notin> own \<longrightarrow> lookup st k x = Some v \<longrightarrow> map_of src (k @ [x]) = None \<longrightarrow> lookup st' k x = Some v)"

lemma keeps_refl [simp]: "keeps own st st"
  by (simp add: keeps_def)

lemma keeps_trans: "keeps own st st1 \<Longrightarrow> keeps own st1 st2 \<Longrightarrow> keeps own st st2"
  by (simp add: keeps_def)

lemma keeps_mono: "keeps {} st st' \<Longrightarrow> keeps own st st'"
  by (simp add: keeps_def)

lemma goodD:
  assumes "good st busy"
  shows "is_loaded k st \<Longrightarrow> map_of src k \<noteq> None" and "is_loaded k st \<Longrightarrow> 1 < length k \<Longrightarrow> is_loaded (butlast k) st"
    and "is_loaded k st \<Longrightarrow> k \<notin> busy \<Longrightarrow> map_of src k = Some (p, body) \<Longrightarrow> bound_to st k (body_binds p k body)"
  using assms by (auto simp: good_def)

lemma bound_to_keeps:
  assumes "keeps own st st'" "m \<notin> own" "bound_to st m binds" "\<And>x b. (x, b) \<in> set binds \<Longrightarrow> map_of src (m @ [x]) = None"
  shows "bound_to st' m binds"
  using assms by (fastforce simp: keeps_def bound_to_def)

lemma bound_to_set_attr:
  assumes "bound_to st m binds" "x \<notin> fst ` set binds"
  shows "bound_to (set_attr m x v st) m binds"
  unfolding bound_to_def
proof clarify
  fix y b
  assume y: "(y, b) \<in> set binds"
  then have "y \<noteq> x" using assms(2) by force
  with y assms(1) show "\<exists>w. lookup (set_attr m x v st) m y = Some w \<and> denotes src b w"
    by (auto simp: bound_to_def lookup_set_attr)
qed

lemma good_set_attr:
  assumes "good st (insert m busy)" shows "good (set_attr m x v st) (insert m busy)"
  using assms by (auto simp: good_def bound_to_def lookup_set_attr)

lemma keeps_set_attr: "keeps {m} st (set_attr m x v st)"
  by (auto simp: keeps_def lookup_set_attr)

text \<open>\<open>ready n t st busy\<close>: with the depth \<open>n\<close> left, \<open>t\<close> and the packages around it can still be loaded.  \<open>upper\<close> is
  the last position of a module that is needed.\<close>

definition ready :: "nat \<Rightarrow> nat \<Rightarrow> dotted \<Rightarrow> interpreter \<Rightarrow> dotted set \<Rightarrow> bool" where
  "ready upper n t st busy \<longleftrightarrow> 0 < n \<and> (\<forall>b \<in> busy. position src t < position src b) \<and>
     (\<forall>a \<in> set (ancestors t). \<not> is_loaded a st \<longrightarrow> position src a \<le> upper \<and> (\<forall>b \<in> busy. position src a < position src b) \<and>
        (position src a + 1) * (depth + 1) + length t \<le> n)"

definition loader :: "installed \<Rightarrow> nat \<Rightarrow> nat \<Rightarrow> (dotted \<Rightarrow> interpreter \<Rightarrow> import_error + interpreter) \<Rightarrow> bool" where
  "loader ext upper n load \<longleftrightarrow>
     (\<forall>t st busy. good st busy \<longrightarrow> map_of src t \<noteq> None \<longrightarrow> ready upper n t st busy \<longrightarrow>
        (\<exists>st'. load t st = Inr st' \<and> good st' busy \<and> is_loaded t st' \<and> keeps {} st st')) \<and>
     (\<forall>t st busy. good st busy \<longrightarrow> t \<noteq> [] \<longrightarrow> length t \<le> n \<longrightarrow>
        (\<forall>a \<in> set (ancestors t). map_of src a = None \<and> ext a \<noteq> None) \<longrightarrow> load t st = Inr st)"

text \<open>Loading what a running module takes.\<close>

lemma load_taken:
  assumes load: "loader ext upper n load" and m: "map_of src m = Some (p, body)" "is_loaded m st" "position src m \<le> upper"
    and good: "good st (insert m busy)" and busy: "\<forall>b \<in> busy. position src m < position src b"
    and n: "position src m * (depth + 1) + depth \<le> n"
    and taken: "(t, names) \<in> set (body_takes p m body)" and sup: "module_supplied src ext (m, p, body)"
  obtains st' where "load t st = Inr st'" "good st' (insert m busy)" "keeps {} st st'"
    "\<And>x. x \<in> set names \<Longrightarrow> \<exists>v. get_attr ext st' t x = Some v \<and> denotes src (From t x) v"
    "t \<noteq> m" "case map_of src t of Some _ \<Rightarrow> is_loaded t st' | None \<Rightarrow> \<not> is_loaded t st'"
proof -
  have lt: "take_linked src depth m (t, names)" by (rule module_facts(7) [OF m(1) taken])
  then have t: "t \<noteq> []" "length t \<le> depth" by (simp_all add: take_linked_def)
  have "m \<noteq> []" "length m \<le> depth" using module_facts(1,2) [OF m(1)] .
  then have n0: "0 < n" "depth \<le> n" using n by (cases depth; simp)+
  show thesis
  proof (cases "map_of src t")
    case None
    have ext: "\<forall>a \<in> set (ancestors t). map_of src a = None \<and> ext a \<noteq> None" "\<And>x. x \<in> set names \<Longrightarrow> offers ext t x"
      using lt None sup taken by (auto simp: take_linked_def module_supplied_def list_all_iff module_names_def)
    have nl: "\<not> is_loaded t st" using goodD(1) [OF good, of t] None by auto
    have "load t st = Inr st" using load good t n0(2) ext(1) unfolding loader_def by (meson order_trans)
    moreover have "\<exists>v. get_attr ext st t x = Some v \<and> denotes src (From t x) v" if "x \<in> set names" for x
      using get_attr_external [OF nl ext(2) [OF that]] denotes.external [OF None] by blast
    moreover have "t \<noteq> m" using None m(1) by auto
    ultimately show thesis using that [of st] good nl None by auto
  next
    case (Some e)
    obtain q b where tb: "map_of src t = Some (q, b)" using Some by (cases e) auto
    have pos: "position src t < position src m"
      and anc: "\<And>a. a \<in> set (ancestors t) \<Longrightarrow> a \<in> set (ancestors m) \<or> position src a < position src m"
      and names: "\<And>x. x \<in> set names \<Longrightarrow> x \<in> fst ` set (body_binds q t b)"
      using lt tb by (auto simp: take_linked_def list_all_iff body_names_def module_names_def)
    have up: "\<forall>a \<in> set (ancestors m). is_loaded a st" by (rule ancestors_closed [OF m(2) goodD(2) [OF good]])
    have "ready upper n t st (insert m busy)"
      unfolding ready_def
    proof (intro conjI ballI impI)
      fix a
      assume a: "a \<in> set (ancestors t)" "\<not> is_loaded a st"
      then have lt': "position src a < position src m" using anc up by blast
      then show "position src a \<le> upper" using m(3) by simp
      have "(position src a + 1) * (depth + 1) \<le> position src m * (depth + 1)" using lt' by (intro mult_le_mono1) simp
      then show "(position src a + 1) * (depth + 1) + length t \<le> n" using n t(2) by linarith
      fix b assume "b \<in> insert m busy" then show "position src a < position src b" using lt' busy by auto
    qed (use pos busy n0 in auto)
    then obtain st' where st': "load t st = Inr st'" "good st' (insert m busy)" "is_loaded t st'" "keeps {} st st'"
      using load good tb unfolding loader_def by (metis option.distinct(1))
    have "t \<noteq> m" "t \<notin> insert m busy" using pos busy by force+
    then have "bound_to st' t (body_binds q t b)" by (intro goodD(3) [OF st'(2,3) _ tb])
    then have "\<exists>v. get_attr ext st' t x = Some v \<and> denotes src (From t x) v" if "x \<in> set names" for x
      using names [OF that] denotes.inner [OF tb] by (fastforce simp: bound_to_def get_attr_loaded [OF st'(3)])
    with st' \<open>t \<noteq> m\<close> tb show thesis using that by simp
  qed
qed

lemma bound_to_append: "bound_to st m (b1 @ b2) \<longleftrightarrow> bound_to st m b1 \<and> bound_to st m b2"
  by (simp add: bound_to_def ball_Un)

lemma bind_one:
  assumes "good st (insert m busy)" "is_loaded m st" "bound_to st m binds" "x \<notin> fst ` set binds" "denotes src b v"
  shows "good (set_attr m x v st) (insert m busy)" "bound_to (set_attr m x v st) m (binds @ [(x, b)])"
proof -
  show "good (set_attr m x v st) (insert m busy)" by (rule good_set_attr [OF assms(1)])
  have "bound_to (set_attr m x v st) m [(x, b)]" using assms(2,5) by (auto simp: bound_to_def lookup_set_attr)
  then show "bound_to (set_attr m x v st) m (binds @ [(x, b)])"
    using bound_to_set_attr [OF assms(3,4)] by (simp add: bound_to_append)
qed

lemma bind_names_ok:
  assumes "t \<noteq> m" "\<And>e. e \<in> set names \<Longrightarrow> \<exists>v. get_attr ext st t (fst e) = Some v \<and> denotes src (From t (fst e)) v"
    and "is_loaded m st" "good st (insert m busy)" "bound_to st m binds"
    and "distinct (map fst binds @ map bound_name names)"
  shows "\<exists>st'. bind_names ext m t names st = Inr st' \<and> good st' (insert m busy) \<and> keeps {m} st st'
    \<and> bound_to st' m (binds @ map (\<lambda>e. (bound_name e, From t (fst e))) names)"
  using assms(2-)
proof (induction names arbitrary: st binds)
  case (Cons e names)
  obtain v where v: "get_attr ext st t (fst e) = Some v" "denotes src (From t (fst e)) v" using Cons.prems(1) [of e] by auto
  have "bound_name e \<notin> fst ` set binds" using Cons.prems(5) by auto
  note one = bind_one [OF Cons.prems(3,2,4) this v(2)]
  have attr: "\<exists>w. get_attr ext (set_attr m (bound_name e) v st) t (fst e') = Some w \<and> denotes src (From t (fst e')) w"
    if "e' \<in> set names" for e' using Cons.prems(1) [of e'] that by (simp add: get_attr_set_attr [OF assms(1)])
  have "distinct (map fst (binds @ [(bound_name e, From t (fst e))]) @ map bound_name names)" using Cons.prems(5) by auto
  with Cons.IH [OF attr _ one] obtain st' where
    "bind_names ext m t names (set_attr m (bound_name e) v st) = Inr st'" "good st' (insert m busy)"
    "keeps {m} (set_attr m (bound_name e) v st) st'"
    "bound_to st' m ((binds @ [(bound_name e, From t (fst e))]) @ map (\<lambda>e. (bound_name e, From t (fst e))) names)"
    using Cons.prems(2) by auto
  then show ?case using v(1) keeps_trans [OF keeps_set_attr] by auto
qed simp

lemma exec_stmt_ok:
  assumes load: "loader ext upper n load" and m: "map_of src m = Some (p, b1 @ s # b2)" "is_loaded m st" "position src m \<le> upper"
    and good: "good st (insert m busy)" and busy: "\<forall>b \<in> busy. position src m < position src b"
    and n: "position src m * (depth + 1) + depth \<le> n"
    and sup: "module_supplied src ext (m, p, b1 @ s # b2)" and bound: "bound_to st m (body_binds p m b1)"
  shows "\<exists>st'. exec_stmt load src ext p m s st = Inr st' \<and> good st' (insert m busy) \<and> keeps {m} st st'
    \<and> bound_to st' m (body_binds p m (b1 @ [s]))"
proof -
  have dist: "distinct (map fst (body_binds p m b1) @ map fst (stmt_binds p m s))"
    using module_facts(4) [OF m(1)] by (auto simp: body_binds_Cons)
  have clash: "map_of src (m @ [x]) = None" if "(x, b) \<in> set (body_binds p m b1)" for x b
    using module_facts(5) [OF m(1), of x b] that by simp
  have reads: "read_names st m (stmt_reads s) = Inr ()"
  proof (rule read_names_ok)
    fix x
    assume "x \<in> set (stmt_reads s)"
    then have "x \<in> fst ` set (body_binds p m b1) \<or> x \<in> set builtin_names"
      using module_facts(6) [OF m(1)] by (auto simp: reads_bound_append list_all_iff)
    then show "readable st m x" using bound by (auto simp: readable_lookup bound_to_def)
  qed
  have takes: "taken \<in> set (stmt_takes p m s) \<Longrightarrow> taken \<in> set (body_takes p m (b1 @ s # b2))" for taken
    by (simp add: body_takes_def)
  note taken = load_taken [OF load m good busy n takes sup]
  show ?thesis
  proof (cases s)
    case (Import path alt)
    obtain st1 where st1: "load path st = Inr st1" "good st1 (insert m busy)" "keeps {} st st1"
      by (rule taken [of path "[]"]) (auto simp: Import)
    have l1: "is_loaded m st1" using st1(3) m(2) by (simp add: keeps_def)
    have b1: "bound_to st1 m (body_binds p m b1)" by (rule bound_to_keeps [OF st1(3) _ bound clash]) simp_all
    obtain x v where xv: "stmt_binds p m s = [(x, Own v)]" "exec_stmt load src ext p m s st = Inr (set_attr m x v st1)"
      using st1(1) by (cases alt) (simp_all add: Import)
    have "x \<notin> fst ` set (body_binds p m b1)" using dist by (auto simp: xv(1))
    from bind_one [OF st1(2) l1 b1 this denotes.own] show ?thesis
      using xv keeps_trans [OF keeps_mono [OF st1(3)] keeps_set_attr] by auto
  next
    case (ImportFrom level path names)
    let ?t = "resolve_name p m level path"
    obtain st1 where st1: "load ?t st = Inr st1" "good st1 (insert m busy)" "keeps {} st st1"
      and attr: "\<And>x. x \<in> set (map fst names) \<Longrightarrow> \<exists>v. get_attr ext st1 ?t x = Some v \<and> denotes src (From ?t x) v" and t: "?t \<noteq> m"
      by (rule taken [of ?t "map fst names"]) (auto simp: ImportFrom)
    have l1: "is_loaded m st1" using st1(3) m(2) by (simp add: keeps_def)
    have b1: "bound_to st1 m (body_binds p m b1)" by (rule bound_to_keeps [OF st1(3) _ bound clash]) simp_all
    have attrs: "\<exists>v. get_attr ext st1 ?t (fst e) = Some v \<and> denotes src (From ?t (fst e)) v" if "e \<in> set names" for e
      using attr [of "fst e"] that by simp
    have "handle_fromlist load ext ?t names st1 = Inr st1" by (rule fromlist_attributes) (use attrs in auto)
    then have e: "exec_stmt load src ext p m s st = bind_names ext m ?t names st1"
      by (auto simp: ImportFrom st1(1) Let_def split: option.splits bool.splits)
    have "distinct (map fst (body_binds p m b1) @ map bound_name names)" using dist by (simp add: ImportFrom comp_def)
    from bind_names_ok [OF t attrs l1 st1(2) b1 this] obtain st' where
      "bind_names ext m ?t names st1 = Inr st'" "good st' (insert m busy)" "keeps {m} st1 st'"
      "bound_to st' m (body_binds p m b1 @ map (\<lambda>e. (bound_name e, From ?t (fst e))) names)" by blast
    then show ?thesis
      unfolding e using keeps_trans [OF keeps_mono [OF st1(3)]] by (intro exI [of _ st']) (simp add: ImportFrom)
  next
    case (Define x names)
    then have "x \<notin> fst ` set (body_binds p m b1)" using dist by auto
    from bind_one [OF good m(2) bound this denotes.own] show ?thesis
      using reads keeps_set_attr by (auto simp: Define)
  qed (use reads good bound in auto)
qed

lemma exec_body_ok:
  assumes load: "loader ext upper n load" and m: "map_of src m = Some (p, b1 @ b2)" "is_loaded m st" "position src m \<le> upper"
    and good: "good st (insert m busy)" and busy: "\<forall>b \<in> busy. position src m < position src b"
    and n: "position src m * (depth + 1) + depth \<le> n"
    and sup: "module_supplied src ext (m, p, b1 @ b2)" and bound: "bound_to st m (body_binds p m b1)"
  shows "\<exists>st'. exec_body load src ext p m b2 st = Inr st' \<and> good st' (insert m busy) \<and> keeps {m} st st'
    \<and> bound_to st' m (body_binds p m (b1 @ b2))"
  using m good sup bound
proof (induction b2 arbitrary: b1 st)
  case (Cons s b2)
  from exec_stmt_ok [OF load Cons.prems(1-4) busy n Cons.prems(5,6)] obtain st1 where
    st1: "exec_stmt load src ext p m s st = Inr st1" "good st1 (insert m busy)" "keeps {m} st st1"
      "bound_to st1 m (body_binds p m (b1 @ [s]))" by blast
  have "is_loaded m st1" using st1(3) Cons.prems(2) by (simp add: keeps_def)
  with Cons.IH [of "b1 @ [s]" st1] Cons.prems st1 obtain st' where
    "exec_body load src ext p m b2 st1 = Inr st'" "good st' (insert m busy)" "keeps {m} st1 st'"
    "bound_to st' m (body_binds p m ((b1 @ [s]) @ b2))" by auto
  then show ?case using st1(1) keeps_trans [OF st1(3)] by auto
qed simp

text \<open>The module that has run is finished, and becomes an attribute of its package.\<close>

lemma finish_module:
  assumes m: "map_of src m = Some (p, body)" and nl: "\<not> is_loaded m st" and st': "good st' (insert m busy)" "keeps {m} ((m, []) # st) st'"
    and bound: "bound_to st' m (body_binds p m body)"
  shows "good (set_attr (butlast m) (last m) (ModuleObj m) st') (busy - {m})"
    and "keeps {} st (set_attr (butlast m) (last m) (ModuleObj m) st')"
    and "is_loaded m (set_attr (butlast m) (last m) (ModuleObj m) st')"
proof -
  let ?st = "set_attr (butlast m) (last m) (ModuleObj m) st'"
  have self: "butlast m @ [last m] = m" using module_facts(1) [OF m] by simp
  have kept: "keeps {} st' ?st" using self by (auto simp: keeps_def lookup_set_attr m)
  have "bound_to ?st k (body_binds q k b)" if k: "is_loaded k st'" "k \<notin> busy - {m}" "map_of src k = Some (q, b)" for k q b
  proof (rule bound_to_keeps [OF kept])
    show "bound_to st' k (body_binds q k b)"
      using goodD(3) [OF st'(1) k(1) _ k(3)] bound k m by (cases "k = m") auto
    show "map_of src (k @ [x]) = None" if "(x, c) \<in> set (body_binds q k b)" for x c using module_facts(5) [OF k(3) that] .
  qed simp
  then show "good ?st (busy - {m})" using goodD(1,2) [OF st'(1)] by (auto simp: good_def)
  show "is_loaded m ?st" using st'(2) by (simp add: keeps_def)
  have "keeps {} st st'" using st'(2) nl unfolding keeps_def by (metis is_loaded_Cons lookup_Cons lookup_loaded singletonD)
  then show "keeps {} st ?st" by (rule keeps_trans [OF _ kept])
qed

lemma readyD:
  assumes "ready upper n t st busy" "a \<in> set (ancestors t)" "\<not> is_loaded a st"
  shows "position src a \<le> upper" and "b \<in> busy \<Longrightarrow> position src a < position src b"
    and "(position src a + 1) * (depth + 1) + length t \<le> n"
  using assms by (auto simp: ready_def)

text \<open>The package around a module that is not loaded is loaded first.\<close>

lemma load_parent:
  assumes load: "loader ext upper n (find_and_load n src ext)" and good: "good st busy" and t: "map_of src t = Some (p, body)"
    and ready: "ready upper (Suc n) t st busy" and nl: "\<not> is_loaded t st"
  obtains st1 where "(if length t \<le> 1 then Inr st else find_and_load n src ext (butlast t) st) = Inr st1"
    "good st1 busy" "keeps {} st st1" "1 < length t \<longrightarrow> is_loaded (butlast t) st1"
proof (cases "length t \<le> 1")
  case True
  then show thesis using that [of st] good by simp
next
  case long: False
  have ne: "t \<noteq> []" "butlast t \<noteq> []" using module_facts(1) [OF t] long by (auto simp: butlast_conv_take)
  have n: "0 < n" using readyD(3) [OF ready self_ancestor [OF ne(1)] nl] long by (cases n) auto
  have parent: "butlast t \<in> set (ancestors t)" using self_ancestor [OF ne(2)] by (simp add: ancestors_butlast [OF ne(1)])
  show thesis
  proof (cases "is_loaded (butlast t) st")
    case True
    then have "find_and_load n src ext (butlast t) st = Inr st" using n by (cases n) auto
    then show thesis using that [of st] good True long by simp
  next
    case False
    have "ready upper n (butlast t) st busy"
      unfolding ready_def
    proof (intro conjI ballI impI)
      fix a
      assume "a \<in> set (ancestors (butlast t))" and a: "\<not> is_loaded a st"
      then have "a \<in> set (ancestors t)" by (simp add: ancestors_butlast [OF ne(1)])
      note r = readyD [OF ready this a]
      show "position src a \<le> upper" "\<And>b. b \<in> busy \<Longrightarrow> position src a < position src b" by (fact r(1,2))+
      show "(position src a + 1) * (depth + 1) + length (butlast t) \<le> n" using r(3) ne(1) by (cases t) auto
    qed (use readyD(2) [OF ready parent False] n in auto)
    then obtain st1 where "find_and_load n src ext (butlast t) st = Inr st1" "good st1 busy" "is_loaded (butlast t) st1" "keeps {} st st1"
      using load good module_facts(3) [OF t] long unfolding loader_def by (metis linorder_not_less)
    then show thesis using that [of st1] long by simp
  qed
qed

lemma find_and_load_ok:
  assumes sup: "\<And>k p body. map_of src k = Some (p, body) \<Longrightarrow> position src k \<le> upper \<Longrightarrow> module_supplied src ext (k, p, body)"
  shows "loader ext upper n (find_and_load n src ext)"
proof (induction n)
  case 0
  then show ?case by (simp add: loader_def ready_def)
next
  case (Suc n)
  have "\<exists>st'. find_and_load (Suc n) src ext t st = Inr st' \<and> good st' busy \<and> is_loaded t st' \<and> keeps {} st st'"
    if good: "good st busy" and t: "map_of src t \<noteq> None" and ready: "ready upper (Suc n) t st busy" for t st busy
  proof (cases "is_loaded t st")
    case False
    obtain p body where body: "map_of src t = Some (p, body)" using t by auto
    have ne: "t \<noteq> []" by (rule module_facts(1) [OF body])
    note self = readyD [OF ready self_ancestor [OF ne] False]
    obtain st1 where st1: "(if length t \<le> 1 then Inr st else find_and_load n src ext (butlast t) st) = Inr st1" "good st1 busy" "keeps {} st st1"
      and up: "1 < length t \<longrightarrow> is_loaded (butlast t) st1" by (rule load_parent [OF Suc.IH good body ready False])
    show ?thesis
    proof (cases "is_loaded t st1")
      case True
      then show ?thesis using st1 False by auto
    next
      case nl: False
      have g0: "good ((t, []) # st1) (insert t busy)"
        using st1(2) up body nl by (auto simp: good_def bound_to_def lookup_Cons)
      have n: "position src t * (depth + 1) + depth \<le> n" using self(3) ne by (cases t) auto
      have l0: "is_loaded t ((t, []) # st1)" and b0: "bound_to ((t, []) # st1) t (body_binds p t [])"
        by (simp_all add: bound_to_def body_binds_def)
      have "map_of src t = Some (p, [] @ body)" "module_supplied src ext (t, p, [] @ body)" using body sup [OF body self(1)] by simp_all
      from exec_body_ok [OF Suc.IH this(1) l0 self(1) g0 _ n this(2) b0] self(2) obtain st2 where
        "exec_body (find_and_load n src ext) src ext p t body ((t, []) # st1) = Inr st2" and st2: "good st2 (insert t busy)"
        "keeps {t} ((t, []) # st1) st2" "bound_to st2 t (body_binds p t body)" by auto
      then have "find_and_load (Suc n) src ext t st = Inr (set_attr (butlast t) (last t) (ModuleObj t) st2)"
        using st1(1) False nl body by simp
      moreover have "busy - {t} = busy" using self(2) by blast
      ultimately show ?thesis using finish_module [OF body nl st2] keeps_trans [OF st1(3)] by auto
    qed
  qed (use good in simp)
  moreover have "find_and_load (Suc n) src ext t st = Inr st"
    if "good st busy" "t \<noteq> []" "length t \<le> Suc n" "\<forall>a \<in> set (ancestors t). map_of src a = None \<and> ext a \<noteq> None" for t st busy
    by (rule load_external [OF goodD(1) [OF that(1)] that(2-4)])
  ultimately show ?case unfolding loader_def by blast
qed

lemma good_start: "good [] {}"
  by (simp add: good_def is_loaded_def)

lemma import_all_ok:
  assumes sup: "\<And>k p body. map_of src k = Some (p, body) \<Longrightarrow> position src k \<le> upper \<Longrightarrow> module_supplied src ext (k, p, body)"
    and n: "(upper + 1) * (depth + 1) + depth \<le> n"
    and ms: "\<And>m. m \<in> set ms \<Longrightarrow> map_of src m \<noteq> None \<and> (\<forall>a \<in> set (ancestors m). position src a \<le> upper)"
    and good: "good st {}"
  shows "\<exists>st'. import_all n src ext ms st = Inr st' \<and> good st' {} \<and> keeps {} st st' \<and> (\<forall>m \<in> set ms. is_loaded m st')"
  using ms good
proof (induction ms arbitrary: st)
  case (Cons m ms)
  obtain p body where m: "map_of src m = Some (p, body)" using Cons.prems(1) [of m] by auto
  have "(position src a + 1) * (depth + 1) + length m \<le> n" if "a \<in> set (ancestors m)" for a
  proof -
    have "(position src a + 1) * (depth + 1) \<le> (upper + 1) * (depth + 1)" using Cons.prems(1) [of m] that by (intro mult_le_mono1) simp
    then show ?thesis using n module_facts(2) [OF m] by linarith
  qed
  then have ready: "ready upper n m st {}" using Cons.prems(1) [of m] n by (simp add: ready_def)
  have "map_of src m \<noteq> None" by (simp add: m)
  moreover have "loader ext upper n (find_and_load n src ext)" by (rule find_and_load_ok [OF sup])
  ultimately obtain st1 where
    st1: "find_and_load n src ext m st = Inr st1" "good st1 {}" "is_loaded m st1" "keeps {} st st1"
    using Cons.prems(2) ready unfolding loader_def by blast
  have "map_of src k \<noteq> None \<and> (\<forall>a \<in> set (ancestors k). position src a \<le> upper)" if "k \<in> set ms" for k
    using Cons.prems(1) [of k] that by simp
  from Cons.IH [OF this st1(2)] obtain st' where
    st': "import_all n src ext ms st1 = Inr st'" "good st' {}" "keeps {} st1 st'" "\<forall>m \<in> set ms. is_loaded m st'" by blast
  then show ?case using st1 keeps_trans [OF st1(4) st'(3)] by (auto simp: keeps_def)
qed simp

lemma attribute_denotes:
  assumes "good st {}" "is_loaded m st" "map_of src m = Some (p, body)" "x \<in> fst ` set (body_binds p m body)"
  shows "\<exists>v. get_attr ext st m x = Some v \<and> denotes src (From m x) v"
  using goodD(3) [OF assms(1,2) _ assms(3)] assms(4) denotes.inner [OF assms(3)]
  by (fastforce simp: bound_to_def get_attr_loaded [OF assms(2)])

lemma denotes_unique: "denotes src b v \<Longrightarrow> denotes src b w \<Longrightarrow> w = v"
proof (induction arbitrary: w rule: denotes.induct)
  case (inner m p body x b v)
  from inner.prems show ?case
  proof cases
    case (inner q body' b')
    then have same: "q = p" "body' = body" using \<open>map_of src m = Some (p, body)\<close> by auto
    then have "b' = b"
      using inner(2) \<open>(x, b) \<in> set (body_binds p m body)\<close> module_facts(4) [OF \<open>map_of src m = Some (p, body)\<close>]
      by (simp add: eq_key_imp_eq_value)
    then show ?thesis using inner(3) inner.IH by blast
  qed (use inner.hyps in auto)
qed (auto elim: denotes.cases)

end

end
