(* ===== verification/Package.thy ===== *)
theory Package
  imports Linking
begin

text \<open>
  The modules of the package as sequences of top-level statements: the import blocks, the names
  that are defined with what their definitions read while the module is executed (decorators, base classes,
  default values, right-hand sides and the helpers these call), and the lists \<^verbatim>\<open>__all__\<close>.  All modules
  postpone annotations, so that these are not read.  The modules are listed in dependency order.
\<close>

definition from_import :: "nat \<Rightarrow> dotted \<Rightarrow> string list \<Rightarrow> stmt" where
  "from_import level path names = ImportFrom level path (map (\<lambda>x. (x, None)) names)"

section \<open>Modules\<close>

subsection \<open>The core modules\<close>

definition errors_all :: "string list" where
  "errors_all =
    [''PactixError'', ''ValidationError'', ''PersistenceError'', ''RoutingError'']"

definition errors_module :: "stmt list" where
  "errors_module =
    [from_import 0 [''__future__''] [''annotations''], Define ''PactixError'' [''Exception''],
     Define ''ValidationError'' [''PactixError''], Define ''PersistenceError'' [''PactixError''],
     Define ''RoutingError'' [''PactixError''], Define ''__all__'' []]"

definition config_all :: "string list" where
  "config_all =
    [''RetryPolicy'', ''NotifyMode'', ''WakeupPolicy'', ''PactixConfig'']"

definition config_module :: "stmt list" where
  "config_module =
    [from_import 0 [''__future__''] [''annotations''], Import [''enum''] None,
     from_import 0 [''dataclasses''] [''dataclass'', ''field''], from_import 0 [''datetime''] [''timedelta''],
     from_import 0 [''pactix'', ''errors''] [''ValidationError''],
     Define ''RetryPolicy'' [''dataclass'', ''timedelta''], Define ''NotifyMode'' [''enum'', ''classmethod''],
     Define ''WakeupPolicy'' [''dataclass'', ''NotifyMode'', ''timedelta''],
     Define ''PactixConfig'' [''dataclass'', ''timedelta'', ''field'', ''RetryPolicy'', ''WakeupPolicy''],
     Define ''__all__'' []]"

definition message_all :: "string list" where
  "message_all =
    [''MessageMetadata'', ''MessageEnvelope'', ''JsonValue'']"

definition message_module :: "stmt list" where
  "message_module =
    [from_import 0 [''__future__''] [''annotations''], Import [''uuid''] None,
     from_import 0 [''collections'', ''abc''] [''Mapping''],
     from_import 0 [''dataclasses''] [''dataclass'', ''field'', ''replace''],
     from_import 0 [''datetime''] [''UTC'', ''datetime''], from_import 0 [''typing''] [''Any''],
     from_import 0 [''pactix'', ''errors''] [''ValidationError''], Define ''JsonValue'' [''Any''],
     Define ''_utcnow'' [],
     Define ''MessageMetadata'' [''dataclass'', ''field'', ''dict'', ''_utcnow'', ''classmethod''],
     Define ''MessageEnvelope'' [''dataclass''], Define ''__all__'' []]"

definition executor_all :: "string list" where
  "executor_all =
    [''Executor'']"

definition executor_module :: "stmt list" where
  "executor_module =
    [from_import 0 [''__future__''] [''annotations''], from_import 0 [''collections'', ''abc''] [''Mapping''],
     from_import 0 [''typing''] [''Any'', ''Protocol''], from_import 0 [''sqlalchemy''] [''Executable''],
     from_import 0 [''sqlalchemy'', ''engine''] [''Result''], Define ''Executor'' [''Protocol''],
     Define ''__all__'' []]"

definition dialect_all :: "string list" where
  "dialect_all =
    [''POSTGRESQL'', ''MYSQL'', ''dialect_name'', ''naive_utc'', ''aware_utc'']"

definition dialect_module :: "stmt list" where
  "dialect_module =
    [from_import 0 [''__future__''] [''annotations''], from_import 0 [''datetime''] [''UTC'', ''datetime''],
     from_import 0 [''sqlalchemy'', ''ext'', ''asyncio''] [''AsyncConnection'', ''AsyncSession''],
     from_import 0 [''pactix'', ''_executor''] [''Executor''], Define ''POSTGRESQL'' [], Define ''MYSQL'' [],
     Define ''dialect_name'' [], Define ''naive_utc'' [], Define ''aware_utc'' [], Define ''__all__'' []]"

definition retry_all :: "string list" where
  "retry_all =
    [''RetryAction'', ''RetryStore'', ''next_retry_at'', ''handle_retryable_failure'']"

definition retry_module :: "stmt list" where
  "retry_module =
    [from_import 0 [''__future__''] [''annotations''], Import [''enum''] None, Import [''math''] None,
     Import [''uuid''] None, from_import 0 [''datetime''] [''datetime'', ''timedelta''],
     from_import 0 [''typing''] [''Protocol''], from_import 0 [''pactix'', ''_executor''] [''Executor''],
     from_import 0 [''pactix'', ''config''] [''RetryPolicy''], Define ''RetryAction'' [''enum''],
     Define ''RetryStore'' [''Protocol'', ''property''], Define ''next_retry_at'' [],
     Define ''handle_retryable_failure'' [], Define ''__all__'' []]"

subsection \<open>Tables\<close>

definition db_tables_all :: "string list" where
  "db_tables_all =
    [''metadata'', ''outbox_message'', ''inbox_message'', ''OUTBOX_STATUSES'', ''INBOX_STATUSES'']"

definition db_tables_module :: "stmt list" where
  "db_tables_module =
    [from_import 0 [''__future__''] [''annotations''], from_import 0 [''typing''] [''Any''],
     from_import 0 [''sqlalchemy''] [''CheckConstraint'', ''Column'', ''Index'', ''Integer'', ''MetaData'',
       ''String'', ''Table'', ''Text'', ''UniqueConstraint'', ''Uuid'', ''text''],
     from_import 0 [''sqlalchemy'', ''dialects''] [''mysql''],
     from_import 0 [''sqlalchemy'', ''dialects'', ''postgresql''] [''JSONB'', ''TIMESTAMP'', ''UUID''],
     from_import 0 [''sqlalchemy'', ''ext'', ''compiler''] [''compiles''],
     from_import 0 [''sqlalchemy'', ''sql'', ''compiler''] [''SQLCompiler''],
     from_import 0 [''sqlalchemy'', ''sql'', ''expression''] [''TextClause''],
     from_import 0 [''sqlalchemy'', ''types''] [''TypeEngine''], Define ''metadata'' [''MetaData''],
     Define ''OUTBOX_STATUSES'' [], Define ''INBOX_STATUSES'' [], Define ''_JsonEmptyObject'' [''TextClause''],
     Define ''_compile_json_empty_object'' [''compiles'', ''_JsonEmptyObject''],
     Define ''_compile_json_empty_object_mysql'' [''compiles'', ''_JsonEmptyObject''], Define ''_uuid'' [],
     Define ''_jsonb'' [], Define ''_timestamptz'' [], Define ''_text'' [], Define ''_indexed_text'' [],
     Define ''_json_default'' [],
     Define ''outbox_message'' [''Table'', ''metadata'', ''Column'', ''_uuid'', ''_indexed_text'', ''_text'',
       ''_jsonb'', ''_json_default'', ''Integer'', ''text'', ''_timestamptz'', ''CheckConstraint'', ''Index'',
       ''Uuid'', ''UUID'', ''String'', ''Text'', ''JSONB'', ''mysql'', ''TIMESTAMP'', ''_JsonEmptyObject''],
     Define ''inbox_message'' [''Table'', ''metadata'', ''Column'', ''_uuid'', ''_indexed_text'', ''_text'',
       ''_jsonb'', ''_json_default'', ''Integer'', ''text'', ''_timestamptz'', ''CheckConstraint'',
       ''UniqueConstraint'', ''Index'', ''Uuid'', ''UUID'', ''String'', ''Text'', ''JSONB'', ''mysql'',
       ''TIMESTAMP'', ''_JsonEmptyObject''],
     Define ''__all__'' []]"

definition db_all :: "string list" where
  "db_all =
    [''inbox_message'', ''metadata'', ''outbox_message'']"

definition db_package :: "stmt list" where
  "db_package =
    [from_import 0 [''__future__''] [''annotations''],
     from_import 1 [''tables''] [''inbox_message'', ''metadata'', ''outbox_message''], Define ''__all__'' []]"

subsection \<open>Outbox\<close>

definition outbox_model_all :: "string list" where
  "outbox_model_all =
    [''OutboxStatus'', ''OutboxMessageRecord'']"

definition outbox_model_module :: "stmt list" where
  "outbox_model_module =
    [from_import 0 [''__future__''] [''annotations''], Import [''enum''] None, Import [''uuid''] None,
     from_import 0 [''dataclasses''] [''dataclass''], from_import 0 [''datetime''] [''UTC'', ''datetime''],
     from_import 0 [''pactix'', ''config''] [''RetryPolicy''],
     from_import 0 [''pactix'', ''errors''] [''PersistenceError''],
     from_import 0 [''pactix'', ''message''] [''JsonValue'', ''MessageEnvelope'', ''MessageMetadata''],
     Define ''_utcnow'' [], Define ''OutboxStatus'' [''enum'', ''classmethod''],
     Define ''OutboxMessageRecord'' [''dataclass'', ''classmethod''], Define ''__all__'' []]"

definition outbox_publisher_all :: "string list" where
  "outbox_publisher_all =
    [''PublishOutcome'', ''OutboxPublisher'', ''outbox_publisher'', ''PublisherRegistry'']"

definition outbox_publisher_module :: "stmt list" where
  "outbox_publisher_module =
    [from_import 0 [''__future__''] [''annotations''], Import [''asyncio''] None, Import [''enum''] None,
     from_import 0 [''collections'', ''abc''] [''Awaitable'', ''Callable'', ''Iterable''],
     from_import 0 [''dataclasses''] [''dataclass''],
     from_import 0 [''typing''] [''Protocol'', ''runtime_checkable''],
     from_import 0 [''pactix'', ''errors''] [''RoutingError''],
     from_import 1 [''model''] [''OutboxMessageRecord''], Define ''_Kind'' [''enum''],
     Define ''PublishOutcome'' [''dataclass'', ''classmethod'', ''property''],
     Define ''OutboxPublisher'' [''runtime_checkable'', ''Protocol''],
     Define ''PublishFn'' [''Callable'', ''OutboxMessageRecord'', ''Awaitable'', ''PublishOutcome''],
     Define ''_FnOutboxPublisher'' [], Define ''outbox_publisher'' [], Define ''PublisherRegistry'' [],
     Define ''__all__'' []]"

definition outbox_store_all :: "string list" where
  "outbox_store_all =
    [''OutboxStore'']"

definition outbox_store_module :: "stmt list" where
  "outbox_store_module =
    [from_import 0 [''__future__''] [''annotations''], Import [''uuid''] None,
     from_import 0 [''datetime''] [''UTC'', ''datetime''], from_import 0 [''typing''] [''Any'', ''cast''],
     from_import 0 [''sqlalchemy''] [''text''], from_import 0 [''sqlalchemy'', ''engine''] [''RowMapping''],
     from_import 0 [''pactix'', ''_dialect''] [''MYSQL'', ''aware_utc'', ''dialect_name'', ''naive_utc''],
     from_import 0 [''pactix'', ''_executor''] [''Executor''],
     from_import 0 [''pactix'', ''config''] [''PactixConfig'', ''RetryPolicy''],
     from_import 0 [''pactix'', ''db'', ''tables''] [''outbox_message''],
     from_import 0 [''pactix'', ''message''] [''MessageEnvelope''],
     from_import 1 [''model''] [''OutboxMessageRecord'', ''OutboxStatus''],
     Define ''_CLAIM_READY_SQL'' [''text'', ''outbox_message''],
     Define ''_CLAIM_READY_MYSQL_SQL'' [''text'', ''outbox_message''], Define ''OutboxStore'' [''property''],
     Define ''_now'' [], Define ''_record_values'' [], Define ''_map_record'' [], Define ''__all__'' []]"

definition outbox_runner_all :: "string list" where
  "outbox_runner_all =
    [''OutboxRunner'', ''RunSummary'']"

definition outbox_runner_module :: "stmt list" where
  "outbox_runner_module =
    [from_import 0 [''__future__''] [''annotations''], from_import 0 [''dataclasses''] [''dataclass''],
     from_import 0 [''datetime''] [''UTC'', ''datetime''],
     from_import 0 [''sqlalchemy'', ''ext'', ''asyncio''] [''AsyncEngine''],
     from_import 0 [''pactix'', ''_retry''] [''RetryAction'', ''handle_retryable_failure''],
     from_import 1 [''publisher''] [''PublisherRegistry''], from_import 1 [''store''] [''OutboxStore''],
     Define ''_utcnow'' [], Define ''RunSummary'' [''dataclass''], Define ''OutboxRunner'' [],
     Define ''__all__'' []]"

definition outbox_wakeup_all :: "string list" where
  "outbox_wakeup_all =
    [''LocalWakeup'', ''FallbackBackoff'', ''PostgresWakeListener'', ''CoalescedNotifier'', ''WakeupRunner'']"

definition outbox_wakeup_module :: "stmt list" where
  "outbox_wakeup_module =
    [from_import 0 [''__future__''] [''annotations''], Import [''asyncio''] None, Import [''time''] None,
     from_import 0 [''collections'', ''abc''] [''Awaitable'', ''Callable''],
     from_import 0 [''datetime''] [''timedelta''],
     from_import 0 [''typing''] [''Any'', ''Protocol'', ''cast''], from_import 0 [''sqlalchemy''] [''text''],
     from_import 0 [''sqlalchemy'', ''ext'', ''asyncio''] [''AsyncConnection'', ''AsyncEngine''],
     from_import 0 [''pactix'', ''config''] [''NotifyMode'', ''WakeupPolicy''],
     from_import 0 [''pactix'', ''errors''] [''ValidationError''],
     from_import 1 [''runner''] [''OutboxRunner''], Define ''_MAX_PASSES_PER_WAKE'' [],
     Define ''_NotifyCallback'' [''Callable''], Define ''_DriverConnection'' [''Protocol''],
     Define ''LocalWakeup'' [], Define ''FallbackBackoff'' [''property''], Define ''PostgresWakeListener'' [],
     Define ''CoalescedNotifier'' [], Define ''WakeupRunner'' [], Define ''__all__'' []]"

definition outbox_all :: "string list" where
  "outbox_all =
    [''OutboxMessageRecord'', ''OutboxStatus'', ''OutboxPublisher'', ''PublisherRegistry'', ''PublishOutcome'',
     ''outbox_publisher'', ''OutboxRunner'', ''RunSummary'', ''OutboxStore'', ''LocalWakeup'',
     ''FallbackBackoff'', ''PostgresWakeListener'', ''CoalescedNotifier'', ''WakeupRunner'']"

definition outbox_package :: "stmt list" where
  "outbox_package =
    [from_import 0 [''__future__''] [''annotations''],
     from_import 1 [''model''] [''OutboxMessageRecord'', ''OutboxStatus''],
     from_import 1 [''publisher''] [''OutboxPublisher'', ''PublisherRegistry'', ''PublishOutcome'',
       ''outbox_publisher''],
     from_import 1 [''runner''] [''OutboxRunner'', ''RunSummary''],
     from_import 1 [''store''] [''OutboxStore''],
     from_import 1 [''wakeup''] [''CoalescedNotifier'', ''FallbackBackoff'', ''LocalWakeup'',
       ''PostgresWakeListener'', ''WakeupRunner''],
     Define ''__all__'' []]"

subsection \<open>Inbox\<close>

definition inbox_model_all :: "string list" where
  "inbox_model_all =
    [''InboxStatus'', ''InboxMessageRecord'']"

definition inbox_model_module :: "stmt list" where
  "inbox_model_module =
    [from_import 0 [''__future__''] [''annotations''], Import [''enum''] None, Import [''uuid''] None,
     from_import 0 [''dataclasses''] [''dataclass''], from_import 0 [''datetime''] [''UTC'', ''datetime''],
     from_import 0 [''pactix'', ''config''] [''RetryPolicy''],
     from_import 0 [''pactix'', ''errors''] [''PersistenceError'', ''ValidationError''],
     from_import 0 [''pactix'', ''message''] [''JsonValue'', ''MessageEnvelope'', ''MessageMetadata''],
     Define ''_utcnow'' [], Define ''InboxStatus'' [''enum'', ''classmethod''],
     Define ''InboxMessageRecord'' [''dataclass'', ''classmethod''], Define ''__all__'' []]"

definition inbox_handler_all :: "string list" where
  "inbox_handler_all =
    [''HandleOutcome'', ''InboxHandler'', ''inbox_handler'']"

definition inbox_handler_module :: "stmt list" where
  "inbox_handler_module =
    [from_import 0 [''__future__''] [''annotations''], Import [''enum''] None,
     from_import 0 [''collections'', ''abc''] [''Awaitable'', ''Callable''],
     from_import 0 [''dataclasses''] [''dataclass''],
     from_import 0 [''typing''] [''Protocol'', ''runtime_checkable''],
     from_import 1 [''model''] [''InboxMessageRecord''], Define ''_Kind'' [''enum''],
     Define ''HandleOutcome'' [''dataclass'', ''classmethod'', ''property''],
     Define ''InboxHandler'' [''runtime_checkable'', ''Protocol''],
     Define ''HandleFn'' [''Callable'', ''InboxMessageRecord'', ''Awaitable'', ''HandleOutcome''],
     Define ''_FnInboxHandler'' [], Define ''inbox_handler'' [], Define ''__all__'' []]"

definition inbox_idempotency_all :: "string list" where
  "inbox_idempotency_all =
    [''IdempotencyDecision'', ''IdempotencyHook'', ''idempotency_hook'', ''StaticIdempotency'', ''ProcessAll'']"

definition inbox_idempotency_module :: "stmt list" where
  "inbox_idempotency_module =
    [from_import 0 [''__future__''] [''annotations''], Import [''enum''] None,
     from_import 0 [''collections'', ''abc''] [''Awaitable'', ''Callable''],
     from_import 0 [''typing''] [''Protocol'', ''runtime_checkable''],
     from_import 1 [''model''] [''InboxMessageRecord''], Define ''IdempotencyDecision'' [''enum''],
     Define ''IdempotencyHook'' [''runtime_checkable'', ''Protocol''],
     Define ''EvaluateFn'' [''Callable'', ''InboxMessageRecord'', ''Awaitable'', ''IdempotencyDecision''],
     Define ''_FnIdempotencyHook'' [], Define ''idempotency_hook'' [],
     Define ''StaticIdempotency'' [''classmethod''], Define ''ProcessAll'' [], Define ''__all__'' []]"

definition inbox_stale_all :: "string list" where
  "inbox_stale_all =
    [''StaleEventDecision'', ''StaleEventFilter'', ''stale_event_filter'', ''AcceptAllEvents'']"

definition inbox_stale_module :: "stmt list" where
  "inbox_stale_module =
    [from_import 0 [''__future__''] [''annotations''], Import [''enum''] None,
     from_import 0 [''collections'', ''abc''] [''Awaitable'', ''Callable''],
     from_import 0 [''typing''] [''Protocol'', ''runtime_checkable''],
     from_import 1 [''model''] [''InboxMessageRecord''], Define ''StaleEventDecision'' [''enum''],
     Define ''StaleEventFilter'' [''runtime_checkable'', ''Protocol''],
     Define ''EvaluateFn'' [''Callable'', ''InboxMessageRecord'', ''Awaitable'', ''StaleEventDecision''],
     Define ''_FnStaleEventFilter'' [], Define ''stale_event_filter'' [], Define ''AcceptAllEvents'' [],
     Define ''__all__'' []]"

definition inbox_store_all :: "string list" where
  "inbox_store_all =
    [''InboxStore'', ''ReceiveOutcome'']"

definition inbox_store_module :: "stmt list" where
  "inbox_store_module =
    [from_import 0 [''__future__''] [''annotations''], Import [''uuid''] None,
     from_import 0 [''dataclasses''] [''dataclass''], from_import 0 [''datetime''] [''UTC'', ''datetime''],
     from_import 0 [''typing''] [''Any'', ''cast''], from_import 0 [''sqlalchemy''] [''text''],
     ImportFrom 0 [''sqlalchemy'', ''dialects'', ''mysql''] [(''insert'', Some ''mysql_insert'')],
     ImportFrom 0 [''sqlalchemy'', ''dialects'', ''postgresql''] [(''insert'', Some ''pg_insert'')],
     from_import 0 [''sqlalchemy'', ''engine''] [''RowMapping''],
     from_import 0 [''pactix'', ''_dialect''] [''MYSQL'', ''aware_utc'', ''dialect_name'', ''naive_utc''],
     from_import 0 [''pactix'', ''_executor''] [''Executor''],
     from_import 0 [''pactix'', ''config''] [''PactixConfig'', ''RetryPolicy''],
     from_import 0 [''pactix'', ''db'', ''tables''] [''inbox_message''],
     from_import 0 [''pactix'', ''message''] [''MessageEnvelope''],
     from_import 1 [''model''] [''InboxMessageRecord'', ''InboxStatus''],
     Define ''ReceiveOutcome'' [''dataclass'', ''property''],
     Define ''_CLAIM_READY_FIFO_SQL'' [''text'', ''inbox_message''],
     Define ''_CLAIM_READY_UNORDERED_SQL'' [''text'', ''inbox_message''],
     Define ''_CLAIM_READY_FIFO_MYSQL_SQL'' [''text'', ''inbox_message''],
     Define ''_CLAIM_READY_UNORDERED_MYSQL_SQL'' [''text'', ''inbox_message''],
     Define ''InboxStore'' [''property''], Define ''_now'' [], Define ''_record_values'' [],
     Define ''_map_record'' [], Define ''__all__'' []]"

definition inbox_runner_all :: "string list" where
  "inbox_runner_all =
    [''InboxRunner'', ''RunSummary'']"

definition inbox_runner_module :: "stmt list" where
  "inbox_runner_module =
    [from_import 0 [''__future__''] [''annotations''], Import [''enum''] None,
     from_import 0 [''dataclasses''] [''dataclass''], from_import 0 [''datetime''] [''UTC'', ''datetime''],
     from_import 0 [''sqlalchemy'', ''ext'', ''asyncio''] [''AsyncEngine''],
     from_import 0 [''pactix'', ''_retry''] [''RetryAction'', ''handle_retryable_failure''],
     from_import 1 [''handler''] [''InboxHandler''],
     from_import 1 [''idempotency''] [''IdempotencyDecision'', ''IdempotencyHook''],
     from_import 1 [''stale''] [''AcceptAllEvents'', ''StaleEventDecision'', ''StaleEventFilter''],
     from_import 1 [''store''] [''InboxStore''], Define ''_utcnow'' [], Define ''_Mode'' [''enum''],
     Define ''RunSummary'' [''dataclass''], Define ''InboxRunner'' [''_Mode'', ''classmethod''],
     Define ''__all__'' []]"

definition inbox_all :: "string list" where
  "inbox_all =
    [''HandleOutcome'', ''InboxHandler'', ''inbox_handler'', ''IdempotencyDecision'', ''IdempotencyHook'',
     ''ProcessAll'', ''StaticIdempotency'', ''idempotency_hook'', ''InboxMessageRecord'', ''InboxStatus'',
     ''InboxRunner'', ''RunSummary'', ''AcceptAllEvents'', ''StaleEventDecision'', ''StaleEventFilter'',
     ''stale_event_filter'', ''InboxStore'', ''ReceiveOutcome'']"

definition inbox_package :: "stmt list" where
  "inbox_package =
    [from_import 0 [''__future__''] [''annotations''],
     from_import 1 [''handler''] [''HandleOutcome'', ''InboxHandler'', ''inbox_handler''],
     from_import 1 [''idempotency''] [''IdempotencyDecision'', ''IdempotencyHook'', ''ProcessAll'',
       ''StaticIdempotency'', ''idempotency_hook''],
     from_import 1 [''model''] [''InboxMessageRecord'', ''InboxStatus''],
     from_import 1 [''runner''] [''InboxRunner'', ''RunSummary''],
     from_import 1 [''stale''] [''AcceptAllEvents'', ''StaleEventDecision'', ''StaleEventFilter'',
       ''stale_event_filter''],
     from_import 1 [''store''] [''InboxStore'', ''ReceiveOutcome''], Define ''__all__'' []]"

subsection \<open>The package\<close>

definition pactix_all :: "string list" where
  "pactix_all =
    [''__version__'', ''PactixConfig'', ''RetryPolicy'', ''NotifyMode'', ''WakeupPolicy'', ''PactixError'',
     ''ValidationError'', ''PersistenceError'', ''RoutingError'', ''MessageMetadata'', ''MessageEnvelope'',
     ''OutboxMessageRecord'', ''OutboxStatus'', ''OutboxStore'', ''OutboxPublisher'', ''PublisherRegistry'',
     ''PublishOutcome'', ''outbox_publisher'', ''OutboxRunner'', ''LocalWakeup'', ''FallbackBackoff'',
     ''PostgresWakeListener'', ''CoalescedNotifier'', ''WakeupRunner'', ''InboxMessageRecord'', ''InboxStatus'',
     ''InboxStore'', ''ReceiveOutcome'', ''InboxHandler'', ''HandleOutcome'', ''inbox_handler'',
     ''IdempotencyHook'', ''IdempotencyDecision'', ''idempotency_hook'', ''ProcessAll'', ''StaticIdempotency'',
     ''StaleEventFilter'', ''StaleEventDecision'', ''stale_event_filter'', ''AcceptAllEvents'', ''InboxRunner'']"

definition pactix_package :: "stmt list" where
  "pactix_package =
    [from_import 0 [''__future__''] [''annotations''],
     from_import 0 [''pactix'', ''config''] [''NotifyMode'', ''PactixConfig'', ''RetryPolicy'',
       ''WakeupPolicy''],
     from_import 0 [''pactix'', ''errors''] [''PactixError'', ''PersistenceError'', ''RoutingError'',
       ''ValidationError''],
     from_import 0 [''pactix'', ''inbox''] [''AcceptAllEvents'', ''HandleOutcome'', ''IdempotencyDecision'',
       ''IdempotencyHook'', ''InboxHandler'', ''InboxMessageRecord'', ''InboxRunner'', ''InboxStatus'',
       ''InboxStore'', ''ProcessAll'', ''ReceiveOutcome'', ''StaleEventDecision'', ''StaleEventFilter'',
       ''StaticIdempotency'', ''idempotency_hook'', ''inbox_handler'', ''stale_event_filter''],
     from_import 0 [''pactix'', ''message''] [''MessageEnvelope'', ''MessageMetadata''],
     from_import 0 [''pactix'', ''outbox''] [''CoalescedNotifier'', ''FallbackBackoff'', ''LocalWakeup'',
       ''OutboxMessageRecord'', ''OutboxPublisher'', ''OutboxRunner'', ''OutboxStatus'', ''OutboxStore'',
       ''PostgresWakeListener'', ''PublisherRegistry'', ''PublishOutcome'', ''WakeupRunner'',
       ''outbox_publisher''],
     Define ''__version__'' [], Define ''__all__'' []]"

subsection \<open>Transports\<close>

definition transport_http_headers_all :: "string list" where
  "transport_http_headers_all =
    [''EVENT_TYPE_HEADER'', ''MESSAGE_ID_HEADER'', ''MESSAGE_KEY_HEADER'', ''ORDERING_KEY_HEADER'',
     ''CORRELATION_ID_HEADER'']"

definition transport_http_headers_module :: "stmt list" where
  "transport_http_headers_module =
    [from_import 0 [''__future__''] [''annotations''], Define ''EVENT_TYPE_HEADER'' [],
     Define ''MESSAGE_ID_HEADER'' [], Define ''MESSAGE_KEY_HEADER'' [], Define ''ORDERING_KEY_HEADER'' [],
     Define ''CORRELATION_ID_HEADER'' [], Define ''__all__'' []]"

definition transport_http_inbox_all :: "string list" where
  "transport_http_inbox_all =
    [''HttpInboundMessage'', ''HttpInboxEndpoint'', ''make_inbox_endpoint'', ''inbox_route'']"

definition transport_http_inbox_module :: "stmt list" where
  "transport_http_inbox_module =
    [from_import 0 [''__future__''] [''annotations''],
     from_import 0 [''collections'', ''abc''] [''Awaitable'', ''Callable'', ''Mapping''],
     from_import 0 [''dataclasses''] [''dataclass'', ''field''],
     from_import 0 [''typing''] [''TYPE_CHECKING'', ''Any''],
     from_import 0 [''sqlalchemy'', ''ext'', ''asyncio''] [''AsyncEngine''],
     from_import 0 [''pactix'', ''errors''] [''PactixError'', ''ValidationError''],
     from_import 0 [''pactix'', ''inbox''] [''InboxStore'', ''ReceiveOutcome''],
     from_import 0 [''pactix'', ''message''] [''JsonValue'', ''MessageEnvelope'', ''MessageMetadata''],
     from_import 1 [''headers''] [''CORRELATION_ID_HEADER'', ''EVENT_TYPE_HEADER'', ''MESSAGE_ID_HEADER'',
       ''MESSAGE_KEY_HEADER'', ''ORDERING_KEY_HEADER''],
     IfTypeChecking
       [from_import 0 [''starlette'', ''requests''] [''Request''],
        from_import 0 [''starlette'', ''responses''] [''Response'']],
     Define ''HttpInboundMessage'' [''dataclass'', ''field'', ''classmethod''],
     Define ''HttpInboxEndpoint'' [], Define ''make_inbox_endpoint'' [], Define ''inbox_route'' [],
     Define ''__all__'' []]"

definition transport_http_publisher_all :: "string list" where
  "transport_http_publisher_all =
    [''HttpEndpoint'', ''HttpEndpointRouter'', ''HttpOutboundRequest'', ''HttpResponse'',
     ''HttpRequestClient'', ''HttpOutboxPublisher'', ''HttpxRequestClient'']"

definition transport_http_publisher_module :: "stmt list" where
  "transport_http_publisher_module =
    [from_import 0 [''__future__''] [''annotations''], Import [''asyncio''] None,
     from_import 0 [''dataclasses''] [''dataclass'', ''field'', ''replace''],
     from_import 0 [''pactix'', ''errors''] [''RoutingError''],
     from_import 0 [''pactix'', ''message''] [''JsonValue''],
     from_import 0 [''pactix'', ''outbox''] [''OutboxMessageRecord'', ''PublishOutcome''],
     from_import 1 [''headers''] [''CORRELATION_ID_HEADER'', ''EVENT_TYPE_HEADER'', ''MESSAGE_ID_HEADER'',
       ''MESSAGE_KEY_HEADER'', ''ORDERING_KEY_HEADER''],
     Define ''HttpEndpoint'' [''dataclass'', ''field'', ''dict''],
     Define ''HttpOutboundRequest'' [''dataclass'', ''field'', ''dict''],
     Define ''HttpResponse'' [''dataclass''], Define ''HttpRequestClient'' [],
     Define ''HttpEndpointRouter'' [], Define ''HttpOutboxPublisher'' [''staticmethod''],
     Define ''HttpxRequestClient'' [''HttpRequestClient''], Define ''__all__'' []]"

definition transport_http_all :: "string list" where
  "transport_http_all =
    [''EVENT_TYPE_HEADER'', ''MESSAGE_ID_HEADER'', ''MESSAGE_KEY_HEADER'', ''ORDERING_KEY_HEADER'',
     ''CORRELATION_ID_HEADER'', ''HttpInboundMessage'', ''HttpInboxEndpoint'', ''inbox_route'',
     ''make_inbox_endpoint'', ''HttpEndpoint'', ''HttpEndpointRouter'', ''HttpOutboundRequest'',
     ''HttpOutboxPublisher'', ''HttpRequestClient'', ''HttpResponse'', ''HttpxRequestClient'']"

definition transport_http_package :: "stmt list" where
  "transport_http_package =
    [from_import 0 [''__future__''] [''annotations''],
     from_import 1 [''headers''] [''CORRELATION_ID_HEADER'', ''EVENT_TYPE_HEADER'', ''MESSAGE_ID_HEADER'',
       ''MESSAGE_KEY_HEADER'', ''ORDERING_KEY_HEADER''],
     from_import 1 [''inbox''] [''HttpInboundMessage'', ''HttpInboxEndpoint'', ''inbox_route'',
       ''make_inbox_endpoint''],
     from_import 1 [''publisher''] [''HttpEndpoint'', ''HttpEndpointRouter'', ''HttpOutboundRequest'',
       ''HttpOutboxPublisher'', ''HttpRequestClient'', ''HttpResponse'', ''HttpxRequestClient''],
     Define ''__all__'' []]"

definition transport_kafka_consumer_all :: "string list" where
  "transport_kafka_consumer_all =
    [''KafkaInboundMessage'', ''KafkaOffsetCommitter'', ''KafkaInboxConsumer'', ''AIOKafkaOffsetCommitter'']"

definition transport_kafka_consumer_module :: "stmt list" where
  "transport_kafka_consumer_module =
    [from_import 0 [''__future__''] [''annotations''], Import [''json''] None,
     from_import 0 [''dataclasses''] [''dataclass'', ''field''], from_import 0 [''typing''] [''Any''],
     from_import 0 [''sqlalchemy'', ''ext'', ''asyncio''] [''AsyncEngine''],
     from_import 0 [''pactix'', ''errors''] [''ValidationError''],
     from_import 0 [''pactix'', ''inbox''] [''InboxStore'', ''ReceiveOutcome''],
     from_import 0 [''pactix'', ''message''] [''JsonValue'', ''MessageEnvelope'', ''MessageMetadata''],
     Define ''KafkaInboundMessage'' [''dataclass'', ''field'', ''dict'', ''classmethod''],
     Define ''KafkaOffsetCommitter'' [], Define ''KafkaInboxConsumer'' [],
     Define ''AIOKafkaOffsetCommitter'' [''KafkaOffsetCommitter''], Define ''__all__'' []]"

definition transport_kafka_publisher_all :: "string list" where
  "transport_kafka_publisher_all =
    [''KafkaProducedMessage'', ''KafkaProducerClient'', ''KafkaTopicRouter'', ''KafkaOutboxPublisher'',
     ''AIOKafkaProducerClient'']"

definition transport_kafka_publisher_module :: "stmt list" where
  "transport_kafka_publisher_module =
    [from_import 0 [''__future__''] [''annotations''], Import [''asyncio''] None, Import [''json''] None,
     from_import 0 [''dataclasses''] [''dataclass'', ''field''],
     from_import 0 [''pactix'', ''errors''] [''RoutingError''],
     from_import 0 [''pactix'', ''outbox''] [''OutboxMessageRecord'', ''PublishOutcome''],
     Define ''KafkaProducedMessage'' [''dataclass'', ''field'', ''dict''], Define ''KafkaProducerClient'' [],
     Define ''KafkaTopicRouter'' [], Define ''KafkaOutboxPublisher'' [],
     Define ''AIOKafkaProducerClient'' [''KafkaProducerClient'', ''classmethod''], Define ''__all__'' []]"

definition transport_kafka_all :: "string list" where
  "transport_kafka_all =
    [''AIOKafkaOffsetCommitter'', ''KafkaInboundMessage'', ''KafkaInboxConsumer'', ''KafkaOffsetCommitter'',
     ''AIOKafkaProducerClient'', ''KafkaOutboxPublisher'', ''KafkaProducedMessage'', ''KafkaProducerClient'',
     ''KafkaTopicRouter'']"

definition transport_kafka_package :: "stmt list" where
  "transport_kafka_package =
    [from_import 0 [''__future__''] [''annotations''],
     from_import 1 [''consumer''] [''AIOKafkaOffsetCommitter'', ''KafkaInboundMessage'',
       ''KafkaInboxConsumer'', ''KafkaOffsetCommitter''],
     from_import 1 [''publisher''] [''AIOKafkaProducerClient'', ''KafkaOutboxPublisher'',
       ''KafkaProducedMessage'', ''KafkaProducerClient'', ''KafkaTopicRouter''],
     Define ''__all__'' []]"

definition transport_package :: "stmt list" where
  "transport_package =
    []"

subsection \<open>Programs that use the package\<close>

definition worker_loop_script :: "stmt list" where
  "worker_loop_script =
    [from_import 0 [''__future__''] [''annotations''], Import [''asyncio''] None, Import [''logging''] None,
     from_import 0 [''sqlalchemy'', ''ext'', ''asyncio''] [''AsyncEngine'', ''create_async_engine''],
     from_import 0 [''pactix''] [''HandleOutcome'', ''InboxRunner'', ''InboxStore'', ''LocalWakeup'',
       ''MessageEnvelope'', ''MessageMetadata'', ''OutboxRunner'', ''OutboxStore'', ''PactixConfig'',
       ''ProcessAll'', ''PublisherRegistry'', ''PublishOutcome'', ''WakeupPolicy'', ''WakeupRunner'',
       ''inbox_handler'', ''outbox_publisher''],
     Define ''log'' [''logging''], Define ''publish'' [], Define ''handle'' [], Define ''append_one'' [],
     Define ''run_loop'' [], Define ''run_wakeup_loop'' [], Define ''main'' []]"

definition env_script :: "stmt list" where
  "env_script =
    [from_import 0 [''__future__''] [''annotations''], Import [''os''] None,
     from_import 0 [''alembic''] [''context''],
     from_import 0 [''sqlalchemy''] [''engine_from_config'', ''pool''],
     ImportFrom 0 [''pactix'', ''db'', ''tables''] [(''metadata'', Some ''target_metadata'')],
     Define ''config'' [''context''], Define ''_url'' [''os'', ''config''], Evaluate [''_url'', ''config''],
     Define ''run_migrations_offline'' [], Define ''run_migrations_online'' [],
     Evaluate [''context'', ''run_migrations_offline'', ''run_migrations_online'', ''target_metadata'',
       ''config'', ''engine_from_config'', ''pool'']]"

definition v0001_script :: "stmt list" where
  "v0001_script =
    [from_import 0 [''__future__''] [''annotations''], from_import 0 [''collections'', ''abc''] [''Sequence''],
     Import [''sqlalchemy''] (Some ''sa''), from_import 0 [''alembic''] [''op''],
     from_import 0 [''sqlalchemy'', ''dialects''] [''mysql'', ''postgresql''], Define ''revision'' [],
     Define ''down_revision'' [], Define ''branch_labels'' [], Define ''depends_on'' [], Define ''upgrade'' [],
     Define ''_upgrade_postgresql'' [], Define ''_upgrade_mysql'' [], Define ''downgrade'' []]"

definition v0002_script :: "stmt list" where
  "v0002_script =
    [from_import 0 [''__future__''] [''annotations''], from_import 0 [''collections'', ''abc''] [''Sequence''],
     Import [''sqlalchemy''] (Some ''sa''), from_import 0 [''alembic''] [''op''],
     from_import 0 [''sqlalchemy'', ''dialects''] [''mysql'', ''postgresql''], Define ''revision'' [],
     Define ''down_revision'' [], Define ''branch_labels'' [], Define ''depends_on'' [], Define ''upgrade'' [],
     Define ''_upgrade_postgresql'' [], Define ''_upgrade_mysql'' [], Define ''downgrade'' []]"

definition v0003_script :: "stmt list" where
  "v0003_script =
    [from_import 0 [''__future__''] [''annotations''], from_import 0 [''collections'', ''abc''] [''Sequence''],
     from_import 0 [''alembic''] [''op''], Define ''revision'' [], Define ''down_revision'' [],
     Define ''branch_labels'' [], Define ''depends_on'' [], Define ''upgrade'' [], Define ''downgrade'' []]"

section \<open>The whole\<close>

definition core_sources :: sources where
  "core_sources =
    [([''pactix'', ''errors''], False, errors_module),
     ([''pactix'', ''config''], False, config_module),
     ([''pactix'', ''message''], False, message_module),
     ([''pactix'', ''_executor''], False, executor_module),
     ([''pactix'', ''_dialect''], False, dialect_module),
     ([''pactix'', ''_retry''], False, retry_module)]"

definition outbox_sources :: sources where
  "outbox_sources =
    [([''pactix'', ''db'', ''tables''], False, db_tables_module),
     ([''pactix'', ''db''], True, db_package),
     ([''pactix'', ''outbox'', ''model''], False, outbox_model_module),
     ([''pactix'', ''outbox'', ''publisher''], False, outbox_publisher_module),
     ([''pactix'', ''outbox'', ''store''], False, outbox_store_module),
     ([''pactix'', ''outbox'', ''runner''], False, outbox_runner_module),
     ([''pactix'', ''outbox'', ''wakeup''], False, outbox_wakeup_module),
     ([''pactix'', ''outbox''], True, outbox_package)]"

definition inbox_sources :: sources where
  "inbox_sources =
    [([''pactix'', ''inbox'', ''model''], False, inbox_model_module),
     ([''pactix'', ''inbox'', ''handler''], False, inbox_handler_module),
     ([''pactix'', ''inbox'', ''idempotency''], False, inbox_idempotency_module),
     ([''pactix'', ''inbox'', ''stale''], False, inbox_stale_module),
     ([''pactix'', ''inbox'', ''store''], False, inbox_store_module),
     ([''pactix'', ''inbox'', ''runner''], False, inbox_runner_module),
     ([''pactix'', ''inbox''], True, inbox_package),
     ([''pactix''], True, pactix_package)]"

definition transport_sources :: sources where
  "transport_sources =
    [([''pactix'', ''transport'', ''http'', ''headers''], False, transport_http_headers_module),
     ([''pactix'', ''transport'', ''http'', ''inbox''], False, transport_http_inbox_module),
     ([''pactix'', ''transport'', ''http'', ''publisher''], False, transport_http_publisher_module),
     ([''pactix'', ''transport'', ''http''], True, transport_http_package),
     ([''pactix'', ''transport'', ''kafka'', ''consumer''], False, transport_kafka_consumer_module),
     ([''pactix'', ''transport'', ''kafka'', ''publisher''], False, transport_kafka_publisher_module),
     ([''pactix'', ''transport'', ''kafka''], True, transport_kafka_package),
     ([''pactix'', ''transport''], True, transport_package)]"

definition pactix_sources :: sources where
  "pactix_sources = core_sources @ outbox_sources @ inbox_sources @ transport_sources"

definition program_sources :: sources where
  "program_sources =
    [([''worker_loop''], False, worker_loop_script),
     ([''env''], False, env_script),
     ([''0001_create_outbox_message''], False, v0001_script),
     ([''0002_create_inbox_message''], False, v0002_script),
     ([''0003_add_outbox_wake_trigger''], False, v0003_script)]"

definition pactix_exports :: "(dotted \<times> string list) list" where
  "pactix_exports =
    [([''pactix'', ''errors''], errors_all),
     ([''pactix'', ''config''], config_all),
     ([''pactix'', ''message''], message_all),
     ([''pactix'', ''_executor''], executor_all),
     ([''pactix'', ''_dialect''], dialect_all),
     ([''pactix'', ''_retry''], retry_all),
     ([''pactix'', ''db'', ''tables''], db_tables_all),
     ([''pactix'', ''db''], db_all),
     ([''pactix'', ''outbox'', ''model''], outbox_model_all),
     ([''pactix'', ''outbox'', ''publisher''], outbox_publisher_all),
     ([''pactix'', ''outbox'', ''store''], outbox_store_all),
     ([''pactix'', ''outbox'', ''runner''], outbox_runner_all),
     ([''pactix'', ''outbox'', ''wakeup''], outbox_wakeup_all),
     ([''pactix'', ''outbox''], outbox_all),
     ([''pactix'', ''inbox'', ''model''], inbox_model_all),
     ([''pactix'', ''inbox'', ''handler''], inbox_handler_all),
     ([''pactix'', ''inbox'', ''idempotency''], inbox_idempotency_all),
     ([''pactix'', ''inbox'', ''stale''], inbox_stale_all),
     ([''pactix'', ''inbox'', ''store''], inbox_store_all),
     ([''pactix'', ''inbox'', ''runner''], inbox_runner_all),
     ([''pactix'', ''inbox''], inbox_all),
     ([''pactix''], pactix_all),
     ([''pactix'', ''transport'', ''http'', ''headers''], transport_http_headers_all),
     ([''pactix'', ''transport'', ''http'', ''inbox''], transport_http_inbox_all),
     ([''pactix'', ''transport'', ''http'', ''publisher''], transport_http_publisher_all),
     ([''pactix'', ''transport'', ''http''], transport_http_all),
     ([''pactix'', ''transport'', ''kafka'', ''consumer''], transport_kafka_consumer_all),
     ([''pactix'', ''transport'', ''kafka'', ''publisher''], transport_kafka_publisher_all),
     ([''pactix'', ''transport'', ''kafka''], transport_kafka_all)]"

definition deployed_sources :: sources where
  "deployed_sources = pactix_sources @ program_sources"

section \<open>What the modules take from elsewhere\<close>

definition standard_library :: "(dotted \<times> string list) list" where
  "standard_library =
    [([''__future__''], [''annotations'']),
     ([''asyncio''], []),
     ([''collections''], []),
     ([''collections'', ''abc''], [''Mapping'', ''Awaitable'', ''Callable'', ''Iterable'', ''Sequence'']),
     ([''dataclasses''], [''dataclass'', ''field'', ''replace'']),
     ([''datetime''], [''timedelta'', ''UTC'', ''datetime'']),
     ([''enum''], []),
     ([''json''], []),
     ([''logging''], []),
     ([''math''], []),
     ([''os''], []),
     ([''time''], []),
     ([''typing''], [''Any'', ''Protocol'', ''runtime_checkable'', ''cast'', ''TYPE_CHECKING'']),
     ([''uuid''], [])]"

definition sqlalchemy_package :: "(dotted \<times> string list) list" where
  "sqlalchemy_package =
    [([''sqlalchemy''], [''Executable'', ''CheckConstraint'', ''Column'', ''Index'', ''Integer'',
       ''MetaData'', ''String'', ''Table'', ''Text'', ''UniqueConstraint'', ''Uuid'', ''text'',
       ''engine_from_config'', ''pool'']),
     ([''sqlalchemy'', ''dialects''], [''mysql'', ''postgresql'']),
     ([''sqlalchemy'', ''dialects'', ''mysql''], [''insert'']),
     ([''sqlalchemy'', ''dialects'', ''postgresql''], [''JSONB'', ''TIMESTAMP'', ''UUID'', ''insert'']),
     ([''sqlalchemy'', ''engine''], [''Result'', ''RowMapping'']),
     ([''sqlalchemy'', ''ext''], []),
     ([''sqlalchemy'', ''ext'', ''asyncio''], [''AsyncConnection'', ''AsyncSession'', ''AsyncEngine'',
       ''create_async_engine'']),
     ([''sqlalchemy'', ''ext'', ''compiler''], [''compiles'']),
     ([''sqlalchemy'', ''sql''], []),
     ([''sqlalchemy'', ''sql'', ''compiler''], [''SQLCompiler'']),
     ([''sqlalchemy'', ''sql'', ''expression''], [''TextClause'']),
     ([''sqlalchemy'', ''types''], [''TypeEngine''])]"

definition alembic_package :: "(dotted \<times> string list) list" where
  "alembic_package =
    [([''alembic''], [''context'', ''op''])]"

end
