(* ===== verification/PackageImports.thy ===== *)
theory PackageImports
  imports Package
begin

text \<open>
  The sources of \<open>Package\<close> are well linked: the tables of lookups, the check of each group of modules and the
  interpretation \<open>deployed\<close> of \<open>linked_package\<close>.  What follows from it: the package can be imported from
  every module and in every order with the standard library and SQLAlchemy alone, the migrations
  with alembic besides, and the public names have one home each.  The last sections are the
  imports inside of functions, which need the optional packages.
\<close>

section \<open>The check\<close>

lemmas source_defs = deployed_sources_def pactix_sources_def core_sources_def outbox_sources_def inbox_sources_def
  transport_sources_def program_sources_def

lemmas module_defs =
  errors_module_def config_module_def message_module_def executor_module_def dialect_module_def
  retry_module_def db_tables_module_def db_package_def outbox_model_module_def outbox_publisher_module_def
  outbox_store_module_def outbox_runner_module_def outbox_wakeup_module_def outbox_package_def
  inbox_model_module_def inbox_handler_module_def inbox_idempotency_module_def inbox_stale_module_def
  inbox_store_module_def inbox_runner_module_def inbox_package_def pactix_package_def
  transport_http_headers_module_def transport_http_inbox_module_def transport_http_publisher_module_def
  transport_http_package_def transport_kafka_consumer_module_def transport_kafka_publisher_module_def
  transport_kafka_package_def transport_package_def worker_loop_script_def env_script_def v0001_script_def
  v0002_script_def v0003_script_def

lemmas export_defs =
  errors_all_def config_all_def message_all_def executor_all_def dialect_all_def retry_all_def
  db_tables_all_def db_all_def outbox_model_all_def outbox_publisher_all_def outbox_store_all_def
  outbox_runner_all_def outbox_wakeup_all_def outbox_all_def inbox_model_all_def inbox_handler_all_def
  inbox_idempotency_all_def inbox_stale_all_def inbox_store_all_def inbox_runner_all_def inbox_all_def
  pactix_all_def transport_http_headers_all_def transport_http_inbox_all_def
  transport_http_publisher_all_def transport_http_all_def transport_kafka_consumer_all_def
  transport_kafka_publisher_all_def transport_kafka_all_def

lemma source_at:
  "map_of deployed_sources [''pactix'', ''errors''] = Some (False, errors_module)" "position deployed_sources [''pactix'', ''errors''] = 0"
  "map_of deployed_sources [''pactix'', ''config''] = Some (False, config_module)" "position deployed_sources [''pactix'', ''config''] = 1"
  "map_of deployed_sources [''pactix'', ''message''] = Some (False, message_module)" "position deployed_sources [''pactix'', ''message''] = 2"
  "map_of deployed_sources [''pactix'', ''_executor''] = Some (False, executor_module)" "position deployed_sources [''pactix'', ''_executor''] = 3"
  "map_of deployed_sources [''pactix'', ''_dialect''] = Some (False, dialect_module)" "position deployed_sources [''pactix'', ''_dialect''] = 4"
  "map_of deployed_sources [''pactix'', ''_retry''] = Some (False, retry_module)" "position deployed_sources [''pactix'', ''_retry''] = 5"
  "map_of deployed_sources [''pactix'', ''db'', ''tables''] = Some (False, db_tables_module)" "position deployed_sources [''pactix'', ''db'', ''tables''] = 6"
  "map_of deployed_sources [''pactix'', ''db''] = Some (True, db_package)" "position deployed_sources [''pactix'', ''db''] = 7"
  "map_of deployed_sources [''pactix'', ''outbox'', ''model''] = Some (False, outbox_model_module)" "position deployed_sources [''pactix'', ''outbox'', ''model''] = 8"
  "map_of deployed_sources [''pactix'', ''outbox'', ''publisher''] = Some (False, outbox_publisher_module)" "position deployed_sources [''pactix'', ''outbox'', ''publisher''] = 9"
  "map_of deployed_sources [''pactix'', ''outbox'', ''store''] = Some (False, outbox_store_module)" "position deployed_sources [''pactix'', ''outbox'', ''store''] = 10"
  "map_of deployed_sources [''pactix'', ''outbox'', ''runner''] = Some (False, outbox_runner_module)" "position deployed_sources [''pactix'', ''outbox'', ''runner''] = 11"
  "map_of deployed_sources [''pactix'', ''outbox'', ''wakeup''] = Some (False, outbox_wakeup_module)" "position deployed_sources [''pactix'', ''outbox'', ''wakeup''] = 12"
  "map_of deployed_sources [''pactix'', ''outbox''] = Some (True, outbox_package)" "position deployed_sources [''pactix'', ''outbox''] = 13"
  "map_of deployed_sources [''pactix'', ''inbox'', ''model''] = Some (False, inbox_model_module)" "position deployed_sources [''pactix'', ''inbox'', ''model''] = 14"
  "map_of deployed_sources [''pactix'', ''inbox'', ''handler''] = Some (False, inbox_handler_module)" "position deployed_sources [''pactix'', ''inbox'', ''handler''] = 15"
  "map_of deployed_sources [''pactix'', ''inbox'', ''idempotency''] = Some (False, inbox_idempotency_module)" "position deployed_sources [''pactix'', ''inbox'', ''idempotency''] = 16"
  "map_of deployed_sources [''pactix'', ''inbox'', ''stale''] = Some (False, inbox_stale_module)" "position deployed_sources [''pactix'', ''inbox'', ''stale''] = 17"
  "map_of deployed_sources [''pactix'', ''inbox'', ''store''] = Some (False, inbox_store_module)" "position deployed_sources [''pactix'', ''inbox'', ''store''] = 18"
  "map_of deployed_sources [''pactix'', ''inbox'', ''runner''] = Some (False, inbox_runner_module)" "position deployed_sources [''pactix'', ''inbox'', ''runner''] = 19"
  "map_of deployed_sources [''pactix'', ''inbox''] = Some (True, inbox_package)" "position deployed_sources [''pactix'', ''inbox''] = 20"
  "map_of deployed_sources [''pactix''] = Some (True, pactix_package)" "position deployed_sources [''pactix''] = 21"
  "map_of deployed_sources [''pactix'', ''transport'', ''http'', ''headers''] = Some (False, transport_http_headers_module)" "position deployed_sources [''pactix'', ''transport'', ''http'', ''headers''] = 22"
  "map_of deployed_sources [''pactix'', ''transport'', ''http'', ''inbox''] = Some (False, transport_http_inbox_module)" "position deployed_sources [''pactix'', ''transport'', ''http'', ''inbox''] = 23"
  "map_of deployed_sources [''pactix'', ''transport'', ''http'', ''publisher''] = Some (False, transport_http_publisher_module)" "position deployed_sources [''pactix'', ''transport'', ''http'', ''publisher''] = 24"
  "map_of deployed_sources [''pactix'', ''transport'', ''http''] = Some (True, transport_http_package)" "position deployed_sources [''pactix'', ''transport'', ''http''] = 25"
  "map_of deployed_sources [''pactix'', ''transport'', ''kafka'', ''consumer''] = Some (False, transport_kafka_consumer_module)" "position deployed_sources [''pactix'', ''transport'', ''kafka'', ''consumer''] = 26"
  "map_of deployed_sources [''pactix'', ''transport'', ''kafka'', ''publisher''] = Some (False, transport_kafka_publisher_module)" "position deployed_sources [''pactix'', ''transport'', ''kafka'', ''publisher''] = 27"
  "map_of deployed_sources [''pactix'', ''transport'', ''kafka''] = Some (True, transport_kafka_package)" "position deployed_sources [''pactix'', ''transport'', ''kafka''] = 28"
  "map_of deployed_sources [''pactix'', ''transport''] = Some (True, transport_package)" "position deployed_sources [''pactix'', ''transport''] = 29"
  "map_of deployed_sources [''worker_loop''] = Some (False, worker_loop_script)" "position deployed_sources [''worker_loop''] = 30"
  "map_of deployed_sources [''env''] = Some (False, env_script)" "position deployed_sources [''env''] = 31"
  "map_of deployed_sources [''0001_create_outbox_message''] = Some (False, v0001_script)" "position deployed_sources [''0001_create_outbox_message''] = 32"
  "map_of deployed_sources [''0002_create_inbox_message''] = Some (False, v0002_script)" "position deployed_sources [''0002_create_inbox_message''] = 33"
  "map_of deployed_sources [''0003_add_outbox_wake_trigger''] = Some (False, v0003_script)" "position deployed_sources [''0003_add_outbox_wake_trigger''] = 34"
  by (simp_all add: source_defs position_def)

lemma source_none:
  "map_of deployed_sources [''__future__''] = None"
  "map_of deployed_sources [''alembic''] = None"
  "map_of deployed_sources [''asyncio''] = None"
  "map_of deployed_sources [''collections''] = None"
  "map_of deployed_sources [''collections'', ''abc''] = None"
  "map_of deployed_sources [''dataclasses''] = None"
  "map_of deployed_sources [''datetime''] = None"
  "map_of deployed_sources [''enum''] = None"
  "map_of deployed_sources [''json''] = None"
  "map_of deployed_sources [''logging''] = None"
  "map_of deployed_sources [''math''] = None"
  "map_of deployed_sources [''os''] = None"
  "map_of deployed_sources [''sqlalchemy''] = None"
  "map_of deployed_sources [''sqlalchemy'', ''dialects''] = None"
  "map_of deployed_sources [''sqlalchemy'', ''dialects'', ''mysql''] = None"
  "map_of deployed_sources [''sqlalchemy'', ''dialects'', ''postgresql''] = None"
  "map_of deployed_sources [''sqlalchemy'', ''engine''] = None"
  "map_of deployed_sources [''sqlalchemy'', ''ext''] = None"
  "map_of deployed_sources [''sqlalchemy'', ''ext'', ''asyncio''] = None"
  "map_of deployed_sources [''sqlalchemy'', ''ext'', ''compiler''] = None"
  "map_of deployed_sources [''sqlalchemy'', ''sql''] = None"
  "map_of deployed_sources [''sqlalchemy'', ''sql'', ''compiler''] = None"
  "map_of deployed_sources [''sqlalchemy'', ''sql'', ''expression''] = None"
  "map_of deployed_sources [''sqlalchemy'', ''types''] = None"
  "map_of deployed_sources [''time''] = None"
  "map_of deployed_sources [''typing''] = None"
  "map_of deployed_sources [''uuid''] = None"
  by (simp_all add: source_defs)

lemma submodules_at:
  "submodules deployed_sources [''pactix'', ''errors''] = []"
  "submodules deployed_sources [''pactix'', ''config''] = []"
  "submodules deployed_sources [''pactix'', ''message''] = []"
  "submodules deployed_sources [''pactix'', ''_executor''] = []"
  "submodules deployed_sources [''pactix'', ''_dialect''] = []"
  "submodules deployed_sources [''pactix'', ''_retry''] = []"
  "submodules deployed_sources [''pactix'', ''db'', ''tables''] = []"
  "submodules deployed_sources [''pactix'', ''db''] = [''tables'']"
  "submodules deployed_sources [''pactix'', ''outbox'', ''model''] = []"
  "submodules deployed_sources [''pactix'', ''outbox'', ''publisher''] = []"
  "submodules deployed_sources [''pactix'', ''outbox'', ''store''] = []"
  "submodules deployed_sources [''pactix'', ''outbox'', ''runner''] = []"
  "submodules deployed_sources [''pactix'', ''outbox'', ''wakeup''] = []"
  "submodules deployed_sources [''pactix'', ''outbox''] = [''model'', ''publisher'', ''store'', ''runner'', ''wakeup'']"
  "submodules deployed_sources [''pactix'', ''inbox'', ''model''] = []"
  "submodules deployed_sources [''pactix'', ''inbox'', ''handler''] = []"
  "submodules deployed_sources [''pactix'', ''inbox'', ''idempotency''] = []"
  "submodules deployed_sources [''pactix'', ''inbox'', ''stale''] = []"
  "submodules deployed_sources [''pactix'', ''inbox'', ''store''] = []"
  "submodules deployed_sources [''pactix'', ''inbox'', ''runner''] = []"
  "submodules deployed_sources [''pactix'', ''inbox''] = [''model'', ''handler'', ''idempotency'', ''stale'', ''store'', ''runner'']"
  "submodules deployed_sources [''pactix''] = [''errors'', ''config'', ''message'', ''_executor'', ''_dialect'', ''_retry'', ''db'', ''outbox'',
    ''inbox'', ''transport'']"
  "submodules deployed_sources [''pactix'', ''transport'', ''http'', ''headers''] = []"
  "submodules deployed_sources [''pactix'', ''transport'', ''http'', ''inbox''] = []"
  "submodules deployed_sources [''pactix'', ''transport'', ''http'', ''publisher''] = []"
  "submodules deployed_sources [''pactix'', ''transport'', ''http''] = [''headers'', ''inbox'', ''publisher'']"
  "submodules deployed_sources [''pactix'', ''transport'', ''kafka'', ''consumer''] = []"
  "submodules deployed_sources [''pactix'', ''transport'', ''kafka'', ''publisher''] = []"
  "submodules deployed_sources [''pactix'', ''transport'', ''kafka''] = [''consumer'', ''publisher'']"
  "submodules deployed_sources [''pactix'', ''transport''] = [''http'', ''kafka'']"
  "submodules deployed_sources [''worker_loop''] = []"
  "submodules deployed_sources [''env''] = []"
  "submodules deployed_sources [''0001_create_outbox_message''] = []"
  "submodules deployed_sources [''0002_create_inbox_message''] = []"
  "submodules deployed_sources [''0003_add_outbox_wake_trigger''] = []"
  by (simp_all add: submodules_def source_defs)

lemma names_at:
  "module_names deployed_sources [''pactix'', ''errors''] = Some [''annotations'', ''PactixError'',
    ''ValidationError'', ''PersistenceError'', ''RoutingError'', ''__all__'']"
  "module_names deployed_sources [''pactix'', ''config''] = Some [''annotations'', ''enum'', ''dataclass'',
    ''field'', ''timedelta'', ''ValidationError'', ''RetryPolicy'', ''NotifyMode'', ''WakeupPolicy'',
    ''PactixConfig'', ''__all__'']"
  "module_names deployed_sources [''pactix'', ''message''] = Some [''annotations'', ''uuid'', ''Mapping'',
    ''dataclass'', ''field'', ''replace'', ''UTC'', ''datetime'', ''Any'', ''ValidationError'', ''JsonValue'',
    ''_utcnow'', ''MessageMetadata'', ''MessageEnvelope'', ''__all__'']"
  "module_names deployed_sources [''pactix'', ''_executor''] = Some [''annotations'', ''Mapping'', ''Any'',
    ''Protocol'', ''Executable'', ''Result'', ''Executor'', ''__all__'']"
  "module_names deployed_sources [''pactix'', ''_dialect''] = Some [''annotations'', ''UTC'', ''datetime'',
    ''AsyncConnection'', ''AsyncSession'', ''Executor'', ''POSTGRESQL'', ''MYSQL'', ''dialect_name'',
    ''naive_utc'', ''aware_utc'', ''__all__'']"
  "module_names deployed_sources [''pactix'', ''_retry''] = Some [''annotations'', ''enum'', ''math'',
    ''uuid'', ''datetime'', ''timedelta'', ''Protocol'', ''Executor'', ''RetryPolicy'', ''RetryAction'',
    ''RetryStore'', ''next_retry_at'', ''handle_retryable_failure'', ''__all__'']"
  "module_names deployed_sources [''pactix'', ''db'', ''tables''] = Some [''annotations'', ''Any'',
    ''CheckConstraint'', ''Column'', ''Index'', ''Integer'', ''MetaData'', ''String'', ''Table'', ''Text'',
    ''UniqueConstraint'', ''Uuid'', ''text'', ''mysql'', ''JSONB'', ''TIMESTAMP'', ''UUID'', ''compiles'',
    ''SQLCompiler'', ''TextClause'', ''TypeEngine'', ''metadata'', ''OUTBOX_STATUSES'', ''INBOX_STATUSES'',
    ''_JsonEmptyObject'', ''_compile_json_empty_object'', ''_compile_json_empty_object_mysql'', ''_uuid'',
    ''_jsonb'', ''_timestamptz'', ''_text'', ''_indexed_text'', ''_json_default'', ''outbox_message'',
    ''inbox_message'', ''__all__'']"
  "module_names deployed_sources [''pactix'', ''db''] = Some [''annotations'', ''inbox_message'', ''metadata'',
    ''outbox_message'', ''__all__'']"
  "module_names deployed_sources [''pactix'', ''outbox'', ''model''] = Some [''annotations'', ''enum'',
    ''uuid'', ''dataclass'', ''UTC'', ''datetime'', ''RetryPolicy'', ''PersistenceError'', ''JsonValue'',
    ''MessageEnvelope'', ''MessageMetadata'', ''_utcnow'', ''OutboxStatus'', ''OutboxMessageRecord'',
    ''__all__'']"
  "module_names deployed_sources [''pactix'', ''outbox'', ''publisher''] = Some [''annotations'', ''asyncio'',
    ''enum'', ''Awaitable'', ''Callable'', ''Iterable'', ''dataclass'', ''Protocol'', ''runtime_checkable'',
    ''RoutingError'', ''OutboxMessageRecord'', ''_Kind'', ''PublishOutcome'', ''OutboxPublisher'',
    ''PublishFn'', ''_FnOutboxPublisher'', ''outbox_publisher'', ''PublisherRegistry'', ''__all__'']"
  "module_names deployed_sources [''pactix'', ''outbox'', ''store''] = Some [''annotations'', ''uuid'',
    ''UTC'', ''datetime'', ''Any'', ''cast'', ''text'', ''RowMapping'', ''MYSQL'', ''aware_utc'',
    ''dialect_name'', ''naive_utc'', ''Executor'', ''PactixConfig'', ''RetryPolicy'', ''outbox_message'',
    ''MessageEnvelope'', ''OutboxMessageRecord'', ''OutboxStatus'', ''_CLAIM_READY_SQL'',
    ''_CLAIM_READY_MYSQL_SQL'', ''OutboxStore'', ''_now'', ''_record_values'', ''_map_record'', ''__all__'']"
  "module_names deployed_sources [''pactix'', ''outbox'', ''runner''] = Some [''annotations'', ''dataclass'',
    ''UTC'', ''datetime'', ''AsyncEngine'', ''RetryAction'', ''handle_retryable_failure'',
    ''PublisherRegistry'', ''OutboxStore'', ''_utcnow'', ''RunSummary'', ''OutboxRunner'', ''__all__'']"
  "module_names deployed_sources [''pactix'', ''outbox'', ''wakeup''] = Some [''annotations'', ''asyncio'',
    ''time'', ''Awaitable'', ''Callable'', ''timedelta'', ''Any'', ''Protocol'', ''cast'', ''text'',
    ''AsyncConnection'', ''AsyncEngine'', ''NotifyMode'', ''WakeupPolicy'', ''ValidationError'',
    ''OutboxRunner'', ''_MAX_PASSES_PER_WAKE'', ''_NotifyCallback'', ''_DriverConnection'', ''LocalWakeup'',
    ''FallbackBackoff'', ''PostgresWakeListener'', ''CoalescedNotifier'', ''WakeupRunner'', ''__all__'']"
  "module_names deployed_sources [''pactix'', ''outbox''] = Some [''annotations'', ''OutboxMessageRecord'',
    ''OutboxStatus'', ''OutboxPublisher'', ''PublisherRegistry'', ''PublishOutcome'', ''outbox_publisher'',
    ''OutboxRunner'', ''RunSummary'', ''OutboxStore'', ''CoalescedNotifier'', ''FallbackBackoff'',
    ''LocalWakeup'', ''PostgresWakeListener'', ''WakeupRunner'', ''__all__'']"
  "module_names deployed_sources [''pactix'', ''inbox'', ''model''] = Some [''annotations'', ''enum'',
    ''uuid'', ''dataclass'', ''UTC'', ''datetime'', ''RetryPolicy'', ''PersistenceError'', ''ValidationError'',
    ''JsonValue'', ''MessageEnvelope'', ''MessageMetadata'', ''_utcnow'', ''InboxStatus'',
    ''InboxMessageRecord'', ''__all__'']"
  "module_names deployed_sources [''pactix'', ''inbox'', ''handler''] = Some [''annotations'', ''enum'',
    ''Awaitable'', ''Callable'', ''dataclass'', ''Protocol'', ''runtime_checkable'', ''InboxMessageRecord'',
    ''_Kind'', ''HandleOutcome'', ''InboxHandler'', ''HandleFn'', ''_FnInboxHandler'', ''inbox_handler'',
    ''__all__'']"
  "module_names deployed_sources [''pactix'', ''inbox'', ''idempotency''] = Some [''annotations'', ''enum'',
    ''Awaitable'', ''Callable'', ''Protocol'', ''runtime_checkable'', ''InboxMessageRecord'',
    ''IdempotencyDecision'', ''IdempotencyHook'', ''EvaluateFn'', ''_FnIdempotencyHook'', ''idempotency_hook'',
    ''StaticIdempotency'', ''ProcessAll'', ''__all__'']"
  "module_names deployed_sources [''pactix'', ''inbox'', ''stale''] = Some [''annotations'', ''enum'',
    ''Awaitable'', ''Callable'', ''Protocol'', ''runtime_checkable'', ''InboxMessageRecord'',
    ''StaleEventDecision'', ''StaleEventFilter'', ''EvaluateFn'', ''_FnStaleEventFilter'',
    ''stale_event_filter'', ''AcceptAllEvents'', ''__all__'']"
  "module_names deployed_sources [''pactix'', ''inbox'', ''store''] = Some [''annotations'', ''uuid'',
    ''dataclass'', ''UTC'', ''datetime'', ''Any'', ''cast'', ''text'', ''mysql_insert'', ''pg_insert'',
    ''RowMapping'', ''MYSQL'', ''aware_utc'', ''dialect_name'', ''naive_utc'', ''Executor'', ''PactixConfig'',
    ''RetryPolicy'', ''inbox_message'', ''MessageEnvelope'', ''InboxMessageRecord'', ''InboxStatus'',
    ''ReceiveOutcome'', ''_CLAIM_READY_FIFO_SQL'', ''_CLAIM_READY_UNORDERED_SQL'',
    ''_CLAIM_READY_FIFO_MYSQL_SQL'', ''_CLAIM_READY_UNORDERED_MYSQL_SQL'', ''InboxStore'', ''_now'',
    ''_record_values'', ''_map_record'', ''__all__'']"
  "module_names deployed_sources [''pactix'', ''inbox'', ''runner''] = Some [''annotations'', ''enum'',
    ''dataclass'', ''UTC'', ''datetime'', ''AsyncEngine'', ''RetryAction'', ''handle_retryable_failure'',
    ''InboxHandler'', ''IdempotencyDecision'', ''IdempotencyHook'', ''AcceptAllEvents'', ''StaleEventDecision'',
    ''StaleEventFilter'', ''InboxStore'', ''_utcnow'', ''_Mode'', ''RunSummary'', ''InboxRunner'', ''__all__'']"
  "module_names deployed_sources [''pactix'', ''inbox''] = Some [''annotations'', ''HandleOutcome'',
    ''InboxHandler'', ''inbox_handler'', ''IdempotencyDecision'', ''IdempotencyHook'', ''ProcessAll'',
    ''StaticIdempotency'', ''idempotency_hook'', ''InboxMessageRecord'', ''InboxStatus'', ''InboxRunner'',
    ''RunSummary'', ''AcceptAllEvents'', ''StaleEventDecision'', ''StaleEventFilter'', ''stale_event_filter'',
    ''InboxStore'', ''ReceiveOutcome'', ''__all__'']"
  "module_names deployed_sources [''pactix''] = Some [''annotations'', ''NotifyMode'', ''PactixConfig'',
    ''RetryPolicy'', ''WakeupPolicy'', ''PactixError'', ''PersistenceError'', ''RoutingError'',
    ''ValidationError'', ''AcceptAllEvents'', ''HandleOutcome'', ''IdempotencyDecision'', ''IdempotencyHook'',
    ''InboxHandler'', ''InboxMessageRecord'', ''InboxRunner'', ''InboxStatus'', ''InboxStore'', ''ProcessAll'',
    ''ReceiveOutcome'', ''StaleEventDecision'', ''StaleEventFilter'', ''StaticIdempotency'',
    ''idempotency_hook'', ''inbox_handler'', ''stale_event_filter'', ''MessageEnvelope'', ''MessageMetadata'',
    ''CoalescedNotifier'', ''FallbackBackoff'', ''LocalWakeup'', ''OutboxMessageRecord'', ''OutboxPublisher'',
    ''OutboxRunner'', ''OutboxStatus'', ''OutboxStore'', ''PostgresWakeListener'', ''PublisherRegistry'',
    ''PublishOutcome'', ''WakeupRunner'', ''outbox_publisher'', ''__version__'', ''__all__'']"
  "module_names deployed_sources [''pactix'', ''transport'', ''http'', ''headers''] = Some [''annotations'',
    ''EVENT_TYPE_HEADER'', ''MESSAGE_ID_HEADER'', ''MESSAGE_KEY_HEADER'', ''ORDERING_KEY_HEADER'',
    ''CORRELATION_ID_HEADER'', ''__all__'']"
  "module_names deployed_sources [''pactix'', ''transport'', ''http'', ''inbox''] = Some [''annotations'',
    ''Awaitable'', ''Callable'', ''Mapping'', ''dataclass'', ''field'', ''TYPE_CHECKING'', ''Any'',
    ''AsyncEngine'', ''PactixError'', ''ValidationError'', ''InboxStore'', ''ReceiveOutcome'', ''JsonValue'',
    ''MessageEnvelope'', ''MessageMetadata'', ''CORRELATION_ID_HEADER'', ''EVENT_TYPE_HEADER'',
    ''MESSAGE_ID_HEADER'', ''MESSAGE_KEY_HEADER'', ''ORDERING_KEY_HEADER'', ''HttpInboundMessage'',
    ''HttpInboxEndpoint'', ''make_inbox_endpoint'', ''inbox_route'', ''__all__'']"
  "module_names deployed_sources [''pactix'', ''transport'', ''http'', ''publisher''] = Some [''annotations'',
    ''asyncio'', ''dataclass'', ''field'', ''replace'', ''RoutingError'', ''JsonValue'',
    ''OutboxMessageRecord'', ''PublishOutcome'', ''CORRELATION_ID_HEADER'', ''EVENT_TYPE_HEADER'',
    ''MESSAGE_ID_HEADER'', ''MESSAGE_KEY_HEADER'', ''ORDERING_KEY_HEADER'', ''HttpEndpoint'',
    ''HttpOutboundRequest'', ''HttpResponse'', ''HttpRequestClient'', ''HttpEndpointRouter'',
    ''HttpOutboxPublisher'', ''HttpxRequestClient'', ''__all__'']"
  "module_names deployed_sources [''pactix'', ''transport'', ''http''] = Some [''annotations'',
    ''CORRELATION_ID_HEADER'', ''EVENT_TYPE_HEADER'', ''MESSAGE_ID_HEADER'', ''MESSAGE_KEY_HEADER'',
    ''ORDERING_KEY_HEADER'', ''HttpInboundMessage'', ''HttpInboxEndpoint'', ''inbox_route'',
    ''make_inbox_endpoint'', ''HttpEndpoint'', ''HttpEndpointRouter'', ''HttpOutboundRequest'',
    ''HttpOutboxPublisher'', ''HttpRequestClient'', ''HttpResponse'', ''HttpxRequestClient'', ''__all__'']"
  "module_names deployed_sources [''pactix'', ''transport'', ''kafka'', ''consumer''] = Some [''annotations'',
    ''json'', ''dataclass'', ''field'', ''Any'', ''AsyncEngine'', ''ValidationError'', ''InboxStore'',
    ''ReceiveOutcome'', ''JsonValue'', ''MessageEnvelope'', ''MessageMetadata'', ''KafkaInboundMessage'',
    ''KafkaOffsetCommitter'', ''KafkaInboxConsumer'', ''AIOKafkaOffsetCommitter'', ''__all__'']"
  "module_names deployed_sources [''pactix'', ''transport'', ''kafka'', ''publisher''] = Some [''annotations'',
    ''asyncio'', ''json'', ''dataclass'', ''field'', ''RoutingError'', ''OutboxMessageRecord'',
    ''PublishOutcome'', ''KafkaProducedMessage'', ''KafkaProducerClient'', ''KafkaTopicRouter'',
    ''KafkaOutboxPublisher'', ''AIOKafkaProducerClient'', ''__all__'']"
  "module_names deployed_sources [''pactix'', ''transport'', ''kafka''] = Some [''annotations'',
    ''AIOKafkaOffsetCommitter'', ''KafkaInboundMessage'', ''KafkaInboxConsumer'', ''KafkaOffsetCommitter'',
    ''AIOKafkaProducerClient'', ''KafkaOutboxPublisher'', ''KafkaProducedMessage'', ''KafkaProducerClient'',
    ''KafkaTopicRouter'', ''__all__'']"
  "module_names deployed_sources [''pactix'', ''transport''] = Some []"
  "module_names deployed_sources [''worker_loop''] = Some [''annotations'', ''asyncio'', ''logging'',
    ''AsyncEngine'', ''create_async_engine'', ''HandleOutcome'', ''InboxRunner'', ''InboxStore'',
    ''LocalWakeup'', ''MessageEnvelope'', ''MessageMetadata'', ''OutboxRunner'', ''OutboxStore'',
    ''PactixConfig'', ''ProcessAll'', ''PublisherRegistry'', ''PublishOutcome'', ''WakeupPolicy'',
    ''WakeupRunner'', ''inbox_handler'', ''outbox_publisher'', ''log'', ''publish'', ''handle'', ''append_one'',
    ''run_loop'', ''run_wakeup_loop'', ''main'']"
  "module_names deployed_sources [''env''] = Some [''annotations'', ''os'', ''context'',
    ''engine_from_config'', ''pool'', ''target_metadata'', ''config'', ''_url'', ''run_migrations_offline'',
    ''run_migrations_online'']"
  "module_names deployed_sources [''0001_create_outbox_message''] = Some [''annotations'', ''Sequence'',
    ''sa'', ''op'', ''mysql'', ''postgresql'', ''revision'', ''down_revision'', ''branch_labels'',
    ''depends_on'', ''upgrade'', ''_upgrade_postgresql'', ''_upgrade_mysql'', ''downgrade'']"
  "module_names deployed_sources [''0002_create_inbox_message''] = Some [''annotations'', ''Sequence'', ''sa'',
    ''op'', ''mysql'', ''postgresql'', ''revision'', ''down_revision'', ''branch_labels'', ''depends_on'',
    ''upgrade'', ''_upgrade_postgresql'', ''_upgrade_mysql'', ''downgrade'']"
  "module_names deployed_sources [''0003_add_outbox_wake_trigger''] = Some [''annotations'', ''Sequence'',
    ''op'', ''revision'', ''down_revision'', ''branch_labels'', ''depends_on'', ''upgrade'', ''downgrade'']"
  by (simp_all add: module_names_def source_at body_names_def body_binds_def bound_name_def from_import_def module_defs)

lemma names_none:
  "module_names deployed_sources [''__future__''] = None"
  "module_names deployed_sources [''alembic''] = None"
  "module_names deployed_sources [''asyncio''] = None"
  "module_names deployed_sources [''collections''] = None"
  "module_names deployed_sources [''collections'', ''abc''] = None"
  "module_names deployed_sources [''dataclasses''] = None"
  "module_names deployed_sources [''datetime''] = None"
  "module_names deployed_sources [''enum''] = None"
  "module_names deployed_sources [''json''] = None"
  "module_names deployed_sources [''logging''] = None"
  "module_names deployed_sources [''math''] = None"
  "module_names deployed_sources [''os''] = None"
  "module_names deployed_sources [''sqlalchemy''] = None"
  "module_names deployed_sources [''sqlalchemy'', ''dialects''] = None"
  "module_names deployed_sources [''sqlalchemy'', ''dialects'', ''mysql''] = None"
  "module_names deployed_sources [''sqlalchemy'', ''dialects'', ''postgresql''] = None"
  "module_names deployed_sources [''sqlalchemy'', ''engine''] = None"
  "module_names deployed_sources [''sqlalchemy'', ''ext''] = None"
  "module_names deployed_sources [''sqlalchemy'', ''ext'', ''asyncio''] = None"
  "module_names deployed_sources [''sqlalchemy'', ''ext'', ''compiler''] = None"
  "module_names deployed_sources [''sqlalchemy'', ''sql''] = None"
  "module_names deployed_sources [''sqlalchemy'', ''sql'', ''compiler''] = None"
  "module_names deployed_sources [''sqlalchemy'', ''sql'', ''expression''] = None"
  "module_names deployed_sources [''sqlalchemy'', ''types''] = None"
  "module_names deployed_sources [''time''] = None"
  "module_names deployed_sources [''typing''] = None"
  "module_names deployed_sources [''uuid''] = None"
  by (simp_all add: module_names_def source_none)

lemmas link_checks = module_linked_def take_linked_def body_takes_def body_names_def body_binds_def bound_name_def from_import_def
  resolve_name_def ancestors_def builtin_names_def Let_def

lemmas link_lookups = source_at submodules_at names_at names_none

lemma core_linked: "list_all (module_linked deployed_sources 4) core_sources"
  by (simp add: core_sources_def link_checks module_defs link_lookups)

lemma outbox_linked: "list_all (module_linked deployed_sources 4) outbox_sources"
  by (simp add: outbox_sources_def link_checks module_defs link_lookups)

lemma inbox_linked: "list_all (module_linked deployed_sources 4) inbox_sources"
  by (simp add: inbox_sources_def link_checks module_defs link_lookups)

lemma transport_linked: "list_all (module_linked deployed_sources 4) transport_sources"
  by (simp add: transport_sources_def link_checks module_defs link_lookups)

lemma program_linked: "list_all (module_linked deployed_sources 4) program_sources"
  by (simp add: program_sources_def link_checks module_defs link_lookups)

interpretation deployed: linked_package deployed_sources 4
  by unfold_locales (use core_linked outbox_linked inbox_linked transport_linked program_linked in
    \<open>simp add: well_linked_def deployed_sources_def [THEN arg_cong [where f = "list_all P" for P]] pactix_sources_def\<close>)

section \<open>The public names\<close>

text \<open>Where the names that the package offers are defined.\<close>

definition public_homes :: "(dotted \<times> string list) list" where
  "public_homes =
    [([''pactix''], [''__version__'']),
     ([''pactix'', ''config''], [''PactixConfig'', ''RetryPolicy'', ''NotifyMode'', ''WakeupPolicy'']),
     ([''pactix'', ''errors''], [''PactixError'', ''ValidationError'', ''PersistenceError'',
       ''RoutingError'']),
     ([''pactix'', ''message''], [''MessageMetadata'', ''MessageEnvelope'']),
     ([''pactix'', ''outbox'', ''model''], [''OutboxMessageRecord'', ''OutboxStatus'']),
     ([''pactix'', ''outbox'', ''store''], [''OutboxStore'']),
     ([''pactix'', ''outbox'', ''publisher''], [''OutboxPublisher'', ''PublisherRegistry'',
       ''PublishOutcome'', ''outbox_publisher'']),
     ([''pactix'', ''outbox'', ''runner''], [''OutboxRunner'']),
     ([''pactix'', ''outbox'', ''wakeup''], [''LocalWakeup'', ''FallbackBackoff'', ''PostgresWakeListener'',
       ''CoalescedNotifier'', ''WakeupRunner'']),
     ([''pactix'', ''inbox'', ''model''], [''InboxMessageRecord'', ''InboxStatus'']),
     ([''pactix'', ''inbox'', ''store''], [''InboxStore'', ''ReceiveOutcome'']),
     ([''pactix'', ''inbox'', ''handler''], [''InboxHandler'', ''HandleOutcome'', ''inbox_handler'']),
     ([''pactix'', ''inbox'', ''idempotency''], [''IdempotencyHook'', ''IdempotencyDecision'',
       ''idempotency_hook'', ''ProcessAll'', ''StaticIdempotency'']),
     ([''pactix'', ''inbox'', ''stale''], [''StaleEventFilter'', ''StaleEventDecision'',
       ''stale_event_filter'', ''AcceptAllEvents'']),
     ([''pactix'', ''inbox'', ''runner''], [''InboxRunner''])]"

section \<open>What the modules need\<close>

text \<open>The third-party code the package is written against: the standard library and SQLAlchemy.\<close>

definition core_required :: "(dotted \<times> string list) list" where
  "core_required = standard_library @ sqlalchemy_package"

lemma installed_at:
  "map_of core_required [''__future__''] = Some [''annotations'']"
  "map_of core_required [''asyncio''] = Some []"
  "map_of core_required [''collections''] = Some []"
  "map_of core_required [''collections'', ''abc''] = Some [''Mapping'',
    ''Awaitable'', ''Callable'', ''Iterable'', ''Sequence'']"
  "map_of core_required [''dataclasses''] = Some [''dataclass'', ''field'',
    ''replace'']"
  "map_of core_required [''datetime''] = Some [''timedelta'', ''UTC'', ''datetime'']"
  "map_of core_required [''enum''] = Some []"
  "map_of core_required [''json''] = Some []"
  "map_of core_required [''logging''] = Some []"
  "map_of core_required [''math''] = Some []"
  "map_of core_required [''os''] = Some []"
  "map_of core_required [''sqlalchemy''] = Some [''Executable'', ''CheckConstraint'',
    ''Column'', ''Index'', ''Integer'', ''MetaData'', ''String'', ''Table'', ''Text'', ''UniqueConstraint'',
    ''Uuid'', ''text'', ''engine_from_config'', ''pool'']"
  "map_of core_required [''sqlalchemy'', ''dialects''] = Some [''mysql'',
    ''postgresql'']"
  "map_of core_required [''sqlalchemy'', ''dialects'', ''mysql''] = Some [''insert'']"
  "map_of core_required [''sqlalchemy'', ''dialects'',
    ''postgresql''] = Some [''JSONB'', ''TIMESTAMP'', ''UUID'', ''insert'']"
  "map_of core_required [''sqlalchemy'', ''engine''] = Some [''Result'',
    ''RowMapping'']"
  "map_of core_required [''sqlalchemy'', ''ext''] = Some []"
  "map_of core_required [''sqlalchemy'', ''ext'',
    ''asyncio''] = Some [''AsyncConnection'', ''AsyncSession'', ''AsyncEngine'', ''create_async_engine'']"
  "map_of core_required [''sqlalchemy'', ''ext'', ''compiler''] = Some [''compiles'']"
  "map_of core_required [''sqlalchemy'', ''sql''] = Some []"
  "map_of core_required [''sqlalchemy'', ''sql'',
    ''compiler''] = Some [''SQLCompiler'']"
  "map_of core_required [''sqlalchemy'', ''sql'',
    ''expression''] = Some [''TextClause'']"
  "map_of core_required [''sqlalchemy'', ''types''] = Some [''TypeEngine'']"
  "map_of core_required [''time''] = Some []"
  "map_of core_required [''typing''] = Some [''Any'', ''Protocol'',
    ''runtime_checkable'', ''cast'', ''TYPE_CHECKING'']"
  "map_of core_required [''uuid''] = Some []"
  by (simp_all add: core_required_def standard_library_def sqlalchemy_package_def)

lemma core_required_distinct: "distinct (map fst core_required)"
  by (simp add: core_required_def standard_library_def sqlalchemy_package_def)

text \<open>None of the optional packages is among them.\<close>

lemma core_required_roots:
  "map_of core_required [''alembic''] = None" "map_of core_required [''aiokafka''] = None" "map_of core_required [''httpx''] = None"
  "map_of core_required [''starlette''] = None"
  by (simp_all add: core_required_def standard_library_def sqlalchemy_package_def)

lemma core_supplied:
  "list_all (module_supplied deployed_sources (map_of core_required)) core_sources"
  "list_all (module_supplied deployed_sources (map_of core_required)) outbox_sources"
  "list_all (module_supplied deployed_sources (map_of core_required)) inbox_sources"
  "list_all (module_supplied deployed_sources (map_of core_required)) transport_sources"
  "list_all (module_supplied deployed_sources (map_of core_required)) (take 1 program_sources)"
  by (simp_all add: core_sources_def outbox_sources_def inbox_sources_def transport_sources_def program_sources_def
      module_supplied_def offers_def body_takes_def from_import_def resolve_name_def ancestors_def module_defs source_at source_none installed_at)

lemma core_taken: "take 31 deployed_sources = core_sources @ outbox_sources @ inbox_sources @ transport_sources @ take 1 program_sources"
  by (simp add: source_defs)

lemma positions:
  "list_all (\<lambda>e. list_all (\<lambda>a. position deployed_sources a \<le> 30) (ancestors (fst e))) (take 31 deployed_sources)"
  unfolding core_taken
  by (simp add: core_sources_def outbox_sources_def inbox_sources_def transport_sources_def program_sources_def ancestors_def source_at)

text \<open>Every exported name is bound, and the public names have their homes.\<close>

lemma exports_bound:
  "list_all (\<lambda>(m, names). case module_names deployed_sources m of Some bound \<Rightarrow> list_all (\<lambda>x. x \<in> set bound) names | None \<Rightarrow> False)
     pactix_exports"
  by (simp add: pactix_exports_def names_at export_defs)

lemma public_origins:
  "list_all (\<lambda>(home, names). list_all (\<lambda>x. origin 4 deployed_sources (From [''pactix''] x) = Some (Defined home x)) names) public_homes"
  by (simp add: public_homes_def eval_nat_numeral source_at bound_name_def from_import_def resolve_name_def module_defs)

lemma public_exported: "list_all (\<lambda>(home, names). list_all (\<lambda>x. x \<in> set pactix_all) names) public_homes"
  by (simp add: public_homes_def pactix_all_def)

section \<open>Importing the package\<close>

lemma imports_from:
  assumes sup: "list_all (module_supplied deployed_sources (map_of required)) (take (Suc upper) deployed_sources)"
    and pos: "list_all (\<lambda>e. list_all (\<lambda>a. position deployed_sources a \<le> upper) (ancestors (fst e))) (take (Suc upper) deployed_sources)"
    and upper: "upper \<le> 34" and ext: "provides ext required"
    and ms: "\<And>m. m \<in> set ms \<Longrightarrow> m \<in> fst ` set (take (Suc upper) deployed_sources)"
  shows "\<exists>st. import_all 200 deployed_sources ext ms [] = Inr st \<and> deployed.good st {} \<and> (\<forall>m \<in> set ms. is_loaded m st)"
proof -
  have sup': "module_supplied deployed_sources ext (k, p, body)"
    if "map_of deployed_sources k = Some (p, body)" "position deployed_sources k \<le> upper" for k p body
    using position_take [OF that] sup by (auto simp: list_all_iff intro: supplied_mono [OF ext])
  have ready: "map_of deployed_sources m \<noteq> None \<and> (\<forall>a \<in> set (ancestors m). position deployed_sources a \<le> upper)" if "m \<in> set ms" for m
  proof
    show "\<forall>a \<in> set (ancestors m). position deployed_sources a \<le> upper" using pos ms [OF that] by (auto simp: list_all_iff)
    show "map_of deployed_sources m \<noteq> None" using ms [OF that] unfolding map_of_eq_None_iff by (auto dest: in_set_takeD)
  qed
  have "(upper + 1) * (4 + 1) + 4 \<le> 200" using upper by simp
  from deployed.import_all_ok [OF sup' this ready deployed.good_start] show ?thesis by blast
qed

lemma core_imports:
  assumes "provides ext core_required" and "\<And>m. m \<in> set ms \<Longrightarrow> m \<in> fst ` set (take 31 deployed_sources)"
  shows "\<exists>st. import_all 200 deployed_sources ext ms [] = Inr st \<and> deployed.good st {} \<and> (\<forall>m \<in> set ms. is_loaded m st)"
proof (rule imports_from [where upper = 30, OF _ _ _ assms(1)])
  show "list_all (module_supplied deployed_sources (map_of core_required)) (take (Suc 30) deployed_sources)"
    using core_supplied by (simp add: core_taken)
qed (use positions assms(2) in simp_all)

text \<open>Property C35: the package can be imported from every module and in every order, with the standard
  library and SQLAlchemy alone, although its packages import their own submodules while they are
  partly initialised; \<^verbatim>\<open>transport\<close> included, which never imports its framework at module level.  Afterwards
  every name in the \<^verbatim>\<open>__all__\<close> of a loaded module denotes what its chain of imports says, and each
  public name of \<^verbatim>\<open>pactix\<close> is the object of the one module that defines it.\<close>

theorem package_imports:
  assumes "provides ext core_required" and "set ms \<subseteq> insert [''worker_loop''] (fst ` set pactix_sources)"
  shows "\<exists>st. import_all 200 deployed_sources ext ms [] = Inr st \<and> (\<forall>m \<in> set ms. is_loaded m st)
    \<and> (\<forall>m names x. (m, names) \<in> set pactix_exports \<longrightarrow> x \<in> set names \<longrightarrow> is_loaded m st \<longrightarrow>
         (\<exists>v. get_attr ext st m x = Some v \<and> denotes deployed_sources (From m x) v))
    \<and> (\<forall>home names x. (home, names) \<in> set public_homes \<longrightarrow> x \<in> set names \<longrightarrow> is_loaded [''pactix''] st \<longrightarrow>
         get_attr ext st [''pactix''] x = Some (Defined home x))"
proof -
  have "m \<in> fst ` set (take 31 deployed_sources)" if "m \<in> set ms" for m
  proof -
    have "[''worker_loop''] \<in> fst ` set (take 1 program_sources)" by (simp add: program_sources_def)
    then show ?thesis using assms(2) that unfolding core_taken by (auto simp: pactix_sources_def)
  qed
  from core_imports [OF assms(1) this] obtain st where
    st: "import_all 200 deployed_sources ext ms [] = Inr st" "deployed.good st {}" "\<forall>m \<in> set ms. is_loaded m st" by blast
  have bound: "\<exists>v. get_attr ext st m x = Some v \<and> denotes deployed_sources (From m x) v"
    if e: "(m, names) \<in> set pactix_exports" "x \<in> set names" "is_loaded m st" for m names x
  proof -
    obtain p body where body: "map_of deployed_sources m = Some (p, body)" "x \<in> fst ` set (body_binds p m body)"
      using exports_bound e(1,2) by (fastforce simp: list_all_iff module_names_def body_names_def split: option.splits)
    from deployed.attribute_denotes [OF st(2) e(3) body] show ?thesis .
  qed
  have "get_attr ext st [''pactix''] x = Some (Defined home x)"
    if h: "(home, names) \<in> set public_homes" "x \<in> set names" "is_loaded [''pactix''] st" for home names x
  proof -
    have "origin 4 deployed_sources (From [''pactix''] x) = Some (Defined home x)"
      using public_origins h(1,2) unfolding list_all_iff by fast
    then have d: "denotes deployed_sources (From [''pactix''] x) (Defined home x)" by (rule origin_denotes)
    have "([''pactix''], pactix_all) \<in> set pactix_exports" by (simp add: pactix_exports_def)
    moreover have "x \<in> set pactix_all" using public_exported h(1,2) by (auto simp: list_all_iff)
    ultimately show ?thesis using bound [OF _ _ h(3)] deployed.denotes_unique [OF d] by blast
  qed
  with st bound show ?thesis by blast
qed

text \<open>The migration scripts also need alembic.\<close>

definition migration_required :: "(dotted \<times> string list) list" where
  "migration_required = alembic_package @ core_required"

lemma migration_at:
  "map_of migration_required m = (if m = [''alembic''] then Some [''context'', ''op''] else map_of core_required m)"
  by (simp add: migration_required_def alembic_package_def)

lemma migration_supplied:
  "list_all (module_supplied deployed_sources (map_of migration_required)) program_sources"
  by (simp add: migration_at program_sources_def module_supplied_def offers_def body_takes_def
      from_import_def resolve_name_def ancestors_def module_defs source_at source_none installed_at)

lemma migration_provides: "provides (map_of migration_required) core_required"
proof (rule providesI [OF core_required_distinct])
  show "map_of migration_required m = Some names" if "map_of core_required m = Some names" for m names
    using that core_required_roots by (auto simp: migration_at)
qed

lemma migrations_import:
  assumes "provides ext migration_required" and "set ms \<subseteq> fst ` set program_sources"
  shows "\<exists>st. import_all 200 deployed_sources ext ms [] = Inr st \<and> (\<forall>m \<in> set ms. is_loaded m st)"
proof -
  have len: "take (Suc 34) deployed_sources = core_sources @ outbox_sources @ inbox_sources @ transport_sources @ program_sources"
    by (simp add: source_defs)
  have "\<exists>st. import_all 200 deployed_sources ext ms [] = Inr st \<and> deployed.good st {} \<and> (\<forall>m \<in> set ms. is_loaded m st)"
  proof (rule imports_from [where upper = 34, OF _ _ _ assms(1)])
    have "list_all (module_supplied deployed_sources (map_of migration_required)) src"
      if "list_all (module_supplied deployed_sources (map_of core_required)) src" for src
      using that supplied_mono [OF migration_provides] by (auto simp: list_all_iff)
    then show "list_all (module_supplied deployed_sources (map_of migration_required)) (take (Suc 34) deployed_sources)"
      unfolding len using core_supplied migration_supplied by simp
    show "list_all (\<lambda>e. list_all (\<lambda>a. position deployed_sources a \<le> 34) (ancestors (fst e))) (take (Suc 34) deployed_sources)"
      unfolding len by (simp add: core_sources_def outbox_sources_def inbox_sources_def transport_sources_def program_sources_def
          ancestors_def source_at)
    show "m \<in> fst ` set (take (Suc 34) deployed_sources)" if "m \<in> set ms" for m using assms(2) that unfolding len by auto
  qed simp
  then show ?thesis by blast
qed

section \<open>Optional packages\<close>

text \<open>
  Imports inside of functions, in a namespace of the call: \<^verbatim>\<open>HttpxRequestClient.__init__\<close> and
  \<^verbatim>\<open>AIOKafkaProducerClient.from_brokers\<close> (\<open>fresh\<close> is the client they construct).
\<close>

definition import_local :: "installed \<Rightarrow> interpreter \<Rightarrow> stmt list \<Rightarrow> import_error + interpreter" where
  "import_local ext st body =
     exec_body (find_and_load 200 deployed_sources ext) deployed_sources ext False [''<locals>''] body (([''<locals>''], []) # st)"

definition HttpxRequestClient_init :: "installed \<Rightarrow> interpreter \<Rightarrow> 'c \<Rightarrow> 'c option \<Rightarrow> import_error + 'c" where
  "HttpxRequestClient_init ext st fresh client =
     (case client of
        None \<Rightarrow> res_bind (import_local ext st [Import [''httpx''] None]) (\<lambda>_. Inr fresh)
      | Some c \<Rightarrow> Inr c)"

definition AIOKafkaProducerClient_from_brokers :: "installed \<Rightarrow> interpreter \<Rightarrow> 'c \<Rightarrow> import_error + 'c" where
  "AIOKafkaProducerClient_from_brokers ext st fresh =
     res_bind (import_local ext st [from_import 0 [''aiokafka''] [''AIOKafkaProducer'']]) (\<lambda>_. Inr fresh)"

lemma optional_sources:
  "map_of deployed_sources [''httpx''] = None" "map_of deployed_sources [''aiokafka''] = None"
  "map_of deployed_sources [''aiokafka'', ''AIOKafkaProducer''] = None"
  by (simp_all add: source_defs)

text \<open>A module of another package that is not loaded through the sources.\<close>

lemma load_root:
  assumes "0 < n" "\<not> is_loaded [r] st" "map_of deployed_sources [r] = None"
  shows "find_and_load n deployed_sources ext [r] st = (if ext [r] = None then Inl (ModuleNotFoundError [r]) else Inr st)"
  using assms by (cases n) simp_all

lemma not_loaded_attr: "\<not> is_loaded m st \<Longrightarrow> get_attr ext st m x = (if offers ext m x then Some (Attribute m x) else None)"
  by (simp add: get_attr_def is_loaded_def)

lemmas local_import_defs = import_local_def from_import_def resolve_name_def not_loaded_attr load_root optional_sources Let_def

text \<open>Constructing an HTTP client of its own needs httpx, and a given client is taken as it is; constructing a
  Kafka producer needs aiokafka.\<close>

lemma optional_packages_on_use:
  assumes "\<And>m. is_loaded m st \<Longrightarrow> map_of deployed_sources m \<noteq> None"
  shows "HttpxRequestClient_init ext st fresh None =
      (if ext [''httpx''] = None then Inl (ModuleNotFoundError [''httpx'']) else Inr fresh)"
    and "HttpxRequestClient_init ext st fresh (Some c) = Inr c"
    and "AIOKafkaProducerClient_from_brokers ext st fresh =
      (if ext [''aiokafka''] = None then Inl (ModuleNotFoundError [''aiokafka''])
       else if offers ext [''aiokafka''] ''AIOKafkaProducer'' then Inr fresh else Inl (ImportError [''aiokafka''] ''AIOKafkaProducer''))"
proof -
  have nl: "\<not> is_loaded m st" if "map_of deployed_sources m = None" for m using assms [of m] that by blast
  show "HttpxRequestClient_init ext st fresh None =
      (if ext [''httpx''] = None then Inl (ModuleNotFoundError [''httpx'']) else Inr fresh)"
    and "HttpxRequestClient_init ext st fresh (Some c) = Inr c"
    and "AIOKafkaProducerClient_from_brokers ext st fresh =
      (if ext [''aiokafka''] = None then Inl (ModuleNotFoundError [''aiokafka''])
       else if offers ext [''aiokafka''] ''AIOKafkaProducer'' then Inr fresh else Inl (ImportError [''aiokafka''] ''AIOKafkaProducer''))"
    by (simp_all add: HttpxRequestClient_init_def AIOKafkaProducerClient_from_brokers_def local_import_defs nl bound_name_def)
qed

section \<open>Without the optional packages\<close>

lemma core_provides: "provides (map_of core_required) core_required"
  by (rule providesI [OF core_required_distinct])

theorem package_imports_witness:
  "map_of core_required [''starlette''] = None \<and> map_of core_required [''aiokafka''] = None \<and>
   (\<exists>st. import_all 200 deployed_sources (map_of core_required)
          [[''pactix'', ''transport'', ''http'', ''inbox''], [''pactix''], [''worker_loop'']] [] = Inr st
      \<and> (\<exists>v. get_attr (map_of core_required) st [''pactix'', ''transport'', ''http'', ''inbox''] ''make_inbox_endpoint'' = Some v)
      \<and> get_attr (map_of core_required) st [''pactix''] ''OutboxStore'' = Some (Defined [''pactix'', ''outbox'', ''store''] ''OutboxStore''))"
proof -
  let ?ext = "map_of core_required" and ?m = "[''pactix'', ''transport'', ''http'', ''inbox'']"
  have "set [?m, [''pactix''], [''worker_loop'']] \<subseteq> insert [''worker_loop''] (fst ` set pactix_sources)"
    by (simp add: source_defs)
  from package_imports [OF core_provides this] obtain st where
    st: "import_all 200 deployed_sources ?ext [?m, [''pactix''], [''worker_loop'']] [] = Inr st"
      "is_loaded ?m st" "is_loaded [''pactix''] st"
    and names: "\<And>m names x. (m, names) \<in> set pactix_exports \<Longrightarrow> x \<in> set names \<Longrightarrow> is_loaded m st \<Longrightarrow>
         \<exists>v. get_attr ?ext st m x = Some v \<and> denotes deployed_sources (From m x) v"
    and homes: "\<And>home names x. (home, names) \<in> set public_homes \<Longrightarrow> x \<in> set names \<Longrightarrow> is_loaded [''pactix''] st \<Longrightarrow>
         get_attr ?ext st [''pactix''] x = Some (Defined home x)" by auto
  have "(?m, transport_http_inbox_all) \<in> set pactix_exports" "''make_inbox_endpoint'' \<in> set transport_http_inbox_all"
    by (simp_all add: pactix_exports_def transport_http_inbox_all_def)
  note endpoint = names [OF this st(2)]
  have "([''pactix'', ''outbox'', ''store''], [''OutboxStore'']) \<in> set public_homes" "''OutboxStore'' \<in> set [''OutboxStore'']"
    by (simp_all add: public_homes_def)
  note store = homes [OF this st(3)]
  show ?thesis using st(1) endpoint store core_required_roots by blast
qed

end
