(* ===== verification/Spec2Isabelle.thy ===== *)
theory Spec2Isabelle
  imports InboxSettling Refused Workers HttpDelivery KafkaDelivery MigrationEnv PackageImports
begin

text \<open>
  A verification development for \<^verbatim>\<open>pactix\<close>, a transactional outbox and inbox for Python services on
  SQLAlchemy (\<^verbatim>\<open>src/src/pactix\<close>).

  \<^bold>\<open>The program.\<close>  A service appends messages to the table \<^verbatim>\<open>outbox_message\<close> in its own transactions.
  Workers call \<^verbatim>\<open>OutboxRunner.run_once\<close>: reclaim expired leases, claim a batch of due rows under a
  lease, hand each row to the publisher registered for its event type, and record the outcome
  (published, another attempt after a backoff, failed).  On the other side messages are received
  into \<^verbatim>\<open>inbox_message\<close>, once per \<^verbatim>\<open>(source, message_id)\<close>, and \<^verbatim>\<open>InboxRunner.run_once\<close> claims them and calls
  the application's handler behind a stale-event filter and an idempotency hook.  Kafka and HTTP
  adapters connect the two sides; a wakeup loop replaces blind polling.  Several workers may run
  against the same tables, and \<^verbatim>\<open>src/examples/worker_loop.py\<close> shows the service that starts them.  Everything runs on
  PostgreSQL and on MySQL, with different SQL.

  \<^bold>\<open>Theories and sources.\<close>
  \<^item> \<open>Prelude\<close>: errors (\<^verbatim>\<open>errors.py\<close>), results \<open>error + 'a\<close>, strings, dictionaries (association lists in
    insertion order), datetimes (microseconds with an offset), JSON values, the locale \<open>str_enum\<close>
    of text enumerations.
  \<^item> \<open>Float64\<close>: the binary64 arithmetic of \<^verbatim>\<open>timedelta.total_seconds\<close>, products, minimum and
    \<^verbatim>\<open>timedelta(seconds=...)\<close>, with rounding to nearest even.
  \<^item> \<open>Utf8\<close>, \<open>Decimal\<close>, \<open>Json\<close>, \<open>JsonRoundTrip\<close>: what the transports use of \<^verbatim>\<open>str.encode\<close>, \<^verbatim>\<open>bytes.decode\<close>,
    \<^verbatim>\<open>float.__repr__\<close>, \<^verbatim>\<open>json.dumps\<close> and \<^verbatim>\<open>json.loads\<close>: the printer, the number scanner, the recursive
    descent parser, and the locale \<open>text_codec\<close> with its interpretations \<open>utf8_text\<close> and \<open>json_text\<close>.
  \<^item> \<open>Config\<close>, \<open>Message\<close>, \<open>Retry\<close>: \<^verbatim>\<open>config.py\<close>, \<^verbatim>\<open>message.py\<close>, \<^verbatim>\<open>_retry.py\<close>.
  \<^item> \<open>Dialect\<close>: \<^verbatim>\<open>_dialect.py\<close> and \<^verbatim>\<open>_executor.py\<close>; an executor is a record of what the driver and the
    server do.  \<open>postgres_driver\<close> and \<open>mysql_driver\<close> (either: \<open>db_driver\<close>) name their documented behaviour;
    \<open>postgres_session\<close> and \<open>mysql_session\<close> (either: \<open>db_session\<close>) say in addition that no value sent is refused.
  \<^item> \<open>Sql\<close>: rows, and the relational operations the statements are made of (filtered and ordered
    selection with \<^verbatim>\<open>SKIP LOCKED\<close>, \<^verbatim>\<open>UPDATE\<close>, \<^verbatim>\<open>RETURNING\<close>, unique insertion) with \<^verbatim>\<open>NULL\<close>s, collations and
    values a column refuses; \<open>in_transaction\<close> is \<^verbatim>\<open>engine.begin()\<close>.
  \<^item> \<open>Schema\<close>, \<open>MigrationEnv\<close>: \<^verbatim>\<open>db/tables.py\<close>, the migrations, and \<^verbatim>\<open>db/migrations/env.py\<close> over a model of the
    interpolation of \<^verbatim>\<open>configparser\<close>.
  \<^item> \<open>LeaseQueue\<close>: the locales \<open>lease_queue\<close> (reclaim and claim under leases), \<open>fifo_queue\<close> (per-key
    order, which extends it) and \<open>retry_store\<close> (what the retry decision calls).  Exclusive claims,
    progress and order are proved here once.
  \<^item> \<open>Records\<close>: the table as a map from ids to records; the locale \<open>record_view\<close> turns updates and claims of rows
    into changes of records, with the interpretations \<open>outbox_stored\<close> and \<open>inbox_stored\<close>.
  \<^item> \<open>OutboxModel\<close>, \<open>OutboxStore\<close>, \<open>OutboxCorrect\<close>: \<^verbatim>\<open>outbox/model.py\<close>, \<^verbatim>\<open>outbox/store.py\<close>, the interpretations
    \<open>outbox_queue\<close>, \<open>outbox_retry\<close> and the store's properties.
  \<^item> \<open>InboxModel\<close>, \<open>InboxStore\<close>, \<open>InboxCorrect\<close>: the same for \<^verbatim>\<open>inbox/model.py\<close>, \<^verbatim>\<open>inbox/store.py\<close>, with the
    interpretations \<open>inbox_queue\<close> (ordered), \<open>inbox_unordered\<close> and \<open>inbox_retry\<close>.
  \<^item> \<open>Routing\<close>, \<open>Publisher\<close>: the locale \<open>router\<close> of the three routing tables, and \<^verbatim>\<open>outbox/publisher.py\<close>.
  \<^item> \<open>InboxHooks\<close>: \<^verbatim>\<open>inbox/handler.py\<close>, \<^verbatim>\<open>inbox/idempotency.py\<close>, \<^verbatim>\<open>inbox/stale.py\<close>.
  \<^item> \<open>RunnerLoop\<close>, \<open>OutboxRunner\<close>, \<open>InboxRunner\<close>: the loop both runners share, and \<^verbatim>\<open>outbox/runner.py\<close>,
    \<^verbatim>\<open>inbox/runner.py\<close>.
  \<^item> \<open>Wakeup\<close>: \<^verbatim>\<open>outbox/wakeup.py\<close>.
  \<^item> \<open>WorkerSystem\<close>, \<open>Workers\<close>: any number of runner passes interleaved on one table, as the step
    relation \<open>worker_step\<close> with the locale \<open>worker_queue\<close>, interpreted on both stores.  An outcome may be recorded at any
    time; \<open>timely_step\<close> are the steps that record those of one row within its lease.
  \<^item> \<open>Drain\<close>: \<^verbatim>\<open>WakeupRunner\<close> draining a whole table through \<^verbatim>\<open>OutboxRunner.run_once\<close>.
  \<^item> \<open>WorkerLoop\<close>: \<^verbatim>\<open>src/examples/worker_loop.py\<close>, the service that composes runner, wakeup and inbox.
  \<^item> \<open>KafkaTransport\<close>, \<open>HttpTransport\<close>: \<^verbatim>\<open>transport/kafka\<close> and \<^verbatim>\<open>transport/http\<close>, with the interpretations
    \<open>kafka_router\<close> and \<open>http_router\<close>.
  \<^item> \<open>Delivery\<close>, \<open>HttpDelivery\<close>, \<open>KafkaDelivery\<close>: the composition of one service's outbox, a transport and another
    service's inbox, as the step relation \<open>delivery_step\<close>.  The locale \<open>carrier\<close> is what a transport promises; its interpretations are
    \<open>http_carrier\<close> (the publisher, a network that loses requests and answers, the endpoint) and
    \<open>kafka_carrier\<close> (the publisher, logs, a consumer that fails and restarts).
  \<^item> \<open>Settling\<close>, \<open>InboxSettling\<close>: a polling loop over either runner whose callbacks may answer anything; the
    locale \<open>settling_runner\<close> with the interpretations \<open>outbox_settling\<close> and \<open>inbox_settling\<close>.
  \<^item> \<open>Refused\<close>: the same loop when the database refuses the text of an outcome.
  \<^item> \<open>Imports\<close>, \<open>Linking\<close>: Python's import system over top-level statements (\<^verbatim>\<open>sys.modules\<close>, partly initialised
    packages, relative imports, submodules found by \<^verbatim>\<open>from ... import\<close>), and the locale \<open>linked_package\<close>: a
    check of the sources that makes every import succeed.
  \<^item> \<open>Package\<close>, \<open>PackageImports\<close>: the import blocks, definitions and \<^verbatim>\<open>__all__\<close> of every module under
    \<^verbatim>\<open>src/src/pactix\<close> and of the example, the interpretation \<open>deployed\<close>, and the imports inside of functions
    (\<^verbatim>\<open>HttpxRequestClient.__init__\<close>, \<^verbatim>\<open>AIOKafkaProducerClient.from_brokers\<close>).

  \<^bold>\<open>State and effects.\<close>  A table is the list of its committed rows.  A store operation takes the
  executor, the clock readings and the generated identifiers as arguments and returns an error
  or its answer with the new table; an \<^verbatim>\<open>engine.begin()\<close> block that raises leaves the table as it
  was (\<open>in_transaction\<close>).  A pass of a runner is one claim transaction followed by one transaction per row; before
  each of these \<open>others\<close> applies what concurrent transactions committed.  Publishers, handlers,
  hooks and clients are functions that may raise.  In the step relation of \<open>WorkerSystem\<close> each worker
  holds the rows of its pass, and a step is one transaction of one worker, a tick of the clock, or
  a failure that abandons a pass.  In the step relation of \<open>Delivery\<close> a step is one transaction of the
  sender, one publish call with its answer, or one action behind the transport; claimed records
  may be published at any time and any number of times, and answers recorded late or never.

  \<^bold>\<open>Loops and fuel.\<close>  Loops run over the claimed rows, over the 100 passes of a drain, or over a
  finite list of wakeups or iterations, which stands for a run of a loop that ends only when it is
  cancelled.  The JSON parser takes fuel, \<open>2 * length + 1\<close>: each call consumes a character or
  stops, and the lemma \<open>parse_fuel\<close> shows that more fuel never changes a result, so that the fuel is
  enough for every text.  Nested imports have the depth bound 200 in place of the interpreter's stack;
  \<open>import_all_ok\<close> shows that five per module and four more are enough, which is 179 for the 35 sources.

  \<^bold>\<open>What is shown.\<close>
  \<^item> Stores: claims are exclusive while leases run and first in, first out per event type and
    ordering key; the PostgreSQL and MySQL claims agree as far as MySQL's collation keeps the keys apart, and
    differ where it does not; reclaiming is exact; due work is always
    claimed; the updates and claims of both stores refine the transitions of the in-memory records; appending
    succeeds exactly when validation, the columns and uniqueness allow it, and what is read back is what was written;
    a received message stays received; every table that calls can build satisfies the invariant.
  \<^item> Interleavings: no interleaving loses a received row; in those in which the outcomes of a row are recorded
    within its lease, one worker at a time holds the row, and finished it never changes again; an outcome
    recorded later can reopen a published row.
  \<^item> Runners: every claimed row is settled as its outcome asks and counted once; when a callback
    raises, unsettled rows stay leased; the handler never sees a skipped row.
  \<^item> End to end: over HTTP a published row is in the receiver's table exactly once, and over Kafka once
    the consumer has committed past it, whatever is lost, repeated or crashes.
  \<^item> Settling: when passes are the longest backoff apart, every outbox and inbox row ends published or
    processed or failed, after as many passes as the rows have attempts left.  A message whose error text the
    database refuses never does.
  \<^item> Retry: waits stay within the maximal interval and never shorten, in binary64 arithmetic.
  \<^item> Wakeup: drains end, connections are returned, notifications keep their distance; draining a
    table whose rows are due and whose publishers succeed publishes every open row.
  \<^item> Service: a loop survives the errors of its passes, and the wakeup loop of the service publishes
    what was appended; cancellation passes through every handler of exceptions.
  \<^item> Texts: UTF-8 and JSON round trips, floats included; what a parser returns can be printed.
  \<^item> Transports: metadata and payload survive both ways; offsets follow receipts; redeliveries are
    duplicates; responses and errors are classified as documented; what the inbox endpoint answers and
    stores is determined by the request's headers and body.
  \<^item> Schema: the migrations build the tables the library declares, and downgrading undoes them; the
    environment runs them on the URL it was given, unless that has percent signs, which it refuses.
  \<^item> Package: every module can be imported first and in every order, with the standard library and SQLAlchemy
    alone; exported names are bound, public names have one home.

  \<^bold>\<open>What the theorems assume.\<close>  \<open>db_driver\<close>: timestamps keep microseconds, JSON columns return the value
  written (up to what Python's \<^verbatim>\<open>==\<close> does not see, the order of keys above all), equal collation keys are what the server treats as equal text, values that fit are
  stored as they are.  \<open>db_session\<close>: besides, no value is refused, so that NUL characters and NaN on PostgreSQL, texts over
  64 KiB on MySQL and counts beyond 32 bits do not occur; the theorems on append, on the HTTP endpoint and on refused
  error texts do without it.  A commit, once reached, succeeds.  \<open>pow_nonneg\<close> and \<open>pow_mono\<close>: the power function of the platform is
  non-negative and monotone.  \<open>others_keep\<close>: other transactions do not settle rows whose lease
  they do not hold.  \<open>json_ok\<close>: keys of an object are distinct and floats are binary64 values.
  \<open>drain_env\<close> and \<open>all_publish\<close>: clocks do not run backwards during a drain, nobody else writes, and
  every publisher answers success.  \<open>settle_env\<close>, \<open>all_answer\<close> and \<open>all_decide\<close>: the same for a polling loop, with
  passes the longest backoff apart and callbacks that answer anything but an exception.
  \<open>http_delivers\<close> and \<open>http_setting\<close>: the HTTP stack delivers what was sent.  \<open>http_sendable\<close>, \<open>kafka_sendable\<close> and
  \<open>entry_fits\<close>: messages fit the receiver's columns and leave the library's own headers alone.
  \<open>configparser_backed\<close>: alembic's configuration is a view of a \<^verbatim>\<open>ConfigParser\<close>.
  \<open>provides\<close>: the installed packages offer the names that the import statements ask for.  Each has a concrete
  instance in the witnesses.

  \<^bold>\<open>Not modelled.\<close>  Characters beyond Latin-1, surrogates, and JSON documents in UTF-16 or UTF-32 (the decoders answer \<open>OutsideModel\<close>
  for them, and nothing is claimed); the limits of Python's parser on the digits of an integer and on nesting; datetimes outside
  the years 1 to 9999; the \<^verbatim>\<open>import\<close>s inside \<^verbatim>\<open>AIOKafkaOffsetCommitter.commit\<close>, \<^verbatim>\<open>make_inbox_endpoint\<close> and \<^verbatim>\<open>inbox_route\<close>, which are
  taken to succeed; and statements of other applications on the two tables.  Of
  third-party code only what the named assumptions say; in particular the clients that httpx and aiokafka construct are
  parameters.  Attributes that a module body reads of an imported module (\<^verbatim>\<open>enum.Enum\<close>) are not checked to exist.
  Benchmarks and tests define no behaviour of the library.
\<close>

end
